(* ===== verification/Prelude.thy ===== *)
theory Prelude
  imports Main "HOL-Library.Word"
begin

text \<open>
  Shared vocabulary of the development: machine integers and byte strings, Rust's
  \<^verbatim>\<open>Result\<close>, the outcome of code that may panic, and the generic facts on lists
  and words that the component theories use.  A fallible operation of the source returns a
  \<open>result\<close>; code that can unwind returns a \<open>run\<close>; code that
  touches anything outside the crate takes the state of the outside world as its last
  argument and returns it as the second component of its result.
\<close>

section \<open>Machine integers, bytes, object references\<close>

type_synonym u8 = "8 word"
type_synonym u16 = "16 word"
type_synonym u64 = "64 word"
type_synonym bytes = "u8 list"

text \<open>
  Objects that live outside the crate (framed streams, transports, traffic processors,
  channel ends, \<^verbatim>\<open>Arc\<close>s, \<^verbatim>\<open>fn\<close> pointers) are named by references; their
  contents are part of the world.
\<close>

type_synonym framed = nat
type_synonym transport = nat
type_synonym codec = nat
type_synonym processor = nat
type_synonym sender = nat
type_synonym receiver = nat
type_synonym arc = nat
type_synonym fn_ptr = nat
type_synonym socket_addr = string

definition as_bytes :: "string \<Rightarrow> bytes" where
  "as_bytes s = map of_char s"

section \<open>Results, panics, outcomes\<close>

datatype ('a, 'e) result = is_ok: Ok 'a | Err 'e

datatype 'a run = Returned 'a | Panicked

primrec map_err :: "('e \<Rightarrow> 'f) \<Rightarrow> ('a, 'e) result \<Rightarrow> ('a, 'f) result" where
  "map_err f (Ok x) = Ok x"
| "map_err f (Err e) = Err (f e)"

primrec ok_or :: "'e \<Rightarrow> 'a option \<Rightarrow> ('a, 'e) result" where
  "ok_or e None = Err e"
| "ok_or e (Some x) = Ok x"

named_theorems outcome_splits \<open>case splits on results, runs, options and pairs\<close>

lemmas [outcome_splits] = result.splits run.splits option.splits prod.splits if_splits

named_theorems io_defs \<open>definitions that thread the world\<close>

lemma map_err_Ok_iff [simp]: "map_err f r = Ok x \<longleftrightarrow> r = Ok x"
  by (cases r) auto

lemma is_ok_map_err [simp]: "is_ok (map_err f r) = is_ok r"
  by (cases r) auto

lemma ok_or_Ok_iff [simp]: "ok_or e x = Ok y \<longleftrightarrow> x = Some y"
  by (cases x) auto

section \<open>Operations that keep a view of the world\<close>

definition kept :: "('w \<Rightarrow> 'v) \<Rightarrow> ('w \<Rightarrow> 'a \<times> 'w) \<Rightarrow> bool" where
  "kept v f \<longleftrightarrow> (\<forall>w. v (snd (f w)) = v w)"

lemma keptD: "kept v f \<Longrightarrow> f w = (r, w') \<Longrightarrow> v w' = v w"
  unfolding kept_def by (metis snd_conv)

definition kept_if_done :: "('w \<Rightarrow> 'v) \<Rightarrow> ('w \<Rightarrow> ('a \<times> 'w) option) \<Rightarrow> bool" where
  "kept_if_done v f \<longleftrightarrow> (\<forall>w r w'. f w = Some (r, w') \<longrightarrow> v w' = v w)"

lemma kept_if_doneD: "kept_if_done v f \<Longrightarrow> f w = Some (r, w') \<Longrightarrow> v w' = v w"
  by (simp add: kept_if_done_def)

section \<open>Words as indices\<close>

lemma of_nat_u64_inj:
  "i < 2 ^ 64 \<Longrightarrow> j < 2 ^ 64 \<Longrightarrow> (of_nat i :: u64) = of_nat j \<longleftrightarrow> i = j"
proof
  assume "i < 2 ^ 64" "j < 2 ^ 64" "(of_nat i :: u64) = of_nat j"
  then have "unat (of_nat i :: u64) = unat (of_nat j :: u64)"
    by simp
  then show "i = j"
    using \<open>i < 2 ^ 64\<close> \<open>j < 2 ^ 64\<close> by (simp add: unat_of_nat)
qed simp

lemma unat_of_nat_u64 [simp]: "i < 2 ^ 64 \<Longrightarrow> unat (of_nat i :: u64) = i"
  by (simp add: unat_of_nat)

lemma drop_Cons_step:
  assumes "drop k xs = y # ys"
  shows "take (Suc k) xs = take k xs @ [y]" and "ys = drop (Suc k) xs"
proof -
  have k: "k < length xs" using assms by (metis drop_all linorder_not_less list.discI)
  then have "drop k xs = xs ! k # drop (Suc k) xs" by (simp add: Cons_nth_drop_Suc)
  then show "take (Suc k) xs = take k xs @ [y]" and "ys = drop (Suc k) xs"
    using assms k by (simp_all add: take_Suc_conv_app_nth)
qed

end
