(* ===== verification/Std_HashMap.thy ===== *)
theory Std_HashMap
  imports Prelude
begin

text \<open>
  The part of \<^verbatim>\<open>std::collections::HashMap\<close> the crate uses: \<^verbatim>\<open>new\<close>,
  \<^verbatim>\<open>insert\<close> and \<^verbatim>\<open>get\<close>.  A map is the list of its entries.  The key
  comparison is an argument (\<open>same probe stored\<close>: equal hash and \<^verbatim>\<open>Eq\<close>),
  because one of the maps is keyed by a type whose \<^verbatim>\<open>Eq\<close> and \<^verbatim>\<open>Hash\<close>
  are not the structural ones.  \<^verbatim>\<open>insert\<close> on a present key replaces the value
  and keeps the stored key, as the standard library documents.  The locale \<open>dict\<close>
  is the contract a client of a map relies on; maps with structural keys satisfy it.
\<close>

type_synonym ('k, 'v) hash_map = "('k \<times> 'v) list"

fun hm_get :: "('k \<Rightarrow> 'k \<Rightarrow> bool) \<Rightarrow> ('k, 'v) hash_map \<Rightarrow> 'k \<Rightarrow> 'v option" where
  "hm_get same [] k = None"
| "hm_get same ((k', v) # m) k = (if same k k' then Some v else hm_get same m k)"

fun hm_insert :: "('k \<Rightarrow> 'k \<Rightarrow> bool) \<Rightarrow> ('k, 'v) hash_map \<Rightarrow> 'k \<Rightarrow> 'v \<Rightarrow> ('k, 'v) hash_map" where
  "hm_insert same [] k v = [(k, v)]"
| "hm_insert same ((k', v') # m) k v =
     (if same k k' then (k', v) # m else (k', v') # hm_insert same m k v)"

section \<open>The dictionary contract\<close>

locale dict =
  fixes empty :: 'm
    and get :: "'m \<Rightarrow> 'k \<Rightarrow> 'v option"
    and ins :: "'m \<Rightarrow> 'k \<Rightarrow> 'v \<Rightarrow> 'm"
  assumes get_empty: "get empty k = None"
    and get_ins: "get (ins m k v) k' = (if k' = k then Some v else get m k')"
begin

lemma get_fold_ins:
  "get (fold (\<lambda>(k, v) m. ins m k v) kvs m) k =
     (case map_of (rev kvs) k of Some v \<Rightarrow> Some v | None \<Rightarrow> get m k)"
  by (induction kvs arbitrary: m)
     (auto simp: get_ins map_add_def split: option.splits)

lemma get_fold_ins_empty:
  "get (fold (\<lambda>(k, v) m. ins m k v) kvs empty) k = map_of (rev kvs) k"
  by (simp add: get_fold_ins get_empty split: option.splits)

lemma ins_shadow: "get (ins (ins m k v) k v') = get (ins m k v')"
  by (rule ext) (simp add: get_ins)

end

lemma hm_get_insert_eq:
  "hm_get (=) (hm_insert (=) m k v) k' = (if k' = k then Some v else hm_get (=) m k')"
  by (induction m) auto

interpretation std_map: dict "[] :: ('k, 'v) hash_map" "hm_get (=)" "hm_insert (=)"
  by unfold_locales (simp_all add: hm_get_insert_eq)

section \<open>Entries under a non-structural comparison\<close>

text \<open>
  As long as no two inserted keys are the same, insertion only appends, so the map holds
  exactly the inserted entries.
\<close>

lemma hm_insert_fresh:
  "\<forall>k' \<in> fst ` set m. \<not> same k k' \<Longrightarrow> hm_insert same m k v = m @ [(k, v)]"
  by (induction m) auto

lemma fold_hm_insert_fresh:
  assumes "\<forall>k k'. same k k' \<longrightarrow> f k = f k'"
    and "distinct (map (f \<circ> fst) (m @ kvs))"
  shows "fold (\<lambda>(k, v) m. hm_insert same m k v) kvs m = m @ kvs"
  using assms(2)
proof (induction kvs arbitrary: m)
  case Nil
  then show ?case by simp
next
  case (Cons kv kvs)
  obtain k v where kv: "kv = (k, v)" by (cases kv)
  have "f k \<notin> f ` fst ` set m"
    using Cons.prems by (simp add: kv image_image)
  then have "\<forall>k' \<in> fst ` set m. \<not> same k k'"
    using assms(1) by blast
  then have "hm_insert same m k v = m @ [(k, v)]"
    by (rule hm_insert_fresh)
  moreover have "fold (\<lambda>(k, v) m. hm_insert same m k v) kvs (m @ [kv]) = (m @ [kv]) @ kvs"
    by (rule Cons.IH) (use Cons.prems in simp)
  ultimately show ?case
    by (simp add: kv)
qed

text \<open>
  When the comparison only relates keys with the same tag and all tags differ, at most one
  entry answers a probe, whatever the order of the entries.
\<close>

lemma hm_get_unique:
  assumes "\<forall>k k'. same k k' \<longrightarrow> f k = f k'" and "same k k'"
  shows "distinct (map (f \<circ> fst) m) \<Longrightarrow> (k', v) \<in> set m \<Longrightarrow> hm_get same m k = Some v"
proof (induction m)
  case Nil
  then show ?case by simp
next
  case (Cons e m)
  obtain k0 v0 where e: "e = (k0, v0)" by (cases e)
  show ?case
  proof (cases "(k', v) = e")
    case True
    then show ?thesis using assms(2) e by simp
  next
    case False
    then have mem: "(k', v) \<in> set m" using Cons.prems by simp
    then have "f k' \<in> f ` fst ` set m" by force
    moreover have "f k0 \<notin> f ` fst ` set m" using Cons.prems(1) e by (simp add: image_image)
    ultimately have "f k0 \<noteq> f k'" by metis
    then have "\<not> same k k0" using assms by metis
    then show ?thesis using Cons mem e by simp
  qed
qed

lemma hm_get_None: "(\<forall>k' \<in> fst ` set m. \<not> same k k') \<Longrightarrow> hm_get same m k = None"
  by (induction m) auto

lemma hm_get_Some_mem: "hm_get same m k = Some v \<Longrightarrow> \<exists>k'. (k', v) \<in> set m \<and> same k k'"
  by (induction m) (auto split: if_splits)

end
