(* ===== verification/Externals.thy ===== *)
theory Externals
  imports Std_HashMap
begin

text \<open>
  What the crate uses of code outside the repository (\<^verbatim>\<open>the_fourth_utils\<close>,
  \<^verbatim>\<open>tokio\<close>, \<^verbatim>\<open>tokio-util\<close>, \<^verbatim>\<open>futures-util\<close>).  None of
  it is defined here: the operations are fields of records, and every definition of the
  development that calls one takes the record as an argument.  An operation that may panic has a
  \<open>run\<close> for its value, and one whose not completing blocks the task that a theory is about is an
  option, \<open>None\<close> for never.  The operations on streams and processors return here; the theory
  \<open>Awaits\<close> instantiates them with operations that may never complete.  The message structures and
  enums are those whose literals the sources write.  The last section names what the crate
  relies on, as predicates on the records; a theorem that needs one of them has it as a
  hypothesis.
\<close>

section \<open>Messages of the wire protocol\<close>

datatype system_s_type = ST_PacketMeta | ST_HandlerMetaReq | ST_HandlerMetaAns

record packet_meta =
  pm_s_type :: system_s_type
  s_type_req :: u64
  pm_handler_id :: u64
  has_payload :: bool

record handler_meta_req =
  hmr_s_type :: system_s_type
  handler_name :: string

record handler_meta_ans =
  hma_s_type :: system_s_type
  hma_id :: u64

datatype server_error_en =
    NoSuchHandler "bytes option"
  | InternalError "bytes option"
  | MalformedMetaInfo "bytes option"

datatype server_error = ServerError server_error_en

record 'tc type_tuple =
  s_types :: "'tc set"
  handler_id :: u64

section \<open>The module \<open>s_type\<close>\<close>

text \<open>
  \<open>'st\<close> stands for \<^verbatim>\<open>Box<dyn StructureType>\<close>, \<open>'tc\<close> for the values of
  \<^verbatim>\<open>TypeContainer\<close> up to its \<^verbatim>\<open>Eq\<close>, and \<open>tuple_same\<close> for equal hash
  and \<^verbatim>\<open>Eq\<close> of \<^verbatim>\<open>TypeTuple\<close>.  An error of \<^verbatim>\<open>access\<close> is its
  message.
\<close>

record ('st, 'tc) s_type_lib =
  access_PacketMeta :: "bytes \<Rightarrow> (packet_meta, string) result"
  access_HandlerMetaReq :: "bytes \<Rightarrow> (handler_meta_req, string) result"
  access_HandlerMetaAns :: "bytes \<Rightarrow> (handler_meta_ans, string) result"
  to_bytes_PacketMeta :: "packet_meta \<Rightarrow> bytes option"
  to_bytes_HandlerMetaReq :: "handler_meta_req \<Rightarrow> bytes option"
  to_bytes_HandlerMetaAns :: "handler_meta_ans \<Rightarrow> bytes option"
  to_bytes_ServerError :: "server_error \<Rightarrow> bytes option"
  get_deserialize_function :: "'st \<Rightarrow> u64 \<Rightarrow> 'st"
  get_serialize_function :: "'st \<Rightarrow> 'st \<Rightarrow> u64"
  clone_unique :: "'st \<Rightarrow> 'st"
  type_container :: "'st \<Rightarrow> 'tc"
  tuple_same :: "'tc type_tuple \<Rightarrow> 'tc type_tuple \<Rightarrow> bool"

section \<open>Framed streams, traffic processors, channels\<close>

datatype error_kind =
    ConnectionReset | ConnectionAborted | BrokenPipe | UnexpectedEof | InvalidData
  | OtherKind nat

record io_error =
  kind :: error_kind
  io_msg :: string

text \<open>
  An awaited operation takes the world and returns its value and the world as it is when
  the await completes; what other tasks did meanwhile is part of that change.  The world is any type: in
  \<open>Awaits\<close> it also says whether the task is still running, and an await that never completes leaves
  the task waiting in it.
\<close>

record 'w conn_io =
  framed_next :: "framed \<Rightarrow> 'w \<Rightarrow> (bytes, io_error) result option \<times> 'w"
  framed_send :: "framed \<Rightarrow> bytes \<Rightarrow> 'w \<Rightarrow> (unit, io_error) result \<times> 'w"
  framed_close :: "framed \<Rightarrow> 'w \<Rightarrow> (unit, io_error) result \<times> 'w"
  framed_new :: "transport \<Rightarrow> codec \<Rightarrow> 'w \<Rightarrow> framed \<times> 'w"
  pre_process_traffic :: "processor \<Rightarrow> bytes \<Rightarrow> 'w \<Rightarrow> bytes \<times> 'w"
  post_process_traffic :: "processor \<Rightarrow> bytes \<Rightarrow> 'w \<Rightarrow> bytes \<times> 'w"
  processor_new :: "'w \<Rightarrow> processor \<times> 'w"
  processor_clone :: "processor \<Rightarrow> 'w \<Rightarrow> processor \<times> 'w"

section \<open>What the crate relies on\<close>

text \<open>
  \<open>wire_laws\<close>: the system messages round-trip through \<^verbatim>\<open>to_bytes\<close> and
  \<^verbatim>\<open>access\<close> when their \<^verbatim>\<open>s_type\<close> field carries the tag of the structure,
  and \<^verbatim>\<open>access\<close> at one structure refuses the bytes of another and the empty
  message.
\<close>

definition wire_laws :: "('st, 'tc) s_type_lib \<Rightarrow> bool" where
  "wire_laws L \<longleftrightarrow>
     (\<forall>m. pm_s_type m = ST_PacketMeta \<longrightarrow>
        (\<exists>b. to_bytes_PacketMeta L m = Some b \<and> access_PacketMeta L b = Ok m)) \<and>
     (\<forall>m. hmr_s_type m = ST_HandlerMetaReq \<longrightarrow>
        (\<exists>b. to_bytes_HandlerMetaReq L m = Some b \<and> access_HandlerMetaReq L b = Ok m \<and>
             \<not> is_ok (access_PacketMeta L b))) \<and>
     (\<forall>m. hma_s_type m = ST_HandlerMetaAns \<longrightarrow>
        (\<exists>b. to_bytes_HandlerMetaAns L m = Some b \<and> access_HandlerMetaAns L b = Ok m)) \<and>
     (\<forall>e. \<exists>b. to_bytes_ServerError L e = Some b \<and> \<not> is_ok (access_HandlerMetaAns L b)) \<and>
     \<not> is_ok (access_PacketMeta L []) \<and> \<not> is_ok (access_HandlerMetaReq L [])"

text \<open>
  \<open>key_ids\<close>: two \<^verbatim>\<open>TypeTuple\<close>s that compare equal have the same handler id.
  \<open>key_laws\<close>: in addition a key with one structure type finds exactly the
  registered keys with its id whose types contain that type.
\<close>

definition key_ids :: "('st, 'tc) s_type_lib \<Rightarrow> bool" where
  "key_ids L \<longleftrightarrow> (\<forall>a b. tuple_same L a b \<longrightarrow> handler_id a = handler_id b)"

definition key_laws :: "('st, 'tc) s_type_lib \<Rightarrow> bool" where
  "key_laws L \<longleftrightarrow> key_ids L \<and>
     (\<forall>t i k. tuple_same L \<lparr>s_types = {t}, handler_id = i\<rparr> k \<longleftrightarrow>
        i = handler_id k \<and> t \<in> s_types k)"

text \<open>
  \<open>user_type_laws\<close>: the functions a user type provides invert each other, and
  \<^verbatim>\<open>clone_unique\<close> copies.
\<close>

definition user_type_laws :: "('st, 'tc) s_type_lib \<Rightarrow> bool" where
  "user_type_laws L \<longleftrightarrow>
     (\<forall>u t. get_deserialize_function L u (get_serialize_function L t t) = t) \<and>
     (\<forall>t. clone_unique L t = t)"

lemma key_idsD: "key_ids L \<Longrightarrow> tuple_same L a b \<Longrightarrow> handler_id a = handler_id b"
  by (simp add: key_ids_def)

lemma key_lawsD:
  "key_laws L \<Longrightarrow> key_ids L"
  "key_laws L \<Longrightarrow> tuple_same L \<lparr>s_types = {t}, handler_id = i\<rparr> k \<longleftrightarrow>
     i = handler_id k \<and> t \<in> s_types k"
  by (simp_all add: key_laws_def)

lemma wire_PacketMetaE:
  assumes "wire_laws L" and "pm_s_type m = ST_PacketMeta"
  obtains b where "to_bytes_PacketMeta L m = Some b" and "access_PacketMeta L b = Ok m"
  using assms by (auto simp: wire_laws_def)

lemma wire_HandlerMetaReqE:
  assumes "wire_laws L" and "hmr_s_type m = ST_HandlerMetaReq"
  obtains b e where "to_bytes_HandlerMetaReq L m = Some b" and "access_HandlerMetaReq L b = Ok m"
    and "access_PacketMeta L b = Err e"
  using assms unfolding wire_laws_def by (metis result.exhaust_disc result.collapse(2) is_ok_def result.exhaust)

lemma wire_HandlerMetaAnsE:
  assumes "wire_laws L" and "hma_s_type m = ST_HandlerMetaAns"
  obtains b where "to_bytes_HandlerMetaAns L m = Some b" and "access_HandlerMetaAns L b = Ok m"
  using assms by (auto simp: wire_laws_def)

lemma wire_ServerErrorE:
  assumes "wire_laws L"
  obtains b e where "to_bytes_ServerError L se = Some b" and "access_HandlerMetaAns L b = Err e"
  using assms unfolding wire_laws_def by (metis is_ok_def result.exhaust)

lemma wire_empty:
  assumes "wire_laws L"
  obtains e e' where "access_PacketMeta L [] = Err e" and "access_HandlerMetaReq L [] = Err e'"
  using assms unfolding wire_laws_def by (metis is_ok_def result.exhaust)

section \<open>Streams as queues\<close>

text \<open>
  A stream that delivers the frames of \<open>ins\<close> in order and then ends, that accepts
  every frame and appends it to \<open>outs\<close>, and processors that compute \<open>pre\<close>
  and \<open>post\<close>: reliable in-order delivery, as TCP under a framing codec gives it.
  \<open>ins\<close> and \<open>outs\<close> are views of the world.
\<close>

definition untouched :: "('w \<Rightarrow> 'a) \<Rightarrow> ('w \<Rightarrow> 'b) \<Rightarrow> 'w \<Rightarrow> 'w \<Rightarrow> bool" where
  "untouched ins outs w w' \<longleftrightarrow> ins w' = ins w \<and> outs w' = outs w"

definition fifo_stream ::
  "'w conn_io \<Rightarrow> framed \<Rightarrow> processor \<Rightarrow> ('w \<Rightarrow> bytes list) \<Rightarrow> ('w \<Rightarrow> bytes list)
     \<Rightarrow> (bytes \<Rightarrow> bytes) \<Rightarrow> (bytes \<Rightarrow> bytes) \<Rightarrow> bool" where
  "fifo_stream IO stream processor ins outs pre post \<longleftrightarrow>
     (\<forall>w. ins w = [] \<longrightarrow>
        (\<exists>w'. framed_next IO stream w = (None, w') \<and> untouched ins outs w w')) \<and>
     (\<forall>w x xs. ins w = x # xs \<longrightarrow>
        (\<exists>w'. framed_next IO stream w = (Some (Ok x), w') \<and> ins w' = xs \<and> outs w' = outs w)) \<and>
     (\<forall>b w. \<exists>w'. framed_send IO stream b w = (Ok (), w') \<and> ins w' = ins w \<and> outs w' = outs w @ [b]) \<and>
     (\<forall>w. untouched ins outs w (snd (framed_close IO stream w))) \<and>
     (\<forall>b w. \<exists>w'. pre_process_traffic IO processor b w = (pre b, w') \<and> untouched ins outs w w') \<and>
     (\<forall>b w. \<exists>w'. post_process_traffic IO processor b w = (post b, w') \<and> untouched ins outs w w')"

lemma fifo_streamE:
  assumes "fifo_stream IO stream processor ins outs pre post"
  shows "ins w = [] \<Longrightarrow> \<exists>w'. framed_next IO stream w = (None, w') \<and> ins w' = [] \<and> outs w' = outs w"
    and "ins w = x # xs \<Longrightarrow>
      \<exists>w'. framed_next IO stream w = (Some (Ok x), w') \<and> ins w' = xs \<and> outs w' = outs w"
    and "\<exists>w'. framed_send IO stream b w = (Ok (), w') \<and> ins w' = ins w \<and> outs w' = outs w @ [b]"
    and "ins (snd (framed_close IO stream w)) = ins w \<and> outs (snd (framed_close IO stream w)) = outs w"
    and "\<exists>w'. pre_process_traffic IO processor b w = (pre b, w') \<and> ins w' = ins w \<and> outs w' = outs w"
    and "\<exists>w'. post_process_traffic IO processor b w = (post b, w') \<and> ins w' = ins w \<and> outs w' = outs w"
  using assms unfolding fifo_stream_def untouched_def by metis+

end
