(* ===== verification/Handler.thy ===== *)
theory Handler
  imports Externals
begin

text \<open>
  The types of \<^verbatim>\<open>src/server/handler.rs\<close>.  A \<^verbatim>\<open>ServeFn\<close> is a plain
  \<^verbatim>\<open>fn\<close> that returns a boxed future: the call and the future are two separate
  pieces of user code, each of which may change the world and may panic, and only the
  future runs under \<^verbatim>\<open>catch_unwind\<close>.  The sender of the stream hand-off channel is
  moved into the handler and comes back, or not, as the second component of its value.
\<close>

type_synonym ('w, 'a) future = "'w \<Rightarrow> 'a run \<times> 'w"

type_synonym serve_value = "(bytes, bytes) result \<times> sender option"

type_synonym 'w serve_future = "('w, serve_value) future"

type_synonym 'w accept_future = "('w, unit) future"

type_synonym ('st, 'w) serve_fn =
  "arc \<Rightarrow> socket_addr \<Rightarrow> sender option \<Rightarrow> 'st \<Rightarrow> bytes \<Rightarrow> ('w, 'w serve_future) future"

type_synonym 'w accept_fn =
  "arc \<Rightarrow> socket_addr \<Rightarrow> framed \<times> processor \<Rightarrow> ('w, 'w accept_future) future"

record ('st, 'w) route =
  state :: arc
  serve :: "('st, 'w) serve_fn"

text \<open>
  The one-shot channel that carries the hand-off request, and the call of the
  \<^verbatim>\<open>AcceptFn\<close> pointer received from it.  \<^verbatim>\<open>try_recv\<close> is \<open>Some\<close> when it
  yields \<^verbatim>\<open>Ok\<close>.
\<close>

record 'w handoff_io =
  oneshot_channel :: "'w \<Rightarrow> (sender \<times> receiver) \<times> 'w"
  oneshot_try_recv :: "receiver \<Rightarrow> 'w \<Rightarrow> (fn_ptr \<times> arc) option \<times> 'w"
  accept_call :: "fn_ptr \<Rightarrow> 'w accept_fn"

text \<open>
  Handlers as the \<^verbatim>\<open>#[serve]\<close> macro writes them: the call only boxes the future.
\<close>

definition boxed :: "(arc \<Rightarrow> socket_addr \<Rightarrow> sender option \<Rightarrow> 'st \<Rightarrow> bytes \<Rightarrow> 'w serve_future)
    \<Rightarrow> ('st, 'w) serve_fn" where
  "boxed f st addr tx s_ty data w = (Returned (f st addr tx s_ty data), w)"

end
