(* ===== verification/Server_Router.thy ===== *)
theory Server_Router
  imports Handler
begin

text \<open>
  \<^verbatim>\<open>src/server/server_router.rs\<close>: the router's state, its registration operations
  and the dispatch of one packet.  Then the abstract specification of a router (the list
  of registrations, in order) and the facts that the concrete tables implement it.
\<close>

section \<open>State and operations\<close>

record ('st, 'tc, 'w) tf_server_router =
  routes :: "('tc type_tuple, ('st, 'w) route) hash_map"
  routes_text_names :: "(string, u64) hash_map"
  routes_to_add :: "('tc type_tuple \<times> ('st, 'w) route \<times> string) list"
  router_incremental :: u64
  routes_commited :: bool
  user_s_type :: 'st

definition router_new :: "'st \<Rightarrow> ('st, 'tc, 'w) tf_server_router" where
  "router_new u =
     \<lparr>routes = [], routes_text_names = [], routes_to_add = [],
      router_incremental = 0, routes_commited = False, user_s_type = u\<rparr>"

lemma router_new_simps [simp]:
  "routes (router_new u) = []" "routes_text_names (router_new u) = []"
  "routes_to_add (router_new u) = []" "router_incremental (router_new u) = 0"
  "\<not> routes_commited (router_new u)" "user_s_type (router_new u) = u"
  by (simp_all add: router_new_def)

text \<open>The loop of \<^verbatim>\<open>add_route\<close> that pops the structure types into the hash set.\<close>

function drain_types :: "('st, 'tc) s_type_lib \<Rightarrow> 'st list \<Rightarrow> 'tc set \<Rightarrow> 'tc set" where
  "drain_types L s_tys acc =
     (if s_tys = [] then acc
      else drain_types L (butlast s_tys) (insert (type_container L (last s_tys)) acc))"
  by pat_completeness auto
termination
  by (relation "measure (\<lambda>(L, s_tys, acc). length s_tys)") auto

declare drain_types.simps [simp del]

definition add_route ::
  "('st, 'tc) s_type_lib \<Rightarrow> ('st, 'w) route \<Rightarrow> string \<Rightarrow> 'st list
     \<Rightarrow> ('st, 'tc, 'w) tf_server_router \<Rightarrow> ('st, 'tc, 'w) tf_server_router" where
  "add_route L rt name s_tys r =
     (if routes_commited r then r
      else
        let types_tupple = \<lparr>s_types = drain_types L s_tys {}, handler_id = router_incremental r\<rparr>
        in r\<lparr>routes_to_add := routes_to_add r @ [(types_tupple, rt, name)],
             router_incremental := router_incremental r + 1\<rparr>)"

text \<open>The loop of \<^verbatim>\<open>commit_routes\<close> over the drained registrations.\<close>

fun commit_loop ::
  "('st, 'tc) s_type_lib \<Rightarrow> ('tc type_tuple \<times> ('st, 'w) route \<times> string) list
     \<Rightarrow> ('tc type_tuple, ('st, 'w) route) hash_map \<Rightarrow> (string, u64) hash_map
     \<Rightarrow> ('tc type_tuple, ('st, 'w) route) hash_map \<times> (string, u64) hash_map" where
  "commit_loop L [] rs ns = (rs, ns)"
| "commit_loop L ((types, h, name) # rest) rs ns =
     commit_loop L rest (hm_insert (tuple_same L) rs types h)
       (hm_insert (=) ns name (handler_id types))"

definition commit_routes ::
  "('st, 'tc) s_type_lib \<Rightarrow> ('st, 'tc, 'w) tf_server_router \<Rightarrow> ('st, 'tc, 'w) tf_server_router" where
  "commit_routes L r =
     (if routes_commited r \<or> routes_to_add r = [] then r
      else
        let (rs, ns) = commit_loop L (routes_to_add r) [] []
        in r\<lparr>routes_to_add := [], routes := rs, routes_text_names := ns, routes_commited := True\<rparr>)"

definition get_routes ::
  "('st, 'tc, 'w) tf_server_router \<Rightarrow> ('tc type_tuple, ('st, 'w) route) hash_map" where
  "get_routes r = routes r"

definition handler_died :: bytes where
  "handler_died = as_bytes ''handler died :(''"

type_synonym served = "(bytes, server_error) result \<times> sender option"

definition serve_packet ::
  "('st, 'tc) s_type_lib \<Rightarrow> ('st, 'tc, 'w) tf_server_router \<Rightarrow> bytes \<Rightarrow> bytes
     \<Rightarrow> socket_addr \<times> sender option \<Rightarrow> ('w, served) future" where
  "serve_packet L r meta payload client_meta w =
     (case client_meta of (addr, route_tx) \<Rightarrow>
      (case access_PacketMeta L meta of
         Ok meta_pack \<Rightarrow>
           (let s_type = get_deserialize_function L (user_s_type r) (s_type_req meta_pack);
                key = \<lparr>s_types = {type_container L (clone_unique L s_type)},
                       handler_id = pm_handler_id meta_pack\<rparr>
            in (case hm_get (tuple_same L) (routes r) key of
                  None \<Rightarrow> (Returned (Err (ServerError (NoSuchHandler None)), route_tx), w)
                | Some handler \<Rightarrow>
                    (case serve handler (state handler) addr route_tx s_type payload w of
                       (Panicked, w1) \<Rightarrow> (Panicked, w1)
                     | (Returned fut, w1) \<Rightarrow>
                         (case fut w1 of
                            (Returned (Ok data, returned_tx), w2) \<Rightarrow>
                              (Returned (Ok data, returned_tx), w2)
                          | (Returned (Err err, returned_tx), w2) \<Rightarrow>
                              (Returned (Err (ServerError (InternalError (Some err))), returned_tx), w2)
                          | (Panicked, w2) \<Rightarrow>
                              (Returned (Err (ServerError (InternalError (Some handler_died))), None), w2)))))
       | Err _ \<Rightarrow>
           (case access_HandlerMetaReq L meta of
              Ok meta_req \<Rightarrow>
                (case hm_get (=) (routes_text_names r) (handler_name meta_req) of
                   Some route_id \<Rightarrow>
                     (case to_bytes_HandlerMetaAns L
                             \<lparr>hma_s_type = ST_HandlerMetaAns, hma_id = route_id\<rparr> of
                        None \<Rightarrow> (Panicked, w)
                      | Some b \<Rightarrow> (Returned (Ok b, route_tx), w))
                 | None \<Rightarrow> (Returned (Err (ServerError (NoSuchHandler None)), route_tx), w))
            | Err _ \<Rightarrow> (Returned (Err (ServerError (MalformedMetaInfo None)), route_tx), w))))"

section \<open>Registration: what the tables hold\<close>

lemma drain_types_eq: "drain_types L s_tys acc = type_container L ` set s_tys \<union> acc"
proof (induction s_tys arbitrary: acc rule: rev_induct)
  case Nil
  show ?case by (simp add: drain_types.simps)
next
  case (snoc t s_tys)
  have "drain_types L (s_tys @ [t]) acc = drain_types L s_tys (insert (type_container L t) acc)"
    by (subst drain_types.simps) simp
  then show ?case by (simp add: snoc)
qed

text \<open>
  The abstract view of a router under construction: the registrations in the order of the
  \<^verbatim>\<open>add_route\<close> calls.
\<close>

type_synonym ('st, 'w) registration = "('st, 'w) route \<times> string \<times> 'st list"

fun register_all ::
  "('st, 'tc) s_type_lib \<Rightarrow> ('st, 'w) registration list
     \<Rightarrow> ('st, 'tc, 'w) tf_server_router \<Rightarrow> ('st, 'tc, 'w) tf_server_router" where
  "register_all L [] r = r"
| "register_all L ((rt, name, s_tys) # regs) r = register_all L regs (add_route L rt name s_tys r)"

definition tuple_at :: "('st, 'tc) s_type_lib \<Rightarrow> nat \<Rightarrow> 'st list \<Rightarrow> 'tc type_tuple" where
  "tuple_at L i s_tys = \<lparr>s_types = type_container L ` set s_tys, handler_id = of_nat i\<rparr>"

definition entry_at ::
  "('st, 'tc) s_type_lib \<Rightarrow> nat \<Rightarrow> ('st, 'w) registration
     \<Rightarrow> 'tc type_tuple \<times> ('st, 'w) route \<times> string" where
  "entry_at L i reg = (case reg of (rt, name, s_tys) \<Rightarrow> (tuple_at L i s_tys, rt, name))"

definition entries ::
  "('st, 'tc) s_type_lib \<Rightarrow> nat \<Rightarrow> ('st, 'w) registration list
     \<Rightarrow> ('tc type_tuple \<times> ('st, 'w) route \<times> string) list" where
  "entries L n regs = map (\<lambda>(i, reg). entry_at L i reg) (List.enumerate n regs)"

lemma entries_Nil [simp]: "entries L n [] = []"
  by (simp add: entries_def)

lemma entries_Cons [simp]:
  "entries L n (reg # regs) = entry_at L n reg # entries L (Suc n) regs"
  by (simp add: entries_def)

lemma entries_snoc: "entries L n (regs @ [reg]) = entries L n regs @ [entry_at L (n + length regs) reg]"
  by (simp add: entries_def enumerate_append_eq)

lemma length_entries [simp]: "length (entries L n regs) = length regs"
  by (simp add: entries_def)

lemma nth_entries [simp]: "i < length regs \<Longrightarrow> entries L n regs ! i = entry_at L (n + i) (regs ! i)"
  by (simp add: entries_def nth_enumerate_eq)

lemma register_all_pending:
  assumes "\<not> routes_commited r" and "router_incremental r = of_nat n"
  shows "register_all L regs r =
     r\<lparr>routes_to_add := routes_to_add r @ entries L n regs,
       router_incremental := of_nat (n + length regs)\<rparr>"
  using assms
proof (induction regs arbitrary: r n)
  case Nil
  then show ?case by simp
next
  case (Cons reg regs)
  obtain rt name s_tys where reg: "reg = (rt, name, s_tys)" by (cases reg)
  let ?r = "add_route L rt name s_tys r"
  have r': "?r = r\<lparr>routes_to_add := routes_to_add r @ [entry_at L n reg],
                 router_incremental := of_nat (Suc n)\<rparr>"
    using Cons.prems
    by (simp add: add_route_def drain_types_eq entry_at_def tuple_at_def reg Let_def add.commute)
  have "\<not> routes_commited ?r" "router_incremental ?r = of_nat (Suc n)"
    using Cons.prems by (simp_all add: r')
  then have "register_all L regs ?r = ?r\<lparr>routes_to_add := routes_to_add ?r @ entries L (Suc n) regs,
       router_incremental := of_nat (Suc n + length regs)\<rparr>"
    by (rule Cons.IH)
  then show ?case
    by (simp add: reg r')
qed

lemma commit_loop_eq:
  "commit_loop L es rs ns =
     (fold (\<lambda>(k, v) m. hm_insert (tuple_same L) m k v) (map (\<lambda>(k, h, name). (k, h)) es) rs,
      fold (\<lambda>(k, v) m. hm_insert (=) m k v) (map (\<lambda>(k, h, name). (name, handler_id k)) es) ns)"
  by (induction L es rs ns rule: commit_loop.induct) auto

section \<open>Abstract specification\<close>

text \<open>
  A built router is specified by its registrations alone: handler \<open>i\<close> is the
  \<open>i\<close>-th registration and accepts its own structure types; a name stands for the
  latest registration that carries it.
\<close>

definition build_router ::
  "('st, 'tc) s_type_lib \<Rightarrow> 'st \<Rightarrow> ('st, 'w) registration list \<Rightarrow> ('st, 'tc, 'w) tf_server_router" where
  "build_router L u regs = commit_routes L (register_all L regs (router_new u))"

definition spec_route ::
  "('st, 'tc) s_type_lib \<Rightarrow> ('st, 'w) registration list \<Rightarrow> u64 \<Rightarrow> 'tc \<Rightarrow> ('st, 'w) route option" where
  "spec_route L regs i t =
     (if unat i < length regs
      then (case regs ! unat i of (rt, name, s_tys) \<Rightarrow>
              if t \<in> type_container L ` set s_tys then Some rt else None)
      else None)"

fun spec_name :: "nat \<Rightarrow> ('st, 'w) registration list \<Rightarrow> string \<Rightarrow> u64 option" where
  "spec_name n [] nm = None"
| "spec_name n ((rt, name, s_tys) # regs) nm =
     (case spec_name (Suc n) regs nm of
        Some i \<Rightarrow> Some i
      | None \<Rightarrow> if name = nm then Some (of_nat n) else None)"

lemma register_new:
  "register_all L regs (router_new u) =
     (router_new u)\<lparr>routes_to_add := entries L 0 regs, router_incremental := of_nat (length regs)\<rparr>"
  by (subst register_all_pending[where n = 0]) simp_all

lemma build_router_fields:
  "routes (build_router L u regs) =
     fold (\<lambda>(k, v) m. hm_insert (tuple_same L) m k v) (map (\<lambda>(k, h, name). (k, h)) (entries L 0 regs)) []"
  "routes_text_names (build_router L u regs) =
     fold (\<lambda>(k, v) m. hm_insert (=) m k v)
       (map (\<lambda>(k, h, name). (name, handler_id k)) (entries L 0 regs)) []"
  "user_s_type (build_router L u regs) = u"
  by (cases regs; simp add: build_router_def commit_routes_def register_new commit_loop_eq)+

lemma entries_tags:
  "map (handler_id \<circ> fst) (map (\<lambda>(k, h, name). (k, h)) (entries L n regs)) =
     map of_nat [n..<n + length regs]"
  by (rule nth_equalityI) (auto simp: entry_at_def tuple_at_def split: prod.splits)

lemma distinct_of_nat_u64:
  assumes "n \<le> 2 ^ 64"
  shows "distinct (map (of_nat :: nat \<Rightarrow> u64) [0..<n])"
  unfolding distinct_map using assms by (auto simp: inj_on_def of_nat_u64_inj)

lemma build_router_routes:
  assumes "key_ids L" and "length regs \<le> 2 ^ 64"
  shows "routes (build_router L u regs) = map (\<lambda>(k, h, name). (k, h)) (entries L 0 regs)"
    (is "_ = ?es")
proof -
  have "distinct (map (handler_id \<circ> fst) ([] @ ?es))"
    using distinct_of_nat_u64[OF assms(2)] entries_tags[of L 0 regs] by simp
  then have "fold (\<lambda>(k, v) m. hm_insert (tuple_same L) m k v) ?es [] = [] @ ?es"
    by (rule fold_hm_insert_fresh[rotated]) (use assms(1) in \<open>auto dest: key_idsD\<close>)
  then show ?thesis
    by (simp only: build_router_fields append_Nil)
qed

lemma route_entry_mem:
  assumes "i < length regs" and "regs ! i = (rt, name, s_tys)"
  shows "(tuple_at L i s_tys, rt) \<in> set (map (\<lambda>(k, h, name). (k, h)) (entries L 0 regs))"
proof -
  have "map (\<lambda>(k, h, name). (k, h)) (entries L 0 regs) ! i = (tuple_at L i s_tys, rt)"
    using assms by (simp add: entry_at_def)
  then show ?thesis
    using assms(1) by (metis length_entries length_map nth_mem)
qed

lemma route_entry_cases:
  assumes "k \<in> fst ` set (map (\<lambda>(k, h, name). (k, h)) (entries L 0 regs))"
  obtains i rt name s_tys where "i < length regs" "regs ! i = (rt, name, s_tys)" "k = tuple_at L i s_tys"
proof -
  obtain i where "i < length regs" and "k = fst (entry_at L i (regs ! i))"
    using assms by (auto simp: in_set_conv_nth)
  then show thesis
    using that by (cases "regs ! i") (auto simp: entry_at_def)
qed

text \<open>The route table answers a probe exactly as the specification does.\<close>

lemma lookup_build_router:
  assumes "key_laws L" and "length regs \<le> 2 ^ 64"
  shows "hm_get (tuple_same L) (routes (build_router L u regs)) \<lparr>s_types = {t}, handler_id = i\<rparr> =
     spec_route L regs i t"
    (is "hm_get _ _ ?key = _")
proof -
  let ?es = "map (\<lambda>(k, h, name). (k, h)) (entries L 0 regs)"
  note ids = key_lawsD(1)[OF assms(1)]
  have table: "routes (build_router L u regs) = ?es"
    by (rule build_router_routes[OF ids assms(2)])
  have tags: "distinct (map (handler_id \<circ> fst) ?es)"
    using distinct_of_nat_u64[OF assms(2)] entries_tags[of L 0 regs] by simp
  show ?thesis
  proof (cases "spec_route L regs i t")
    case (Some rt)
    then obtain name s_tys where i: "unat i < length regs" "regs ! unat i = (rt, name, s_tys)"
      and t: "t \<in> type_container L ` set s_tys"
      by (auto simp: spec_route_def split: if_splits prod.splits)
    have "tuple_same L ?key (tuple_at L (unat i) s_tys)"
      using key_lawsD(2)[OF assms(1)] t by (simp add: tuple_at_def)
    then have "hm_get (tuple_same L) ?es ?key = Some rt"
      by (rule hm_get_unique[where f = handler_id, rotated])
         (use ids tags route_entry_mem[OF i] in \<open>auto dest: key_idsD simp: comp_def\<close>)
    then show ?thesis by (simp add: table Some)
  next
    case None
    have "\<not> tuple_same L ?key k" if "k \<in> fst ` set ?es" for k
    proof -
      obtain j rt name s_tys where j: "j < length regs" "regs ! j = (rt, name, s_tys)"
        and k: "k = tuple_at L j s_tys"
        using route_entry_cases \<open>k \<in> fst ` set ?es\<close> by metis
      have "unat (of_nat j :: u64) = j"
        using j(1) assms(2) by simp
      then show ?thesis
        using None j key_lawsD(2)[OF assms(1)]
        by (auto simp: k tuple_at_def spec_route_def split: if_splits)
    qed
    then have "hm_get (tuple_same L) ?es ?key = None"
      by (intro hm_get_None ballI)
    then show ?thesis by (simp add: table None)
  qed
qed

lemma names_build_router:
  "hm_get (=) (routes_text_names (build_router L u regs)) nm = spec_name 0 regs nm"
proof -
  have "map_of (rev (map (\<lambda>(k, h, name). (name, handler_id k)) (entries L n regs))) nm =
      spec_name n regs nm" for n
    by (induction n regs nm rule: spec_name.induct)
       (auto simp: entry_at_def tuple_at_def map_add_def split: option.splits)
  then show ?thesis
    by (simp only: build_router_fields std_map.get_fold_ins_empty)
qed

lemma spec_name_None: "spec_name n regs nm = None \<longleftrightarrow> nm \<notin> (\<lambda>reg. fst (snd reg)) ` set regs"
  by (induction n regs nm rule: spec_name.induct) (auto split: option.splits)

end
