(* ===== verification/Sample_Lib.thy ===== *)
theory Sample_Lib
  imports Handler
begin

text \<open>
  A concrete instance of the external \<open>s_type\<close> interface that satisfies every law
  of \<open>Externals\<close>.  It is not a model of \<^verbatim>\<open>the_fourth_utils\<close>: it only shows
  that the hypotheses of the theorems can hold together, and it is what the theorems are
  applied to in their examples.  Structure types are the discriminants themselves; a
  message is a tag byte and its fields, integers one byte per bit.
\<close>

definition bits64 :: "u64 \<Rightarrow> bytes" where
  "bits64 x = map (\<lambda>i. of_bool (bit x i)) [0..<64]"

definition unbits :: "bytes \<Rightarrow> u64" where
  "unbits bs = horner_sum of_bool 2 (map (\<lambda>b. b = 1) bs)"

lemma length_bits64 [simp]: "length (bits64 x) = 64"
  by (simp add: bits64_def)

lemma unbits_bits64 [simp]: "unbits (bits64 x) = x"
proof -
  have "map (\<lambda>b. b = (1::u8)) (bits64 x) = map (bit x) [0..<64]"
    by (simp add: bits64_def)
  then show ?thesis
    by (simp add: unbits_def horner_sum_bit_eq_take_bit take_bit_word_eq_self)
qed

definition from_bytes :: "bytes \<Rightarrow> string" where
  "from_bytes bs = map (\<lambda>b. char_of (unat b)) bs"

lemma from_as_bytes [simp]: "from_bytes (as_bytes s) = s"
proof -
  have "char_of (unat (of_char c :: u8)) = c" for c
  proof -
    have "unat (of_nat (of_char c) :: u8) = of_char c"
      by (simp add: unat_of_nat)
    then show ?thesis by (simp add: of_nat_of_char)
  qed
  then show ?thesis
    by (simp add: from_bytes_def as_bytes_def comp_def)
qed

fun sample_packet :: "bytes \<Rightarrow> (packet_meta, string) result" where
  "sample_packet (t # p # rest) =
     (if t = 1 \<and> length rest = 128
      then Ok \<lparr>pm_s_type = ST_PacketMeta, s_type_req = unbits (take 64 rest),
               pm_handler_id = unbits (drop 64 rest), has_payload = (p = 1)\<rparr>
      else Err ''not a PacketMeta'')"
| "sample_packet _ = Err ''too short''"

fun sample_req :: "bytes \<Rightarrow> (handler_meta_req, string) result" where
  "sample_req (t # rest) =
     (if t = 2 then Ok \<lparr>hmr_s_type = ST_HandlerMetaReq, handler_name = from_bytes rest\<rparr>
      else Err ''not a HandlerMetaReq'')"
| "sample_req [] = Err ''too short''"

fun sample_ans :: "bytes \<Rightarrow> (handler_meta_ans, string) result" where
  "sample_ans (t # rest) =
     (if t = 3 then Ok \<lparr>hma_s_type = ST_HandlerMetaAns, hma_id = unbits rest\<rparr>
      else Err ''not a HandlerMetaAns'')"
| "sample_ans [] = Err ''too short''"

fun sample_error :: "server_error \<Rightarrow> bytes" where
  "sample_error (ServerError (NoSuchHandler d)) = 4 # (case d of None \<Rightarrow> [] | Some b \<Rightarrow> 1 # b)"
| "sample_error (ServerError (InternalError d)) = 5 # (case d of None \<Rightarrow> [] | Some b \<Rightarrow> 1 # b)"
| "sample_error (ServerError (MalformedMetaInfo d)) = 6 # (case d of None \<Rightarrow> [] | Some b \<Rightarrow> 1 # b)"

definition sample_lib :: "(u64, u64) s_type_lib" where
  "sample_lib =
     \<lparr>access_PacketMeta = sample_packet,
      access_HandlerMetaReq = sample_req,
      access_HandlerMetaAns = sample_ans,
      to_bytes_PacketMeta = (\<lambda>m. if pm_s_type m = ST_PacketMeta
         then Some (1 # of_bool (has_payload m) # bits64 (s_type_req m) @ bits64 (pm_handler_id m))
         else None),
      to_bytes_HandlerMetaReq = (\<lambda>q. if hmr_s_type q = ST_HandlerMetaReq
         then Some (2 # as_bytes (handler_name q)) else None),
      to_bytes_HandlerMetaAns = (\<lambda>a. if hma_s_type a = ST_HandlerMetaAns
         then Some (3 # bits64 (hma_id a)) else None),
      to_bytes_ServerError = (\<lambda>e. Some (sample_error e)),
      get_deserialize_function = (\<lambda>_ n. n),
      get_serialize_function = (\<lambda>_ t. t),
      clone_unique = id,
      type_container = id,
      tuple_same = (\<lambda>a b. handler_id a = handler_id b \<and> s_types a \<inter> s_types b \<noteq> {})\<rparr>"

lemma sample_lib_simps [simp]:
  "access_PacketMeta sample_lib = sample_packet"
  "access_HandlerMetaReq sample_lib = sample_req"
  "access_HandlerMetaAns sample_lib = sample_ans"
  "to_bytes_ServerError sample_lib e = Some (sample_error e)"
  "get_deserialize_function sample_lib u n = n"
  "get_serialize_function sample_lib u t = t"
  "clone_unique sample_lib t = t"
  "type_container sample_lib t = t"
  "tuple_same sample_lib a b \<longleftrightarrow> handler_id a = handler_id b \<and> s_types a \<inter> s_types b \<noteq> {}"
  "to_bytes_PacketMeta sample_lib \<lparr>pm_s_type = ST_PacketMeta, s_type_req = n, pm_handler_id = i,
     has_payload = p\<rparr> = Some (1 # of_bool p # bits64 n @ bits64 i)"
  "to_bytes_HandlerMetaReq sample_lib \<lparr>hmr_s_type = ST_HandlerMetaReq, handler_name = nm\<rparr> =
     Some (2 # as_bytes nm)"
  "to_bytes_HandlerMetaAns sample_lib \<lparr>hma_s_type = ST_HandlerMetaAns, hma_id = i\<rparr> =
     Some (3 # bits64 i)"
  by (simp_all add: sample_lib_def)

lemma sample_ans_error [simp]: "sample_ans (sample_error e) = Err ''not a HandlerMetaAns''"
  by (cases e rule: sample_error.cases) auto

lemma sample_packet_bytes [simp]:
  "sample_packet (1 # of_bool p # bits64 n @ bits64 i) =
     Ok \<lparr>pm_s_type = ST_PacketMeta, s_type_req = n, pm_handler_id = i, has_payload = p\<rparr>"
  by simp

lemma sample_packet_req [simp]: "sample_packet (2 # b) = Err (if b = [] then ''too short'' else ''not a PacketMeta'')"
  by (cases b) auto

lemma sample_wire_laws: "wire_laws sample_lib"
  unfolding wire_laws_def by (auto simp: sample_lib_def)

lemma sample_key_laws: "key_laws sample_lib"
  unfolding key_laws_def key_ids_def by auto

lemma sample_user_type_laws: "user_type_laws sample_lib"
  unfolding user_type_laws_def by auto

text \<open>A handler that returns its payload and the sender, as the benchmark's echo handler does.\<close>

definition sample_echo :: "(u64, 'w) route" where
  "sample_echo = \<lparr>state = 0, serve = boxed (\<lambda>st addr tx t data w. (Returned (Ok data, tx), w))\<rparr>"

lemma sample_echo_simps [simp]:
  "state sample_echo = 0"
  "serve sample_echo st addr tx t data w = (Returned (\<lambda>w. (Returned (Ok data, tx), w)), w)"
  by (simp_all add: sample_echo_def boxed_def)

section \<open>A sample world\<close>

text \<open>
  A stream with a queue of frames to deliver and a list of frames written, processors that
  change nothing, and a channel on which no hand-off is ever requested.
\<close>

record qworld =
  q_in :: "bytes list"
  q_out :: "bytes list"
  q_closed :: bool

definition queue_io :: "'a qworld_scheme conn_io" where
  "queue_io =
     \<lparr>framed_next = (\<lambda>f w. case q_in w of
          [] \<Rightarrow> (None, w) | x # xs \<Rightarrow> (Some (Ok x), w\<lparr>q_in := xs\<rparr>)),
      framed_send = (\<lambda>f b w. (Ok (), w\<lparr>q_out := q_out w @ [b]\<rparr>)),
      framed_close = (\<lambda>f w. (Ok (), w\<lparr>q_closed := True\<rparr>)),
      framed_new = (\<lambda>t cd w. (t, w)),
      pre_process_traffic = (\<lambda>p b w. (b, w)),
      post_process_traffic = (\<lambda>p b w. (b, w)),
      processor_new = (\<lambda>w. (0, w)),
      processor_clone = (\<lambda>p w. (p, w))\<rparr>"

lemma queue_io_simps [simp]:
  "framed_next queue_io f w = (case q_in w of
     [] \<Rightarrow> (None, w) | x # xs \<Rightarrow> (Some (Ok x), w\<lparr>q_in := xs\<rparr>))"
  "framed_send queue_io f b w = (Ok (), w\<lparr>q_out := q_out w @ [b]\<rparr>)"
  "framed_close queue_io f w = (Ok (), w\<lparr>q_closed := True\<rparr>)"
  "framed_new queue_io t cd w = (t, w)"
  "pre_process_traffic queue_io p b w = (b, w)"
  "post_process_traffic queue_io p b w = (b, w)"
  "processor_new queue_io w = (0, w)"
  "processor_clone queue_io p w = (p, w)"
  by (simp_all add: queue_io_def)

lemma queue_fifo: "fifo_stream queue_io stream processor q_in q_out (\<lambda>b. b) (\<lambda>b. b)"
  by (auto simp: fifo_stream_def untouched_def)

definition quiet_handoff :: "'w handoff_io" where
  "quiet_handoff =
     \<lparr>oneshot_channel = (\<lambda>w. ((1, 1), w)),
      oneshot_try_recv = (\<lambda>rx w. (None, w)),
      accept_call = (\<lambda>f st addr s w. (Returned (\<lambda>w. (Returned (), w)), w))\<rparr>"

lemma quiet_handoff_simps [simp]:
  "oneshot_channel quiet_handoff w = ((1, 1), w)"
  "oneshot_try_recv quiet_handoff rx w = (None, w)"
  "accept_call quiet_handoff f st addr s w = (Returned (\<lambda>w. (Returned (), w)), w)"
  by (simp_all add: quiet_handoff_def)

end
