(* ===== verification/Router_Dispatch.thy ===== *)
theory Router_Dispatch
  imports Server_Router Sample_Lib
begin

text \<open>
  What \<^verbatim>\<open>TfServerRouter\<close> promises.  Every router the registration API can produce
  is described by a list of registrations; \<open>serve_packet\<close> on it refines an abstract
  dispatch function of that list; a name answered by the router leads to the handler that
  carries the name.  The locale \<open>packet_service\<close> is the part of the promise the
  connection loop of the server rests on.
\<close>

section \<open>Abstract dispatch\<close>

datatype ('st, 'w) dispatch =
    Call "('st, 'w) route" 'st
  | Answer u64
  | NoRoute
  | Malformed

definition dispatch_of ::
  "('st, 'tc) s_type_lib \<Rightarrow> 'st \<Rightarrow> ('st, 'w) registration list \<Rightarrow> bytes \<Rightarrow> ('st, 'w) dispatch" where
  "dispatch_of L u regs meta =
     (case access_PacketMeta L meta of
        Ok m \<Rightarrow>
          (let t = get_deserialize_function L u (s_type_req m)
           in (case spec_route L regs (pm_handler_id m) (type_container L (clone_unique L t)) of
                 Some rt \<Rightarrow> Call rt t
               | None \<Rightarrow> NoRoute))
      | Err _ \<Rightarrow>
          (case access_HandlerMetaReq L meta of
             Ok q \<Rightarrow> (case spec_name 0 regs (handler_name q) of Some i \<Rightarrow> Answer i | None \<Rightarrow> NoRoute)
           | Err _ \<Rightarrow> Malformed))"

text \<open>What a handler contributes: its value, or the fixed report of its death.\<close>

definition handler_value :: "serve_value run \<Rightarrow> served" where
  "handler_value v =
     (case v of
        Returned (Ok data, tx) \<Rightarrow> (Ok data, tx)
      | Returned (Err err, tx) \<Rightarrow> (Err (ServerError (InternalError (Some err))), tx)
      | Panicked \<Rightarrow> (Err (ServerError (InternalError (Some handler_died))), None))"

definition run_handler ::
  "('st, 'w) route \<Rightarrow> socket_addr \<Rightarrow> sender option \<Rightarrow> 'st \<Rightarrow> bytes \<Rightarrow> ('w, served) future" where
  "run_handler rt addr tx t payload w =
     (case serve rt (state rt) addr tx t payload w of
        (Panicked, w1) \<Rightarrow> (Panicked, w1)
      | (Returned fut, w1) \<Rightarrow> (case fut w1 of (v, w2) \<Rightarrow> (Returned (handler_value v), w2)))"

definition serve_spec ::
  "('st, 'tc) s_type_lib \<Rightarrow> 'st \<Rightarrow> ('st, 'w) registration list \<Rightarrow> bytes \<Rightarrow> bytes
     \<Rightarrow> socket_addr \<times> sender option \<Rightarrow> ('w, served) future" where
  "serve_spec L u regs meta payload cm w =
     (case dispatch_of L u regs meta of
        Call rt t \<Rightarrow> run_handler rt (fst cm) (snd cm) t payload w
      | Answer i \<Rightarrow>
          (case to_bytes_HandlerMetaAns L \<lparr>hma_s_type = ST_HandlerMetaAns, hma_id = i\<rparr> of
             None \<Rightarrow> (Panicked, w)
           | Some b \<Rightarrow> (Returned (Ok b, snd cm), w))
      | NoRoute \<Rightarrow> (Returned (Err (ServerError (NoSuchHandler None)), snd cm), w)
      | Malformed \<Rightarrow> (Returned (Err (ServerError (MalformedMetaInfo None)), snd cm), w))"

lemma serve_packet_eq_spec:
  assumes "key_laws L" and "length regs \<le> 2 ^ 64"
  shows "serve_packet L (build_router L u regs) meta payload cm w = serve_spec L u regs meta payload cm w"
proof (cases "access_PacketMeta L meta")
  case (Ok m)
  then show ?thesis
    by (simp add: serve_packet_def serve_spec_def dispatch_of_def run_handler_def handler_value_def
          lookup_build_router[OF assms] build_router_fields(3) Let_def split: outcome_splits)
next
  case (Err e)
  then show ?thesis
    by (simp add: serve_packet_def serve_spec_def dispatch_of_def names_build_router
          split: outcome_splits)
qed

lemma serve_packet_Call:
  assumes "key_laws L" and "length regs \<le> 2 ^ 64" and "dispatch_of L u regs meta = Call rt t"
  shows "serve_packet L (build_router L u regs) meta payload (addr, tx) w = run_handler rt addr tx t payload w"
  by (simp add: serve_packet_eq_spec[OF assms(1,2)] serve_spec_def assms(3))

lemma dispatch_of_Call: "dispatch_of L u regs meta = Call rt t \<Longrightarrow> rt \<in> fst ` set regs"
  by (auto simp: dispatch_of_def spec_route_def Let_def image_iff split: outcome_splits)
     (metis fst_conv nth_mem)

text \<open>
  C2. On a router built from a list of registrations, \<^verbatim>\<open>serve_packet\<close> behaves as the
  abstract dispatch prescribes, for every packet, payload, sender and world: the handler
  of the addressed registration runs with its own state and the payload, a name is
  answered with the id of its latest registration, and everything else is refused with the
  right error.
\<close>

theorem serve_packet_refines_spec:
  assumes "key_laws L" and "length regs \<le> 2 ^ 64"
  shows "serve_packet L (build_router L u regs) meta payload cm w = serve_spec L u regs meta payload cm w"
  by (rule serve_packet_eq_spec[OF assms])

section \<open>Every router of the API\<close>

text \<open>One call of the registration API on a router.\<close>

inductive router_step ::
  "('st, 'tc) s_type_lib \<Rightarrow> ('st, 'tc, 'w) tf_server_router \<Rightarrow> ('st, 'tc, 'w) tf_server_router \<Rightarrow> bool"
  for L where
  step_add: "router_step L r (add_route L rt name s_tys r)"
| step_commit: "router_step L r (commit_routes L r)"

inductive_cases router_stepE: "router_step L r r'"

abbreviation router_steps where
  "router_steps L \<equiv> (router_step L)\<^sup>*\<^sup>*"

lemma register_all_snoc:
  "register_all L (regs @ [(rt, name, s_tys)]) r = add_route L rt name s_tys (register_all L regs r)"
  by (induction L regs r rule: register_all.induct) auto

lemma register_all_uncommitted: "\<not> routes_commited (register_all L regs (router_new u))"
  by (simp add: register_new)

lemma build_router_committed: "regs \<noteq> [] \<Longrightarrow> routes_commited (build_router L u regs)"
  by (cases regs) (simp_all add: build_router_def commit_routes_def register_new commit_loop_eq)

lemma build_router_Nil: "build_router L u [] = register_all L [] (router_new u)"
  by (simp add: build_router_def commit_routes_def)

lemma committed_step: "router_step L r r' \<Longrightarrow> routes_commited r \<Longrightarrow> r' = r"
  by (auto elim!: router_stepE simp: add_route_def commit_routes_def)

definition router_shape ::
  "('st, 'tc) s_type_lib \<Rightarrow> 'st \<Rightarrow> ('st, 'tc, 'w) tf_server_router \<Rightarrow> bool" where
  "router_shape L u r \<longleftrightarrow>
     (\<exists>regs. r = register_all L regs (router_new u) \<or> regs \<noteq> [] \<and> r = build_router L u regs)"

lemma router_shape_pending: "router_shape L u (register_all L regs (router_new u))"
  unfolding router_shape_def by (rule exI[of _ regs]) simp

lemma router_shape_built: "router_shape L u (build_router L u regs)"
proof (cases "regs = []")
  case True
  then show ?thesis
    using build_router_Nil router_shape_pending by metis
next
  case False
  then show ?thesis
    unfolding router_shape_def by (intro exI[of _ regs]) simp
qed

lemma router_step_shape:
  assumes "router_step L r r'" and "router_shape L u r"
  shows "router_shape L u r'"
proof (cases "routes_commited r")
  case True
  then show ?thesis using assms committed_step by metis
next
  case False
  then obtain regs where r: "r = register_all L regs (router_new u)"
    using assms(2) build_router_committed by (fastforce simp: router_shape_def)
  show ?thesis
    using assms(1)
  proof (cases rule: router_step.cases)
    case (step_add rt name s_tys)
    then have "r' = register_all L (regs @ [(rt, name, s_tys)]) (router_new u)"
      by (simp add: register_all_snoc r)
    then show ?thesis using router_shape_pending by metis
  next
    case step_commit
    then have "r' = build_router L u regs"
      by (simp add: build_router_def r)
    then show ?thesis using router_shape_built by metis
  qed
qed

text \<open>
  C23. Whatever sequence of \<^verbatim>\<open>add_route\<close> and \<^verbatim>\<open>commit_routes\<close> calls is made on
  a new router, the result is either still open and holds exactly some list of
  registrations as pending, or is the router built from a nonempty list of registrations;
  no interleaving of the two operations produces anything else.
\<close>

theorem router_api_shape:
  assumes "router_steps L (router_new u) r"
  shows "\<exists>regs. r = register_all L regs (router_new u) \<or> regs \<noteq> [] \<and> r = build_router L u regs"
proof -
  have "router_shape L u (router_new u)"
    using router_shape_pending[of L u "[]"] by simp
  with assms have "router_shape L u r"
    by (induction rule: rtranclp_induct) (auto intro: router_step_shape)
  then show ?thesis by (simp add: router_shape_def)
qed

text \<open>
  Commit is final: no sequence of registration calls changes a committed router, so
  the tables a server shares with its connections are constant.
\<close>

theorem commit_is_final:
  assumes "router_steps L r r'" and "routes_commited r"
  shows "r' = r"
  using assms by (induction rule: rtranclp_induct) (auto dest: committed_step)

section \<open>The contract of the connection loop\<close>

text \<open>
  A packet service takes a packet and the hand-off sender.  The loop relies on two things:
  a packet that is not dispatched to a handler neither touches the world nor loses the
  sender, and it is answered unless the answer cannot be serialized.
\<close>

locale packet_service =
  fixes sp :: "bytes \<Rightarrow> bytes \<Rightarrow> socket_addr \<times> sender option \<Rightarrow> ('w, served) future"
    and handled :: "bytes \<Rightarrow> bool"
    and reply :: "bytes \<Rightarrow> (bytes, server_error) result run"
  assumes unhandled: "\<not> handled meta \<Longrightarrow>
      sp meta payload (addr, tx) w =
        (case reply meta of Returned res \<Rightarrow> (Returned (res, tx), w) | Panicked \<Rightarrow> (Panicked, w))"
begin

lemma unhandled_keeps_sender:
  "\<not> handled meta \<Longrightarrow> sp meta payload (addr, tx) w = (Returned (res, tx'), w') \<Longrightarrow> tx' = tx \<and> w' = w"
  by (auto simp: unhandled split: run.splits)

lemma unhandled_ignores_payload:
  "\<not> handled meta \<Longrightarrow> sp meta payload (addr, tx) w = sp meta payload' (addr, tx) w"
  by (simp add: unhandled)

end

definition routed ::
  "('st, 'tc) s_type_lib \<Rightarrow> ('st, 'tc, 'w) tf_server_router \<Rightarrow> bytes \<Rightarrow> bool" where
  "routed L r meta \<longleftrightarrow>
     (case access_PacketMeta L meta of
        Ok m \<Rightarrow>
          hm_get (tuple_same L) (routes r)
            \<lparr>s_types = {type_container L (clone_unique L
                         (get_deserialize_function L (user_s_type r) (s_type_req m)))},
             handler_id = pm_handler_id m\<rparr> \<noteq> None
      | Err _ \<Rightarrow> False)"

definition system_reply ::
  "('st, 'tc) s_type_lib \<Rightarrow> ('st, 'tc, 'w) tf_server_router \<Rightarrow> bytes
     \<Rightarrow> (bytes, server_error) result run" where
  "system_reply L r meta =
     (case access_PacketMeta L meta of
        Ok m \<Rightarrow> Returned (Err (ServerError (NoSuchHandler None)))
      | Err _ \<Rightarrow>
          (case access_HandlerMetaReq L meta of
             Ok q \<Rightarrow>
               (case hm_get (=) (routes_text_names r) (handler_name q) of
                  Some i \<Rightarrow>
                    (case to_bytes_HandlerMetaAns L \<lparr>hma_s_type = ST_HandlerMetaAns, hma_id = i\<rparr> of
                       None \<Rightarrow> Panicked
                     | Some b \<Rightarrow> Returned (Ok b))
                | None \<Rightarrow> Returned (Err (ServerError (NoSuchHandler None))))
           | Err _ \<Rightarrow> Returned (Err (ServerError (MalformedMetaInfo None)))))"

interpretation router: packet_service "serve_packet L r" "routed L r" "system_reply L r"
  by unfold_locales
     (simp add: serve_packet_def routed_def system_reply_def Let_def split: outcome_splits)

section \<open>Names lead to their handlers\<close>

lemma spec_name_latest:
  "spec_name n regs nm = Some i \<Longrightarrow>
     \<exists>j < length regs. i = of_nat (n + j) \<and> fst (snd (regs ! j)) = nm \<and>
       (\<forall>k. j < k \<and> k < length regs \<longrightarrow> fst (snd (regs ! k)) \<noteq> nm)"
proof (induction n regs nm arbitrary: i rule: spec_name.induct)
  case (1 n nm)
  then show ?case by simp
next
  case (2 n rt name s_tys regs nm)
  show ?case
  proof (cases "spec_name (Suc n) regs nm")
    case None
    then have "fst (snd (regs ! k)) \<noteq> nm" if "k < length regs" for k
      using that by (auto simp: spec_name_None)
    then have "\<forall>k. 0 < k \<and> k < length ((rt, name, s_tys) # regs) \<longrightarrow>
        fst (snd (((rt, name, s_tys) # regs) ! k)) \<noteq> nm"
      by (auto simp: nth_Cons split: nat.splits)
    then show ?thesis
      using "2.prems" None by (intro exI[of _ 0]) (auto split: if_splits)
  next
    case (Some i')
    then obtain j where "j < length regs" "i' = of_nat (Suc n + j)" "fst (snd (regs ! j)) = nm"
      "\<forall>k. j < k \<and> k < length regs \<longrightarrow> fst (snd (regs ! k)) \<noteq> nm"
      using "2.IH" by blast
    then show ?thesis
      using "2.prems" Some by (intro exI[of _ "Suc j"]) (auto simp: nth_Cons split: nat.splits)
  qed
qed

lemma spec_name_is_latest:
  assumes "j < length regs" and "regs ! j = (rt, nm, s_tys)"
    and "\<forall>k. j < k \<and> k < length regs \<longrightarrow> fst (snd (regs ! k)) \<noteq> nm"
  shows "spec_name 0 regs nm = Some (of_nat j)"
proof -
  have "nm \<in> (\<lambda>reg. fst (snd reg)) ` set regs"
    using assms(1,2) by (force simp: image_iff in_set_conv_nth)
  then obtain i where i: "spec_name 0 regs nm = Some i"
    using spec_name_None[of 0 regs nm] by (cases "spec_name 0 regs nm") auto
  then obtain j' where "j' < length regs" "i = of_nat j'" "fst (snd (regs ! j')) = nm"
      "\<forall>k. j' < k \<and> k < length regs \<longrightarrow> fst (snd (regs ! k)) \<noteq> nm"
    using spec_name_latest[OF i] by auto
  then have "j' = j"
    using assms by (metis fst_conv linorder_neqE_nat snd_conv)
  then show ?thesis using i \<open>i = of_nat j'\<close> by simp
qed

lemma spec_route_own_type:
  assumes "i < length regs" "length regs \<le> 2 ^ 64" "regs ! i = (rt, nm, s_tys)" "t \<in> set s_tys"
  shows "spec_route L regs (of_nat i) (type_container L t) = Some rt"
  using assms by (auto simp: spec_route_def)

lemma name_resolves:
  assumes "wire_laws L" and "key_laws L" and "user_type_laws L" and "length regs \<le> 2 ^ 64"
    and "nm \<in> (\<lambda>reg. fst (snd reg)) ` set regs"
    and "to_bytes_HandlerMetaReq L \<lparr>hmr_s_type = ST_HandlerMetaReq, handler_name = nm\<rparr> = Some req"
  shows "\<exists>j b rt s_tys. j < length regs \<and> regs ! j = (rt, nm, s_tys) \<and>
     (\<forall>k. j < k \<and> k < length regs \<longrightarrow> fst (snd (regs ! k)) \<noteq> nm) \<and>
     serve_packet L (build_router L u regs) req payload (addr, tx) w = (Returned (Ok b, tx), w) \<and>
     access_HandlerMetaAns L b = Ok \<lparr>hma_s_type = ST_HandlerMetaAns, hma_id = of_nat j\<rparr> \<and>
     (\<forall>t \<in> set s_tys. \<forall>m p data addr' tx' w'. access_PacketMeta L m =
          Ok \<lparr>pm_s_type = ST_PacketMeta, s_type_req = get_serialize_function L t t,
              pm_handler_id = of_nat j, has_payload = p\<rparr> \<longrightarrow>
        serve_packet L (build_router L u regs) m data (addr', tx') w' = run_handler rt addr' tx' t data w')"
proof -
  obtain i where i: "spec_name 0 regs nm = Some i"
    using assms(5) spec_name_None[of 0 regs nm] by (cases "spec_name 0 regs nm") auto
  then obtain j where j: "j < length regs" "i = of_nat j" "fst (snd (regs ! j)) = nm"
    and latest: "\<forall>k. j < k \<and> k < length regs \<longrightarrow> fst (snd (regs ! k)) \<noteq> nm"
    using spec_name_latest[OF i] by auto
  obtain rt s_tys where reg: "regs ! j = (rt, nm, s_tys)"
    using j(3) by (cases "regs ! j") auto
  obtain e where req: "access_HandlerMetaReq L req = Ok \<lparr>hmr_s_type = ST_HandlerMetaReq, handler_name = nm\<rparr>"
      "access_PacketMeta L req = Err e"
    using wire_HandlerMetaReqE[OF assms(1)] assms(6)
    by (metis handler_meta_req.select_convs(1) option.inject)
  obtain b where b: "to_bytes_HandlerMetaAns L \<lparr>hma_s_type = ST_HandlerMetaAns, hma_id = i\<rparr> = Some b"
      "access_HandlerMetaAns L b = Ok \<lparr>hma_s_type = ST_HandlerMetaAns, hma_id = i\<rparr>"
    using wire_HandlerMetaAnsE[OF assms(1)] by (metis handler_meta_ans.select_convs(1))
  have "serve_packet L (build_router L u regs) req payload (addr, tx) w = (Returned (Ok b, tx), w)"
    by (simp add: serve_packet_def req names_build_router i b)
  moreover have "serve_packet L (build_router L u regs) m data (addr', tx') w' = run_handler rt addr' tx' t data w'"
    if "t \<in> set s_tys" and "access_PacketMeta L m =
          Ok \<lparr>pm_s_type = ST_PacketMeta, s_type_req = get_serialize_function L t t,
              pm_handler_id = of_nat j, has_payload = p\<rparr>" for t m p data addr' tx' w'
    using that assms(3) spec_route_own_type[OF j(1) assms(4) reg that(1), of L]
    by (intro serve_packet_Call[OF assms(2,4)]) (simp add: dispatch_of_def user_type_laws_def)
  ultimately show ?thesis
    using j reg latest b(2) by blast
qed

text \<open>
  C22. Name resolution: the answer to a \<^verbatim>\<open>HandlerMetaReq\<close> for a registered name
  decodes to the id of the latest registration with that name, the sender and the world
  are untouched, and a packet with that id and one of the registration's structure types
  is served by running that registration's handler on the packet's payload.
\<close>

theorem name_resolves_to_handler:
  assumes "wire_laws L" and "key_laws L" and "user_type_laws L" and "length regs \<le> 2 ^ 64"
    and "nm \<in> (\<lambda>reg. fst (snd reg)) ` set regs"
    and "to_bytes_HandlerMetaReq L \<lparr>hmr_s_type = ST_HandlerMetaReq, handler_name = nm\<rparr> = Some req"
  shows "\<exists>j b rt s_tys. j < length regs \<and> regs ! j = (rt, nm, s_tys) \<and>
     (\<forall>k. j < k \<and> k < length regs \<longrightarrow> fst (snd (regs ! k)) \<noteq> nm) \<and>
     serve_packet L (build_router L u regs) req payload (addr, tx) w = (Returned (Ok b, tx), w) \<and>
     access_HandlerMetaAns L b = Ok \<lparr>hma_s_type = ST_HandlerMetaAns, hma_id = of_nat j\<rparr> \<and>
     (\<forall>t \<in> set s_tys. \<forall>m p data addr' tx' w'. access_PacketMeta L m =
          Ok \<lparr>pm_s_type = ST_PacketMeta, s_type_req = get_serialize_function L t t,
              pm_handler_id = of_nat j, has_payload = p\<rparr> \<longrightarrow>
        serve_packet L (build_router L u regs) m data (addr', tx') w' = run_handler rt addr' tx' t data w')"
  by (rule name_resolves[OF assms])

section \<open>Examples\<close>

abbreviation sample_regs :: "(u64, unit) registration list" where
  "sample_regs \<equiv> [(sample_echo, ''A'', [1, 2]), (sample_echo, ''B'', [3])]"

theorem serve_packet_refines_spec_witness:
  "serve_packet sample_lib (build_router sample_lib 0 sample_regs) [] [7] (''peer'', Some 5) () =
     (Returned (Err (ServerError (MalformedMetaInfo None)), Some 5), ())"
  using serve_packet_refines_spec[OF sample_key_laws, of sample_regs 0 "[]" "[7]" "(''peer'', Some 5)" "()"]
  by (simp add: serve_spec_def dispatch_of_def)

theorem router_api_shape_witness:
  "\<exists>regs. add_route sample_lib sample_echo ''A'' [1] (router_new 0) =
       register_all sample_lib regs (router_new (0::u64) :: (u64, u64, unit) tf_server_router) \<or>
     regs \<noteq> [] \<and> add_route sample_lib sample_echo ''A'' [1] (router_new 0) =
       build_router sample_lib 0 (regs :: (u64, unit) registration list)"
  by (rule router_api_shape, rule r_into_rtranclp, rule step_add)

theorem commit_is_final_witness:
  "add_route sample_lib sample_echo ''C'' [4] (build_router sample_lib 0 sample_regs) =
     build_router sample_lib 0 sample_regs"
  by (rule commit_is_final, rule r_into_rtranclp, rule step_add) (simp add: build_router_committed)

theorem name_resolves_to_handler_witness:
  "\<exists>j b rt s_tys. j < length sample_regs \<and> sample_regs ! j = (rt, ''B'', s_tys) \<and>
     (\<forall>k. j < k \<and> k < length sample_regs \<longrightarrow> fst (snd (sample_regs ! k)) \<noteq> ''B'') \<and>
     serve_packet sample_lib (build_router sample_lib 0 sample_regs) (2 # as_bytes ''B'') [] (''peer'', Some 5) () =
       (Returned (Ok b, Some 5), ()) \<and>
     access_HandlerMetaAns sample_lib b = Ok \<lparr>hma_s_type = ST_HandlerMetaAns, hma_id = of_nat j\<rparr> \<and>
     (\<forall>t \<in> set s_tys. \<forall>m p data addr' tx' w'. access_PacketMeta sample_lib m =
          Ok \<lparr>pm_s_type = ST_PacketMeta, s_type_req = get_serialize_function sample_lib t t,
              pm_handler_id = of_nat j, has_payload = p\<rparr> \<longrightarrow>
        serve_packet sample_lib (build_router sample_lib 0 sample_regs) m data (addr', tx') w' =
          run_handler rt addr' tx' t data w')"
  by (rule name_resolves_to_handler[OF sample_wire_laws sample_key_laws sample_user_type_laws]) simp_all

end
