(* ===== verification/Router_Invariant.thy ===== *)
theory Router_Invariant
  imports Router_Dispatch
begin

text \<open>
  The invariant of the router's fields, kept by every operation whatever the order of the calls and
  whatever the comparison of keys, and the range of handler ids: the counter is a \<^verbatim>\<open>u64\<close> that
  wraps (release builds), so ids are unique up to \<open>2 ^ 64\<close> registrations and no further.
\<close>

section \<open>Well-formed routers\<close>

text \<open>
  Before the commit the tables are empty, and the pending registrations carry the ids
  \<open>0, 1, \<dots>\<close> up to the counter.  After it nothing is pending, there is a route, and every name
  stands for the id of a route.
\<close>

definition router_wf :: "('st, 'tc, 'w) tf_server_router \<Rightarrow> bool" where
  "router_wf r \<longleftrightarrow>
     (if routes_commited r
      then routes_to_add r = [] \<and> routes r \<noteq> [] \<and>
        (\<forall>(nm, i) \<in> set (routes_text_names r). i \<in> handler_id ` fst ` set (routes r))
      else routes r = [] \<and> routes_text_names r = [] \<and>
        map (handler_id \<circ> fst) (routes_to_add r) = map of_nat [0..<length (routes_to_add r)] \<and>
        router_incremental r = of_nat (length (routes_to_add r)))"

lemma hm_insert_tags:
  assumes "\<forall>k k'. same k k' \<longrightarrow> f k = f k'"
  shows "f ` fst ` set (hm_insert same m k v) = insert (f k) (f ` fst ` set m)"
proof (induction m)
  case (Cons e m)
  have "same k (fst e) \<Longrightarrow> f k = f (fst e)" using assms by simp
  with Cons show ?case by (cases e) (simp add: insert_commute)
qed simp

lemma hm_insert_values: "snd ` set (hm_insert same m k v) \<subseteq> insert v (snd ` set m)"
proof (induction m)
  case (Cons e m)
  then show ?case by (cases e) (simp, blast)
qed simp

lemma commit_loop_ids:
  assumes "key_ids L" and "commit_loop L es rs ns = (rs', ns')"
  shows "handler_id ` fst ` set rs' = handler_id ` fst ` set rs \<union> handler_id ` fst ` set es \<and>
     snd ` set ns' \<subseteq> snd ` set ns \<union> handler_id ` fst ` set es"
  using assms(2)
proof (induction es arbitrary: rs ns)
  case (Cons e rest)
  obtain types h name where e: "e = (types, h, name)" by (cases e)
  have ids: "handler_id ` fst ` set (hm_insert (tuple_same L) rs types h) =
      insert (handler_id types) (handler_id ` fst ` set rs)"
    using assms(1) by (intro hm_insert_tags) (auto dest: key_idsD)
  have IH: "handler_id ` fst ` set rs' = handler_id ` fst ` set (hm_insert (tuple_same L) rs types h) \<union>
      handler_id ` fst ` set rest \<and>
     snd ` set ns' \<subseteq> snd ` set (hm_insert (=) ns name (handler_id types)) \<union> handler_id ` fst ` set rest"
    by (rule Cons.IH) (use Cons.prems e in simp)
  then have "snd ` set ns' \<subseteq> insert (handler_id types) (snd ` set ns) \<union> handler_id ` fst ` set rest"
    using hm_insert_values[of "(=)" ns name "handler_id types"] by (meson Un_mono order_trans order_refl)
  then show ?case using IH ids by (simp add: e)
qed simp

lemma router_new_wf: "router_wf (router_new u)"
  by (simp add: router_wf_def)

lemma add_route_wf: "router_wf r \<Longrightarrow> router_wf (add_route L rt name s_tys r)"
  by (auto simp: router_wf_def add_route_def Let_def add.commute)

lemma commit_routes_wf:
  assumes "key_ids L" and "router_wf r"
  shows "router_wf (commit_routes L r)"
proof (cases "routes_commited r \<or> routes_to_add r = []")
  case True
  then show ?thesis using assms(2) by (simp add: commit_routes_def)
next
  case False
  obtain rs ns where c: "commit_loop L (routes_to_add r) [] [] = (rs, ns)" by fastforce
  have ids: "handler_id ` fst ` set rs = handler_id ` fst ` set (routes_to_add r)"
      "snd ` set ns \<subseteq> handler_id ` fst ` set (routes_to_add r)"
    using commit_loop_ids[OF assms(1) c] by simp_all
  then have "rs \<noteq> []" using False by auto
  moreover have "\<forall>(nm, i) \<in> set ns. i \<in> handler_id ` fst ` set rs"
    using ids by force
  ultimately show ?thesis using False by (simp add: commit_routes_def c router_wf_def)
qed

text \<open>
  C19. Every router that any sequence of \<^verbatim>\<open>add_route\<close> and \<^verbatim>\<open>commit_routes\<close> calls can
  produce is well formed: before the commit its tables are empty and the pending registrations carry
  consecutive ids up to the counter; after it nothing is pending, there is a route, and every name stands
  for the id of an existing route.
\<close>

theorem router_always_wf:
  assumes "key_ids L" and "router_steps L (router_new u) r"
  shows "router_wf r"
  using assms(2)
  by (induction rule: rtranclp_induct)
     (auto elim!: router_stepE intro: router_new_wf add_route_wf commit_routes_wf[OF assms(1)])

section \<open>The range of handler ids\<close>

lemma pending_ids:
  "i < length regs \<Longrightarrow>
   handler_id (fst (routes_to_add (register_all L regs (router_new u)) ! i)) = of_nat i"
  by (simp add: register_new entry_at_def tuple_at_def split: prod.split)

text \<open>
  C24. Handler ids are the registration numbers modulo \<open>2 ^ 64\<close>: two registrations get the same
  id exactly when their numbers are congruent, so the first \<open>2 ^ 64\<close> are told apart and the next
  one takes over the id 0.
\<close>

theorem handler_ids_wrap:
  assumes "i < length regs" and "j < length regs"
    and "es = routes_to_add (register_all L regs (router_new u))"
  shows "unat (handler_id (fst (es ! i))) = i mod 2 ^ 64 \<and>
     (handler_id (fst (es ! i)) = handler_id (fst (es ! j)) \<longleftrightarrow> i mod 2 ^ 64 = j mod 2 ^ 64) \<and>
     unat (router_incremental (register_all L regs (router_new u))) = length regs mod 2 ^ 64"
proof -
  have u: "unat (of_nat n :: u64) = n mod 2 ^ 64" for n by (simp add: unat_of_nat)
  have "(of_nat i :: u64) = of_nat j \<longleftrightarrow> i mod 2 ^ 64 = j mod 2 ^ 64"
    by (metis u word_unat_eq_iff)
  moreover have "router_incremental (register_all L regs (router_new u)) = of_nat (length regs)"
    by (simp add: register_new)
  ultimately show ?thesis
    using assms by (simp only: pending_ids u simp_thms)
qed

section \<open>Examples\<close>

theorem router_always_wf_witness:
  "router_wf (commit_routes sample_lib (add_route sample_lib sample_echo ''A'' [1]
     (router_new 0 :: (u64, u64, unit) tf_server_router)))"
proof (rule router_always_wf[where L = sample_lib])
  show "key_ids sample_lib" using sample_key_laws by (simp add: key_laws_def)
  show "router_steps sample_lib (router_new 0) (commit_routes sample_lib (add_route sample_lib sample_echo ''A'' [1]
     (router_new 0 :: (u64, u64, unit) tf_server_router)))"
    by (rule rtranclp.rtrancl_into_rtrancl, rule r_into_rtranclp, rule step_add, rule step_commit)
qed

theorem handler_ids_wrap_witness:
  "unat (handler_id (fst (routes_to_add (register_all sample_lib sample_regs (router_new 0)) ! 1))) = 1"
  using handler_ids_wrap[of 1 sample_regs 0 _ sample_lib 0] by simp

end
