(* ===== verification/Connection.thy ===== *)
theory Connection
  imports Router_Dispatch
begin

text \<open>
  One connection of the server: \<^verbatim>\<open>receive_message\<close>, \<^verbatim>\<open>send_message\<close> and
  \<^verbatim>\<open>handle_connection\<close> of \<^verbatim>\<open>src/server/server.rs\<close>.  The loop may run
  for ever, so it is a partial function: \<open>None\<close> means that it does not return.
  The lemmas give its control flow, when it ends (where every await completes; \<open>Awaits\<close> builds on
  them), and what it writes to the peer.
\<close>

section \<open>Definitions\<close>

definition is_disconnect :: "error_kind \<Rightarrow> bool" where
  "is_disconnect k \<longleftrightarrow> k \<in> {ConnectionReset, ConnectionAborted, BrokenPipe, UnexpectedEof}"

definition receive_message ::
  "'w conn_io \<Rightarrow> framed \<Rightarrow> processor \<Rightarrow> 'w \<Rightarrow> (bytes option, bool) result \<times> 'w" where
  "receive_message IO stream processor w =
     (case framed_next IO stream w of
        (Some (Ok data), w1) \<Rightarrow>
          (case pre_process_traffic IO processor data w1 of (data', w2) \<Rightarrow> (Ok (Some data'), w2))
      | (Some (Err e), w1) \<Rightarrow>
          (if is_disconnect (kind e) then (Err True, w1)
           else if kind e = InvalidData then (Err False, w1)
           else (Err False, w1))
      | (None, w1) \<Rightarrow> (Err True, w1))"

definition send_message ::
  "'w conn_io \<Rightarrow> framed \<Rightarrow> bytes \<Rightarrow> processor \<Rightarrow> 'w \<Rightarrow> (unit, io_error) result \<times> 'w" where
  "send_message IO stream message processor w =
     (case post_process_traffic IO processor message w of
        (message', w1) \<Rightarrow> framed_send IO stream message' w1)"

text \<open>The arguments of \<^verbatim>\<open>handle_connection\<close> and the receiving end of its channel.\<close>

record ('st, 'tc, 'w) connection =
  c_lib :: "('st, 'tc) s_type_lib"
  c_io :: "'w conn_io"
  c_handoff :: "'w handoff_io"
  c_router :: "('st, 'tc, 'w) tf_server_router"
  c_addr :: socket_addr
  c_stream :: framed
  c_processor :: processor

text \<open>
  How a connection task ends: the peer is gone, the hand-off handler has run, the hand-off
  sender is lost, a reply could not be sent, or the task panicked.
\<close>

datatype conn_exit = PeerGone | HandedOff | MoveSignalGone | SendFailed | TaskPanicked

datatype conn_ctl = Continue "sender option" | Exit conn_exit

definition close_and_exit ::
  "('st, 'tc, 'w) connection \<Rightarrow> conn_exit \<Rightarrow> 'w \<Rightarrow> conn_ctl \<times> 'w" where
  "close_and_exit c e w = (case framed_close (c_io c) (c_stream c) w of (_, w1) \<Rightarrow> (Exit e, w1))"

text \<open>
  The hand-off: the \<^verbatim>\<open>AcceptFn\<close> gets the stream and a clone of the processor.  A
  panic of its future is swallowed; a panic of the call itself is not.
\<close>

definition hand_off ::
  "('st, 'tc, 'w) connection \<Rightarrow> fn_ptr \<times> arc \<Rightarrow> 'w \<Rightarrow> conn_ctl \<times> 'w" where
  "hand_off c accept w =
     (case processor_clone (c_io c) (c_processor c) w of (prc, w1) \<Rightarrow>
        (case accept_call (c_handoff c) (fst accept) (snd accept) (c_addr c) (c_stream c, prc) w1 of
           (Panicked, w2) \<Rightarrow> (Exit TaskPanicked, w2)
         | (Returned fut, w2) \<Rightarrow> (case fut w2 of (_, w3) \<Rightarrow> (Exit HandedOff, w3))))"

text \<open>
  The second half of an iteration, from \<^verbatim>\<open>serve_packet\<close> on.  On a failed send the
  source writes \<^verbatim>\<open>let _ = stream.close();\<close> without awaiting it, which builds a
  future and drops it: nothing is closed on that path.
\<close>

definition serve_and_reply ::
  "('st, 'tc, 'w) connection \<Rightarrow> receiver \<Rightarrow> bytes \<Rightarrow> bytes \<Rightarrow> sender option \<Rightarrow> 'w \<Rightarrow> conn_ctl \<times> 'w" where
  "serve_and_reply c rx meta payload tx w =
     (case serve_packet (c_lib c) (c_router c) meta payload (c_addr c, tx) w of
        (Panicked, w1) \<Rightarrow> (Exit TaskPanicked, w1)
      | (Returned (res, tx'), w1) \<Rightarrow>
          (case (case res of Ok b \<Rightarrow> Some b | Err err \<Rightarrow> to_bytes_ServerError (c_lib c) err) of
             None \<Rightarrow> (Exit TaskPanicked, w1)
           | Some message \<Rightarrow>
               (case send_message (c_io c) (c_stream c) message (c_processor c) w1 of
                  (sent, w2) \<Rightarrow>
                    (case oneshot_try_recv (c_handoff c) rx w2 of
                       (Some accept, w3) \<Rightarrow> hand_off c accept w3
                     | (None, w3) \<Rightarrow>
                         (if tx' = None then close_and_exit c MoveSignalGone w3
                          else (case sent of
                                  Err e \<Rightarrow> (Exit SendFailed, w3)
                                | Ok _ \<Rightarrow> (Continue tx', w3)))))))"

definition wants_payload :: "('st, 'tc) s_type_lib \<Rightarrow> bytes \<Rightarrow> bool" where
  "wants_payload L meta =
     (case access_PacketMeta L meta of Ok m \<Rightarrow> has_payload m | Err _ \<Rightarrow> False)"

text \<open>One iteration of the loop.\<close>

definition conn_iter ::
  "('st, 'tc, 'w) connection \<Rightarrow> receiver \<Rightarrow> sender option \<Rightarrow> 'w \<Rightarrow> conn_ctl \<times> 'w" where
  "conn_iter c rx tx w =
     (case receive_message (c_io c) (c_stream c) (c_processor c) w of
        (Err gone, w1) \<Rightarrow> (if gone then close_and_exit c PeerGone w1 else (Continue tx, w1))
      | (Ok None, w1) \<Rightarrow> (Continue tx, w1)
      | (Ok (Some meta), w1) \<Rightarrow>
          (if wants_payload (c_lib c) meta
           then (case receive_message (c_io c) (c_stream c) (c_processor c) w1 of
                   (Err gone, w2) \<Rightarrow>
                     (if gone then close_and_exit c PeerGone w2 else (Continue tx, w2))
                 | (Ok None, w2) \<Rightarrow> close_and_exit c PeerGone w2
                 | (Ok (Some payload), w2) \<Rightarrow> serve_and_reply c rx meta payload tx w2)
           else serve_and_reply c rx meta [] tx w1))"

partial_function (option) conn_loop ::
  "('st, 'tc, 'w) connection \<Rightarrow> receiver \<Rightarrow> sender option \<Rightarrow> 'w \<Rightarrow> (conn_exit \<times> 'w) option" where
  "conn_loop c rx tx w =
     (case conn_iter c rx tx w of
        (Exit e, w1) \<Rightarrow> Some (e, w1)
      | (Continue tx', w1) \<Rightarrow> conn_loop c rx tx' w1)"

definition handle_connection ::
  "('st, 'tc, 'w) connection \<Rightarrow> 'w \<Rightarrow> (conn_exit \<times> 'w) option" where
  "handle_connection c w =
     (case oneshot_channel (c_handoff c) w of ((tx, rx), w1) \<Rightarrow> conn_loop c rx (Some tx) w1)"

lemmas conn_defs = conn_iter_def serve_and_reply_def close_and_exit_def hand_off_def

lemma conn_loop_Exit: "conn_iter c rx tx w = (Exit e, w1) \<Longrightarrow> conn_loop c rx tx w = Some (e, w1)"
  by (simp add: conn_loop.simps)

lemma conn_loop_Continue:
  "conn_iter c rx tx w = (Continue tx', w1) \<Longrightarrow> conn_loop c rx tx w = conn_loop c rx tx' w1"
  by (simp add: conn_loop.simps)

text \<open>Induction over a run of the loop that returns.\<close>

lemma conn_loop_induct [consumes 1, case_names Exit Continue]:
  assumes "conn_loop c rx tx w = Some (e, w')"
    and "\<And>tx w e w'. conn_iter c rx tx w = (Exit e, w') \<Longrightarrow> P tx w e w'"
    and "\<And>tx w tx' w1 e w'. conn_iter c rx tx w = (Continue tx', w1) \<Longrightarrow> P tx' w1 e w' \<Longrightarrow> P tx w e w'"
  shows "P tx w e w'"
proof -
  have "c = c \<and> rx = rx \<longrightarrow> P tx w (fst (e, w')) (snd (e, w'))"
  proof (rule conn_loop.raw_induct[OF _ assms(1), where
      P = "\<lambda>c' rx' tx w ew. c' = c \<and> rx' = rx \<longrightarrow> P tx w (fst ew) (snd ew)"], intro impI)
    fix loop c' rx' tx w ew
    assume IH: "\<And>c' rx' tx w ew. loop c' rx' tx w = Some ew \<Longrightarrow> c' = c \<and> rx' = rx \<longrightarrow> P tx w (fst ew) (snd ew)"
      and run: "(case conn_iter c' rx' tx w of (Continue tx', w1) \<Rightarrow> loop c' rx' tx' w1 | (Exit e, w1) \<Rightarrow> Some (e, w1)) =
        Some ew"
      and same: "c' = c \<and> rx' = rx"
    obtain ctl w1 where it: "conn_iter c rx tx w = (ctl, w1)" by fastforce
    show "P tx w (fst ew) (snd ew)"
    proof (cases ctl)
      case (Continue tx')
      then show ?thesis using assms(3)[of tx w tx' w1] IH[of c rx tx' w1 ew] it run same by simp
    next
      case (Exit e')
      then show ?thesis using assms(2)[of tx w e' w1] it run same by auto
    qed
  qed
  then show ?thesis by simp
qed

section \<open>Control flow\<close>

lemma serve_and_reply_Continue:
  "serve_and_reply c rx meta payload tx w = (Continue tx', w') \<Longrightarrow> tx' \<noteq> None"
  by (auto simp: serve_and_reply_def hand_off_def close_and_exit_def split: outcome_splits)

lemma conn_iter_Continue:
  "conn_iter c rx tx w = (Continue tx', w') \<Longrightarrow> tx \<noteq> None \<Longrightarrow> tx' \<noteq> None"
  by (auto simp: conn_iter_def close_and_exit_def split: outcome_splits dest: serve_and_reply_Continue)

text \<open>The states in which the loop head of a connection is reached.\<close>

inductive at_loop_head ::
  "('st, 'tc, 'w) connection \<Rightarrow> 'w \<Rightarrow> receiver \<Rightarrow> sender option \<Rightarrow> 'w \<Rightarrow> bool"
  for c w0 where
  loop_entry: "oneshot_channel (c_handoff c) w0 = ((tx, rx), w) \<Longrightarrow> at_loop_head c w0 rx (Some tx) w"
| loop_again: "at_loop_head c w0 rx tx w \<Longrightarrow> conn_iter c rx tx w = (Continue tx', w') \<Longrightarrow>
     at_loop_head c w0 rx tx' w'"

text \<open>
  In every iteration of a connection the hand-off sender is present when a packet is
  served: the loop never calls \<^verbatim>\<open>serve_packet\<close> with \<^verbatim>\<open>None\<close>.
\<close>

theorem loop_sender_present:
  assumes "at_loop_head c w0 rx tx w"
  shows "tx \<noteq> None"
  using assms by induction (auto dest: conn_iter_Continue)

text \<open>
  What each way of ending means: a peer that is gone and a lost sender close the stream, a
  failed send does not.
\<close>

lemma conn_iter_no_frame:
  assumes "framed_next (c_io c) (c_stream c) w = (None, w1)"
  shows "conn_iter c rx tx w = (Exit PeerGone, snd (framed_close (c_io c) (c_stream c) w1))"
  using assms by (simp add: conn_defs receive_message_def split: prod.splits)

lemma conn_iter_error_frame:
  assumes "framed_next (c_io c) (c_stream c) w = (Some (Err e), w1)"
  shows "conn_iter c rx tx w =
     (if is_disconnect (kind e)
      then (Exit PeerGone, snd (framed_close (c_io c) (c_stream c) w1))
      else (Continue tx, w1))"
  using assms by (simp add: conn_defs receive_message_def split: prod.splits)

section \<open>Termination\<close>

text \<open>
  The peer sends finitely many frames: a measure of the world that each received item
  decreases and no other operation of the connection increases.
\<close>

definition finite_input :: "('st, 'tc, 'w) connection \<Rightarrow> ('w \<Rightarrow> nat) \<Rightarrow> bool" where
  "finite_input c \<mu> \<longleftrightarrow>
     (\<forall>w x w'. framed_next (c_io c) (c_stream c) w = (Some x, w') \<longrightarrow> \<mu> w' < \<mu> w) \<and>
     (\<forall>b w. \<mu> (snd (pre_process_traffic (c_io c) (c_processor c) b w)) \<le> \<mu> w) \<and>
     (\<forall>b w. \<mu> (snd (post_process_traffic (c_io c) (c_processor c) b w)) \<le> \<mu> w) \<and>
     (\<forall>b w. \<mu> (snd (framed_send (c_io c) (c_stream c) b w)) \<le> \<mu> w) \<and>
     (\<forall>rx w. \<mu> (snd (oneshot_try_recv (c_handoff c) rx w)) \<le> \<mu> w) \<and>
     (\<forall>meta payload tx w.
        \<mu> (snd (serve_packet (c_lib c) (c_router c) meta payload (c_addr c, tx) w)) \<le> \<mu> w)"

lemma finite_inputD:
  assumes "finite_input c \<mu>"
  shows "framed_next (c_io c) (c_stream c) w = (Some x, w') \<Longrightarrow> \<mu> w' < \<mu> w"
    and "pre_process_traffic (c_io c) (c_processor c) b w = (b', w') \<Longrightarrow> \<mu> w' \<le> \<mu> w"
    and "send_message (c_io c) (c_stream c) b (c_processor c) w = (s, w') \<Longrightarrow> \<mu> w' \<le> \<mu> w"
    and "oneshot_try_recv (c_handoff c) rx w = (a, w') \<Longrightarrow> \<mu> w' \<le> \<mu> w"
    and "serve_packet (c_lib c) (c_router c) meta payload (c_addr c, tx) w = (v, w') \<Longrightarrow> \<mu> w' \<le> \<mu> w"
proof -
  note fi = assms[unfolded finite_input_def]
  show "framed_next (c_io c) (c_stream c) w = (Some x, w') \<Longrightarrow> \<mu> w' < \<mu> w"
    using fi by blast
  show "pre_process_traffic (c_io c) (c_processor c) b w = (b', w') \<Longrightarrow> \<mu> w' \<le> \<mu> w"
    using fi by (metis snd_conv)
  show "send_message (c_io c) (c_stream c) b (c_processor c) w = (s, w') \<Longrightarrow> \<mu> w' \<le> \<mu> w"
    using fi unfolding send_message_def by (metis (no_types, lifting) old.prod.case order_trans prod.collapse snd_conv)
  show "oneshot_try_recv (c_handoff c) rx w = (a, w') \<Longrightarrow> \<mu> w' \<le> \<mu> w"
    using fi by (metis snd_conv)
  show "serve_packet (c_lib c) (c_router c) meta payload (c_addr c, tx) w = (v, w') \<Longrightarrow> \<mu> w' \<le> \<mu> w"
    using fi by (metis snd_conv)
qed

lemma receive_message_decreases:
  assumes "finite_input c \<mu>"
    and "receive_message (c_io c) (c_stream c) (c_processor c) w = (r, w')"
    and "r \<noteq> Err True"
  shows "\<mu> w' < \<mu> w"
  using assms(2,3)
  by (auto simp: receive_message_def split: outcome_splits
        dest!: finite_inputD(1,2)[OF assms(1)])

lemma serve_and_reply_decreases:
  assumes "finite_input c \<mu>" and "serve_and_reply c rx meta payload tx w = (Continue tx', w')"
  shows "\<mu> w' \<le> \<mu> w"
  using assms(2)
  by (auto simp: serve_and_reply_def hand_off_def close_and_exit_def split: outcome_splits
        dest!: finite_inputD(3-5)[OF assms(1)])

lemma conn_iter_decreases:
  assumes "finite_input c \<mu>" and "conn_iter c rx tx w = (Continue tx', w')"
  shows "\<mu> w' < \<mu> w"
  using assms(2)
  by (auto simp: conn_iter_def close_and_exit_def split: outcome_splits
        dest!: receive_message_decreases[OF assms(1)] serve_and_reply_decreases[OF assms(1)])

lemma conn_loop_returns:
  assumes "finite_input c \<mu>"
  shows "\<exists>e w'. conn_loop c rx tx w = Some (e, w')"
proof (induction "\<mu> w" arbitrary: tx w rule: less_induct)
  case less
  obtain ctl w1 where it: "conn_iter c rx tx w = (ctl, w1)" by (cases "conn_iter c rx tx w")
  show ?case
  proof (cases ctl)
    case (Continue tx')
    then show ?thesis
      using it conn_iter_decreases[OF assms] less conn_loop_Continue by metis
  next
    case (Exit e)
    then have "conn_iter c rx tx w = (Exit e, w1)" using it by simp
    then show ?thesis by (intro exI) (rule conn_loop_Exit)
  qed
qed

section \<open>What a connection writes\<close>

text \<open>How the loop groups the incoming frames into packets.\<close>

fun packets :: "('st, 'tc) s_type_lib \<Rightarrow> bytes list \<Rightarrow> (bytes \<times> bytes) list" where
  "packets L [] = []"
| "packets L (meta # fs) =
     (if wants_payload L meta
      then (case fs of [] \<Rightarrow> [] | payload # fs' \<Rightarrow> (meta, payload) # packets L fs')
      else (meta, []) # packets L fs)"

text \<open>A queue-like stream on which no hand-off is requested.\<close>

definition duplex ::
  "('st, 'tc, 'w) connection \<Rightarrow> ('w \<Rightarrow> bytes list) \<Rightarrow> ('w \<Rightarrow> bytes list)
     \<Rightarrow> (bytes \<Rightarrow> bytes) \<Rightarrow> (bytes \<Rightarrow> bytes) \<Rightarrow> bool" where
  "duplex c ins outs pre post \<longleftrightarrow>
     fifo_stream (c_io c) (c_stream c) (c_processor c) ins outs pre post \<and>
     (\<forall>rx w. \<exists>w'. oneshot_try_recv (c_handoff c) rx w = (None, w') \<and> untouched ins outs w w') \<and>
     (\<forall>w. untouched ins outs w (snd (oneshot_channel (c_handoff c) w)))"

lemma duplex_fifo:
  "duplex c ins outs pre post \<Longrightarrow> fifo_stream (c_io c) (c_stream c) (c_processor c) ins outs pre post"
  by (simp add: duplex_def)

text \<open>
  On the packets of \<open>P\<close>, the handlers give the sender back and leave the stream alone;
  \<open>rep\<close> is the message the server forms from the router's result.
\<close>

definition answering ::
  "('st, 'tc, 'w) connection \<Rightarrow> ('w \<Rightarrow> bytes list) \<Rightarrow> ('w \<Rightarrow> bytes list)
     \<Rightarrow> (bytes \<times> bytes) set \<Rightarrow> (bytes \<Rightarrow> bytes \<Rightarrow> bytes) \<Rightarrow> bool" where
  "answering c ins outs P rep \<longleftrightarrow>
     (\<forall>(meta, payload) \<in> P. \<forall>tx w. \<exists>res w'.
        serve_packet (c_lib c) (c_router c) meta payload (c_addr c, tx) w = (Returned (res, tx), w') \<and>
        untouched ins outs w w' \<and>
        (case res of Ok b \<Rightarrow> Some b | Err e \<Rightarrow> to_bytes_ServerError (c_lib c) e) = Some (rep meta payload))"

lemma answeringD:
  assumes "answering c ins outs P rep" and "(meta, payload) \<in> P"
  obtains res w' where
      "serve_packet (c_lib c) (c_router c) meta payload (c_addr c, tx) w = (Returned (res, tx), w')"
    and "untouched ins outs w w'"
    and "(case res of Ok b \<Rightarrow> Some b | Err e \<Rightarrow> to_bytes_ServerError (c_lib c) e) = Some (rep meta payload)"
  using assms unfolding answering_def by fast

lemma duplex_receive_Nil:
  assumes "duplex c ins outs pre post" and "ins w = []"
  obtains w' where "receive_message (c_io c) (c_stream c) (c_processor c) w = (Err True, w')"
    and "ins w' = []" and "outs w' = outs w"
  using fifo_streamE(1)[OF duplex_fifo[OF assms(1)] assms(2)] by (auto simp: receive_message_def)

lemma duplex_receive_Cons:
  assumes "duplex c ins outs pre post" and "ins w = x # xs"
  obtains w' where "receive_message (c_io c) (c_stream c) (c_processor c) w = (Ok (Some (pre x)), w')"
    and "ins w' = xs" and "outs w' = outs w"
proof -
  note fifo = duplex_fifo[OF assms(1)]
  obtain w1 where 1: "framed_next (c_io c) (c_stream c) w = (Some (Ok x), w1)" "ins w1 = xs" "outs w1 = outs w"
    using fifo_streamE(2)[OF fifo assms(2)] by blast
  then show thesis
    using fifo_streamE(5)[OF fifo, of x w1] that by (auto simp: receive_message_def)
qed

lemma duplex_close:
  assumes "duplex c ins outs pre post"
  obtains w' where "close_and_exit c e w = (Exit e, w')" and "outs w' = outs w"
  using fifo_streamE(4)[OF duplex_fifo[OF assms], of w]
  by (cases "framed_close (c_io c) (c_stream c) w") (auto simp: close_and_exit_def)

lemma duplex_send:
  assumes "duplex c ins outs pre post"
  obtains w' where "send_message (c_io c) (c_stream c) b (c_processor c) w = (Ok (), w')"
    and "ins w' = ins w" and "outs w' = outs w @ [post b]"
proof -
  note fifo = duplex_fifo[OF assms]
  obtain w1 where 1: "post_process_traffic (c_io c) (c_processor c) b w = (post b, w1)"
      "ins w1 = ins w" "outs w1 = outs w"
    using fifo_streamE(6)[OF fifo] by blast
  then show thesis
    using fifo_streamE(3)[OF fifo, of "post b" w1] that by (auto simp: send_message_def)
qed

lemma duplex_serve:
  assumes "duplex c ins outs pre post" and "answering c ins outs P rep" and "(meta, payload) \<in> P"
  obtains w' where "serve_and_reply c rx meta payload (Some tx) w = (Continue (Some tx), w')"
    and "ins w' = ins w" and "outs w' = outs w @ [post (rep meta payload)]"
proof -
  obtain res w1 where 1: "serve_packet (c_lib c) (c_router c) meta payload (c_addr c, Some tx) w =
        (Returned (res, Some tx), w1)" "untouched ins outs w w1"
      "(case res of Ok b \<Rightarrow> Some b | Err e \<Rightarrow> to_bytes_ServerError (c_lib c) e) = Some (rep meta payload)"
    by (rule answeringD[OF assms(2,3)])
  obtain w2 where 2: "send_message (c_io c) (c_stream c) (rep meta payload) (c_processor c) w1 = (Ok (), w2)"
      "ins w2 = ins w1" "outs w2 = outs w1 @ [post (rep meta payload)]"
    using duplex_send[OF assms(1)] by metis
  obtain w3 where 3: "oneshot_try_recv (c_handoff c) rx w2 = (None, w3)" "untouched ins outs w2 w3"
    using assms(1) unfolding duplex_def by meson
  show thesis
    by (rule that[of w3]) (use 1 2 3 in \<open>simp_all add: serve_and_reply_def untouched_def\<close>)
qed

lemma duplex_iter_end:
  assumes "duplex c ins outs pre post" and "packets (c_lib c) (map pre (ins w)) = []"
  obtains w' where "conn_iter c rx tx w = (Exit PeerGone, w')" and "outs w' = outs w"
proof (cases "ins w")
  case Nil
  obtain w1 where 1: "receive_message (c_io c) (c_stream c) (c_processor c) w = (Err True, w1)"
      "outs w1 = outs w"
    using duplex_receive_Nil[OF assms(1) Nil] by metis
  obtain w2 where "close_and_exit c PeerGone w1 = (Exit PeerGone, w2)" "outs w2 = outs w1"
    using duplex_close[OF assms(1)] by metis
  with 1 show thesis
    by (intro that[of w2]) (simp_all add: conn_iter_def)
next
  case (Cons x xs)
  then have want: "wants_payload (c_lib c) (pre x)" and "xs = []"
    using assms(2) by (auto split: if_splits list.splits)
  obtain w1 where 1: "receive_message (c_io c) (c_stream c) (c_processor c) w = (Ok (Some (pre x)), w1)"
      "ins w1 = []" "outs w1 = outs w"
    using duplex_receive_Cons[OF assms(1) Cons] \<open>xs = []\<close> by metis
  obtain w2 where 2: "receive_message (c_io c) (c_stream c) (c_processor c) w1 = (Err True, w2)"
      "outs w2 = outs w1"
    using duplex_receive_Nil[OF assms(1) 1(2)] by metis
  obtain w3 where "close_and_exit c PeerGone w2 = (Exit PeerGone, w3)" "outs w3 = outs w2"
    using duplex_close[OF assms(1)] by metis
  with 1 2 want show thesis
    by (intro that[of w3]) (simp_all add: conn_iter_def)
qed

lemma duplex_iter_packet:
  assumes "duplex c ins outs pre post" and "answering c ins outs P rep"
    and "packets (c_lib c) (map pre (ins w)) = (m, p) # ps" and "(m, p) \<in> P"
  obtains w' where "conn_iter c rx (Some tx) w = (Continue (Some tx), w')"
    and "packets (c_lib c) (map pre (ins w')) = ps" and "outs w' = outs w @ [post (rep m p)]"
    and "ins w' = (if wants_payload (c_lib c) (pre (hd (ins w))) then tl (tl (ins w)) else tl (ins w))"
proof -
  obtain x xs where ins: "ins w = x # xs" using assms(3) by (cases "ins w") auto
  obtain w1 where 1: "receive_message (c_io c) (c_stream c) (c_processor c) w = (Ok (Some (pre x)), w1)"
      "ins w1 = xs" "outs w1 = outs w"
    using duplex_receive_Cons[OF assms(1) ins] by metis
  show thesis
  proof (cases "wants_payload (c_lib c) (pre x)")
    case False
    then have "(pre x, []) \<in> P" using assms(3,4) ins by simp
    then obtain w2 where "serve_and_reply c rx (pre x) [] (Some tx) w1 = (Continue (Some tx), w2)"
      "ins w2 = ins w1" "outs w2 = outs w1 @ [post (rep (pre x) [])]"
      using duplex_serve[OF assms(1,2)] by metis
    with 1 False show thesis
      by (intro that[of w2]) (use assms(3) ins in \<open>simp_all add: conn_iter_def\<close>)
  next
    case True
    then obtain y ys where xs: "xs = y # ys"
      using assms(3) ins by (cases xs) auto
    obtain w2 where 2: "receive_message (c_io c) (c_stream c) (c_processor c) w1 = (Ok (Some (pre y)), w2)"
      "ins w2 = ys" "outs w2 = outs w1"
      using duplex_receive_Cons[OF assms(1)] 1(2) xs by metis
    have "(pre x, pre y) \<in> P" using assms(3,4) ins xs True by simp
    then obtain w3 where "serve_and_reply c rx (pre x) (pre y) (Some tx) w2 = (Continue (Some tx), w3)"
      "ins w3 = ins w2" "outs w3 = outs w2 @ [post (rep (pre x) (pre y))]"
      using duplex_serve[OF assms(1,2)] by metis
    with 1 2 True show thesis
      by (intro that[of w3]) (use assms(3) ins xs in \<open>simp_all add: conn_iter_def\<close>)
  qed
qed

lemma conn_loop_replies:
  assumes "duplex c ins outs pre post" and "answering c ins outs P rep"
  shows "packets (c_lib c) (map pre (ins w)) = ps \<Longrightarrow> set ps \<subseteq> P \<Longrightarrow>
     \<exists>w'. conn_loop c rx (Some tx) w = Some (PeerGone, w') \<and>
       outs w' = outs w @ map (\<lambda>(m, p). post (rep m p)) ps"
proof (induction ps arbitrary: w)
  case Nil
  then obtain w' where "conn_iter c rx (Some tx) w = (Exit PeerGone, w')" "outs w' = outs w"
    using duplex_iter_end[OF assms(1)] by metis
  then show ?case using conn_loop_Exit[of c rx "Some tx" w] by auto
next
  case (Cons mp ps)
  obtain m p where mp: "mp = (m, p)" by (cases mp)
  obtain w1 where 1: "conn_iter c rx (Some tx) w = (Continue (Some tx), w1)"
      "packets (c_lib c) (map pre (ins w1)) = ps" "outs w1 = outs w @ [post (rep m p)]"
    using duplex_iter_packet[OF assms Cons.prems(1)[unfolded mp]] Cons.prems(2) mp
    by (metis list.set_intros(1) subsetD)
  then show ?case
    using Cons.IH[OF 1(2)] Cons.prems(2) conn_loop_Continue[OF 1(1)] by (auto simp: mp)
qed

lemma handle_connection_replies:
  assumes "duplex c ins outs pre post"
    and "answering c ins outs (set (packets (c_lib c) (map pre (ins w)))) rep"
  shows "\<exists>w'. handle_connection c w = Some (PeerGone, w') \<and>
     outs w' = outs w @ map (\<lambda>(m, p). post (rep m p)) (packets (c_lib c) (map pre (ins w)))"
proof -
  obtain tx rx w1 where ch: "oneshot_channel (c_handoff c) w = ((tx, rx), w1)"
    by (cases "oneshot_channel (c_handoff c) w") auto
  have "untouched ins outs w w1"
    using assms(1) ch unfolding duplex_def by (metis snd_conv)
  then show ?thesis
    using conn_loop_replies[OF assms refl, of w1 rx tx]
    by (simp add: handle_connection_def ch untouched_def)
qed

text \<open>
  On a stream that delivers the peer's frames in order and then ends, with handlers
  that give the hand-off sender back for the packets that arrive, the connection ends because the peer is gone, and
  the server has written exactly one reply per complete packet, in the order of the
  packets, each post-processed; a packet whose payload never arrives gets none.
\<close>

theorem connection_replies_in_order:
  assumes "duplex c ins outs pre post"
    and "answering c ins outs (set (packets (c_lib c) (map pre (ins w)))) rep"
  shows "\<exists>w'. handle_connection c w = Some (PeerGone, w') \<and>
     outs w' = outs w @ map (\<lambda>(m, p). post (rep m p)) (packets (c_lib c) (map pre (ins w)))"
  by (rule handle_connection_replies[OF assms])

text \<open>
  At every moment of such a connection, whenever the loop is about to read the next packet, the
  server has read exactly the first packets of the input and written exactly their replies: a reply
  is written before the next packet is read, and it does not depend on what comes later.
\<close>

theorem replies_keep_pace:
  assumes "duplex c ins outs pre post"
    and "answering c ins outs (set (packets (c_lib c) (map pre (ins w0)))) rep"
    and "at_loop_head c w0 rx tx w"
  shows "\<exists>k. packets (c_lib c) (map pre (ins w)) = drop k (packets (c_lib c) (map pre (ins w0))) \<and>
     outs w = outs w0 @ map (\<lambda>(m, p). post (rep m p)) (take k (packets (c_lib c) (map pre (ins w0))))"
    (is "\<exists>k. _ = drop k ?ps \<and> _")
proof -
  have "tx \<noteq> None \<and> (\<exists>k. packets (c_lib c) (map pre (ins w)) = drop k ?ps \<and>
      outs w = outs w0 @ map (\<lambda>(m, p). post (rep m p)) (take k ?ps))"
    using assms(3)
  proof induction
    case (loop_entry tx rx w)
    then have "untouched ins outs w0 w"
      using assms(1) unfolding duplex_def by (metis snd_conv)
    then show ?case by (auto simp: untouched_def intro: exI[of _ 0])
  next
    case (loop_again rx tx w tx' w')
    then obtain t k where t: "tx = Some t" and k: "packets (c_lib c) (map pre (ins w)) = drop k ?ps"
        "outs w = outs w0 @ map (\<lambda>(m, p). post (rep m p)) (take k ?ps)"
      by auto
    show ?case
    proof (cases "drop k ?ps")
      case Nil
      then have False
        using duplex_iter_end[OF assms(1), of w rx tx] k(1) loop_again(2) by auto
      then show ?thesis ..
    next
      case (Cons mp rest)
      obtain m p where mp: "mp = (m, p)" by (cases mp)
      have "(m, p) \<in> set ?ps" using Cons mp by (metis in_set_dropD list.set_intros(1))
      then obtain w1 where "conn_iter c rx (Some t) w = (Continue (Some t), w1)"
          "packets (c_lib c) (map pre (ins w1)) = rest" "outs w1 = outs w @ [post (rep m p)]"
        using duplex_iter_packet[OF assms(1,2)] k(1) Cons mp by metis
      moreover have "take (Suc k) ?ps = take k ?ps @ [(m, p)]" "rest = drop (Suc k) ?ps"
        using drop_Cons_step[OF Cons] mp by simp_all
      ultimately show ?thesis
        using loop_again(2) t k(2) by (intro conjI exI[of _ "Suc k"]) auto
    qed
  qed
  then show ?thesis by blast
qed

section \<open>Refused packets and hand-off\<close>

text \<open>
  A packet that no handler serves (malformed, unknown handler, name request) never
  ends the connection by itself: when its answer can be formed, the connection sends the
  answer and, if the send succeeds and nobody asked for the stream, goes on with the same
  sender.
\<close>

theorem unhandled_packet_keeps_connection:
  assumes "\<not> routed (c_lib c) (c_router c) meta"
    and "system_reply (c_lib c) (c_router c) meta = Returned res"
    and "(case res of Ok b \<Rightarrow> Some b | Err e \<Rightarrow> to_bytes_ServerError (c_lib c) e) = Some message"
    and "send_message (c_io c) (c_stream c) message (c_processor c) w = (Ok (), w1)"
    and "oneshot_try_recv (c_handoff c) rx w1 = (None, w2)"
  shows "serve_and_reply c rx meta payload (Some tx) w = (Continue (Some tx), w2)"
  using assms by (simp add: serve_and_reply_def router.unhandled)

text \<open>
  Hand-off: when a request for the stream is waiting on the channel after a reply was
  attempted, the requested function gets the connection's own stream and a clone of its
  processor, whether or not the reply could be sent and whether or not the sender came
  back; the loop ends there, even if that function's future panics, and does not touch the
  stream afterwards.
\<close>

theorem hand_off_ends_loop:
  assumes "serve_packet (c_lib c) (c_router c) meta payload (c_addr c, tx) w = (Returned (res, tx'), w1)"
    and "(case res of Ok b \<Rightarrow> Some b | Err e \<Rightarrow> to_bytes_ServerError (c_lib c) e) = Some message"
    and "send_message (c_io c) (c_stream c) message (c_processor c) w1 = (sent, w2)"
    and "oneshot_try_recv (c_handoff c) rx w2 = (Some (f, st), w3)"
    and "processor_clone (c_io c) (c_processor c) w3 = (prc, w4)"
    and "accept_call (c_handoff c) f st (c_addr c) (c_stream c, prc) w4 = (Returned fut, w5)"
    and "fut w5 = (v, w6)"
  shows "serve_and_reply c rx meta payload tx w = (Exit HandedOff, w6)"
  using assms by (simp add: serve_and_reply_def hand_off_def)

section \<open>Examples\<close>

definition sample_conn :: "(u64, qworld) registration list \<Rightarrow> (u64, u64, qworld) connection" where
  "sample_conn regs =
     \<lparr>c_lib = sample_lib, c_io = queue_io, c_handoff = quiet_handoff,
      c_router = build_router sample_lib 0 regs, c_addr = ''peer'', c_stream = 0, c_processor = 0\<rparr>"

text \<open>A router without routes changes nothing.\<close>

lemma routeless_serve: "snd (serve_packet sample_lib (router_new 0) meta payload (a, tx) w) = w"
  by (simp add: serve_packet_def split: result.split)

lemma sample_conn_simps [simp]:
  "c_lib (sample_conn regs) = sample_lib" "c_io (sample_conn regs) = queue_io"
  "c_handoff (sample_conn regs) = quiet_handoff" "c_addr (sample_conn regs) = ''peer''"
  "c_router (sample_conn regs) = build_router sample_lib 0 regs"
  "c_stream (sample_conn regs) = 0" "c_processor (sample_conn regs) = 0"
  by (simp_all add: sample_conn_def)

abbreviation echo_regs :: "(u64, qworld) registration list" where
  "echo_regs \<equiv> [(sample_echo, ''ECHO'', [0])]"

definition sample_rep :: "bytes \<Rightarrow> bytes \<Rightarrow> bytes" where
  "sample_rep meta payload =
     (case dispatch_of sample_lib 0 echo_regs meta of
        Call rt t \<Rightarrow> payload
      | Answer i \<Rightarrow> 3 # bits64 i
      | NoRoute \<Rightarrow> sample_error (ServerError (NoSuchHandler None))
      | Malformed \<Rightarrow> sample_error (ServerError (MalformedMetaInfo None)))"

lemma sample_serve:
  "serve_packet sample_lib (build_router sample_lib 0 echo_regs) meta payload (a, tx) w =
     (Returned (case dispatch_of sample_lib 0 echo_regs meta of
        Call rt t \<Rightarrow> Ok payload
      | Answer i \<Rightarrow> Ok (3 # bits64 i)
      | NoRoute \<Rightarrow> Err (ServerError (NoSuchHandler None))
      | Malformed \<Rightarrow> Err (ServerError (MalformedMetaInfo None)), tx), w)"
proof -
  have "serve_packet sample_lib (build_router sample_lib 0 echo_regs) meta payload (a, tx) w =
      serve_spec sample_lib 0 echo_regs meta payload (a, tx) w"
    by (rule serve_packet_eq_spec[OF sample_key_laws]) simp
  then show ?thesis
    using dispatch_of_Call[of sample_lib 0 echo_regs meta]
    by (auto simp: serve_spec_def run_handler_def handler_value_def split: dispatch.splits)
qed

lemma sample_duplex: "duplex (sample_conn regs) q_in q_out (\<lambda>b. b) (\<lambda>b. b)"
  by (simp add: duplex_def untouched_def queue_fifo)

lemma sample_answering: "answering (sample_conn echo_regs) q_in q_out P sample_rep"
  by (auto simp: answering_def sample_serve untouched_def sample_rep_def split: dispatch.splits)

theorem connection_replies_in_order_witness:
  "\<exists>w'. handle_connection (sample_conn echo_regs) \<lparr>q_in = [[9], [8]], q_out = [], q_closed = False\<rparr> =
       Some (PeerGone, w') \<and> length (q_out w') = 2"
  using connection_replies_in_order[OF sample_duplex sample_answering,
      of "\<lparr>q_in = [[9], [8]], q_out = [], q_closed = False\<rparr>"]
  by (auto simp: wants_payload_def)

abbreviation fresh_world :: qworld where
  "fresh_world \<equiv> \<lparr>q_in = [], q_out = [], q_closed = False\<rparr>"

theorem loop_sender_present_witness:
  "at_loop_head (sample_conn echo_regs) fresh_world 1 (Some 1) fresh_world \<and> Some (1::sender) \<noteq> None"
proof -
  have "at_loop_head (sample_conn echo_regs) fresh_world 1 (Some 1) fresh_world"
    by (rule loop_entry) simp
  then show ?thesis
    using loop_sender_present[of "sample_conn echo_regs" fresh_world 1 "Some 1" fresh_world] by simp
qed

theorem replies_keep_pace_witness:
  "\<exists>k. packets sample_lib [] = drop k (packets sample_lib [[9]]) \<and>
     [[6]] = map (\<lambda>(m, p). sample_rep m p) (take k (packets sample_lib [[9]]))"
proof -
  let ?before = "\<lparr>q_in = [[9]], q_out = [], q_closed = False\<rparr>"
  let ?after = "\<lparr>q_in = [], q_out = [[6]], q_closed = False\<rparr>"
  have start: "at_loop_head (sample_conn echo_regs) ?before 1 (Some 1) ?before" by (rule loop_entry) simp
  have "at_loop_head (sample_conn echo_regs) ?before 1 (Some 1) ?after"
    by (rule loop_again[OF start])
       (simp add: conn_iter_def receive_message_def wants_payload_def serve_and_reply_def sample_serve
          dispatch_of_def send_message_def)
  then show ?thesis
    using replies_keep_pace[OF sample_duplex sample_answering, of ?before 1 "Some 1" ?after] by simp
qed

theorem unhandled_packet_keeps_connection_witness:
  "serve_and_reply (sample_conn echo_regs) 1 [9] [] (Some 1) fresh_world =
     (Continue (Some 1), fresh_world\<lparr>q_out := [[6]]\<rparr>)"
  by (rule unhandled_packet_keeps_connection[where message = "[6]" and ?w1.0 = "fresh_world\<lparr>q_out := [[6]]\<rparr>"
        and res = "Err (ServerError (MalformedMetaInfo None))"])
     (simp_all add: routed_def system_reply_def send_message_def)

definition sample_meta :: bytes where
  "sample_meta = 1 # of_bool True # bits64 0 @ bits64 0"

lemma sample_meta_packet [simp]:
  "sample_packet sample_meta =
     Ok \<lparr>pm_s_type = ST_PacketMeta, s_type_req = 0, pm_handler_id = 0, has_payload = True\<rparr>"
  unfolding sample_meta_def by (rule sample_packet_bytes)

definition eager_handoff :: "qworld handoff_io" where
  "eager_handoff =
     \<lparr>oneshot_channel = (\<lambda>w. ((1, 1), w)),
      oneshot_try_recv = (\<lambda>rx w. (Some (3, 4), w)),
      accept_call = (\<lambda>f st addr s w. (Returned (\<lambda>w. (Panicked, w\<lparr>q_closed := True\<rparr>)), w))\<rparr>"

theorem hand_off_ends_loop_witness:
  "serve_and_reply ((sample_conn echo_regs)\<lparr>c_handoff := eager_handoff\<rparr>) 1 [9] [] (Some 1) fresh_world =
     (Exit HandedOff, \<lparr>q_in = [], q_out = [[6]], q_closed = True\<rparr>)"
  by (rule hand_off_ends_loop[where st = 4 and f = 3 and message = "[6]" and tx' = "Some 1"
        and res = "Err (ServerError (MalformedMetaInfo None))" and v = Panicked and prc = 0
        and fut = "\<lambda>w. (Panicked, w\<lparr>q_closed := True\<rparr>)" and sent = "Ok ()"
        and ?w1.0 = fresh_world and ?w2.0 = "fresh_world\<lparr>q_out := [[6]]\<rparr>"
        and ?w3.0 = "fresh_world\<lparr>q_out := [[6]]\<rparr>" and ?w4.0 = "fresh_world\<lparr>q_out := [[6]]\<rparr>"
        and ?w5.0 = "fresh_world\<lparr>q_out := [[6]]\<rparr>"])
     (auto simp: sample_serve dispatch_of_def send_message_def eager_handoff_def)

end
