(* ===== verification/Connection_Run.thy ===== *)
theory Connection_Run
  imports Connection
begin

text \<open>
  Three properties of whole runs of a connection: the server never writes more frames than it has read,
  whatever handlers, processors and transport do; a handler that asks for the stream gets it with
  exactly the frames after its own packet still unread and all replies up to its own written; and a handler
  that dies is reported before the connection ends.
\<close>

section \<open>At most one frame written per frame read\<close>

text \<open>
  \<open>got\<close> and \<open>sent\<close> count the frames taken from and given to the connection's stream.  A
  send writes at most one frame; nothing else the connection calls touches its stream.
\<close>

abbreviation keeps :: "('w \<Rightarrow> nat) \<Rightarrow> ('w \<Rightarrow> nat) \<Rightarrow> ('w \<Rightarrow> 'a \<times> 'w) \<Rightarrow> bool" where
  "keeps got sent \<equiv> kept (\<lambda>w. (got w, sent w))"

definition counted_stream :: "('st, 'tc, 'w) connection \<Rightarrow> ('w \<Rightarrow> nat) \<Rightarrow> ('w \<Rightarrow> nat) \<Rightarrow> bool" where
  "counted_stream c got sent \<longleftrightarrow>
     (\<forall>w x w'. framed_next (c_io c) (c_stream c) w = (x, w') \<longrightarrow>
        got w' = got w + (case x of Some (Ok _) \<Rightarrow> 1 | _ \<Rightarrow> 0) \<and> sent w' = sent w) \<and>
     (\<forall>b w r w'. framed_send (c_io c) (c_stream c) b w = (r, w') \<longrightarrow> got w' = got w \<and> sent w' \<le> sent w + 1) \<and>
     keeps got sent (framed_close (c_io c) (c_stream c)) \<and>
     (\<forall>b. keeps got sent (pre_process_traffic (c_io c) (c_processor c) b)) \<and>
     (\<forall>b. keeps got sent (post_process_traffic (c_io c) (c_processor c) b)) \<and>
     keeps got sent (oneshot_channel (c_handoff c)) \<and>
     (\<forall>rx. keeps got sent (oneshot_try_recv (c_handoff c) rx)) \<and>
     (\<forall>meta payload tx. keeps got sent (serve_packet (c_lib c) (c_router c) meta payload (c_addr c, tx)))"

lemma keepsD: "keeps got sent f \<Longrightarrow> f w = (r, w') \<Longrightarrow> got w' = got w \<and> sent w' = sent w"
  by (drule (1) keptD) simp

lemma counted_next:
  assumes "counted_stream c got sent" and "framed_next (c_io c) (c_stream c) w = (x, w')"
  shows "got w' = got w + (case x of Some (Ok _) \<Rightarrow> 1 | _ \<Rightarrow> 0) \<and> sent w' = sent w"
  using assms by (simp add: counted_stream_def)

lemma counted_keeps:
  assumes "counted_stream c got sent"
  shows "keeps got sent (framed_close (c_io c) (c_stream c))"
    and "keeps got sent (pre_process_traffic (c_io c) (c_processor c) b)"
    and "keeps got sent (post_process_traffic (c_io c) (c_processor c) b)"
    and "keeps got sent (oneshot_channel (c_handoff c))"
    and "keeps got sent (oneshot_try_recv (c_handoff c) rx)"
    and "keeps got sent (serve_packet (c_lib c) (c_router c) meta payload (c_addr c, tx))"
  using assms by (simp_all add: counted_stream_def)

lemmas counted_others = counted_keeps[THEN keepsD]

lemma counted_receive:
  assumes "counted_stream c got sent" and "receive_message (c_io c) (c_stream c) (c_processor c) w = (r, w')"
  shows "sent w' = sent w" and "got w' = got w + (case r of Ok (Some _) \<Rightarrow> 1 | _ \<Rightarrow> 0)"
proof -
  obtain x w1 where n: "framed_next (c_io c) (c_stream c) w = (x, w1)" by fastforce
  show "sent w' = sent w" and "got w' = got w + (case r of Ok (Some _) \<Rightarrow> 1 | _ \<Rightarrow> 0)"
    using assms(2) n counted_next[OF assms(1) n]
    by (auto simp: receive_message_def split: outcome_splits dest!: counted_others(2)[OF assms(1)])
qed

lemma counted_send:
  assumes "counted_stream c got sent" and "send_message (c_io c) (c_stream c) b (c_processor c) w = (r, w')"
  shows "got w' = got w \<and> sent w' \<le> sent w + 1"
proof -
  obtain b' w1 where p: "post_process_traffic (c_io c) (c_processor c) b w = (b', w1)" by fastforce
  then have "framed_send (c_io c) (c_stream c) b' w1 = (r, w')" using assms(2) by (simp add: send_message_def)
  then have "got w' = got w1 \<and> sent w' \<le> sent w1 + 1" using assms(1) by (simp add: counted_stream_def)
  then show ?thesis using counted_others(3)[OF assms(1) p] by simp
qed

text \<open>
  The ends of an iteration at which the stream is still the connection's own, and hand-off functions that leave
  the stream they are given alone.
\<close>

definition quiet_hand_off :: "('st, 'tc, 'w) connection \<Rightarrow> ('w \<Rightarrow> nat) \<Rightarrow> ('w \<Rightarrow> nat) \<Rightarrow> bool" where
  "quiet_hand_off c got sent \<longleftrightarrow>
     keeps got sent (processor_clone (c_io c) (c_processor c)) \<and>
     (\<forall>f st s. keeps got sent (accept_call (c_handoff c) f st (c_addr c) s)) \<and>
     (\<forall>f st s w fut w'. accept_call (c_handoff c) f st (c_addr c) s w = (Returned fut, w') \<longrightarrow> keeps got sent fut)"

lemma quiet_hand_offD:
  assumes "quiet_hand_off c got sent" and "hand_off c accept w = (ctl, w')"
  shows "got w' = got w \<and> sent w' = sent w"
proof -
  obtain prc w1 where 1: "processor_clone (c_io c) (c_processor c) w = (prc, w1)" by fastforce
  obtain v w2 where 2: "accept_call (c_handoff c) (fst accept) (snd accept) (c_addr c) (c_stream c, prc) w1 = (v, w2)"
    by fastforce
  have k1: "keeps got sent (processor_clone (c_io c) (c_processor c))"
    and k2: "keeps got sent (accept_call (c_handoff c) (fst accept) (snd accept) (c_addr c) (c_stream c, prc))"
    using assms(1) by (simp_all add: quiet_hand_off_def)
  have "got w2 = got w \<and> sent w2 = sent w"
    using keepsD[of got sent, OF k1, OF 1] keepsD[of got sent, OF k2, OF 2] by simp
  moreover have "keeps got sent fut" if "v = Returned fut" for fut
    using assms(1) 2 that unfolding quiet_hand_off_def by blast
  ultimately show ?thesis
    using assms(2) 1 2 by (auto simp: hand_off_def split: run.splits prod.splits dest!: keepsD)
qed

definition own_ctl :: "conn_ctl \<Rightarrow> bool" where
  "own_ctl ctl \<longleftrightarrow> ctl \<noteq> Exit HandedOff \<and> ctl \<noteq> Exit TaskPanicked"

lemma counted_serve:
  assumes "counted_stream c got sent" and "serve_and_reply c rx meta payload tx w = (ctl, w')" and "own_ctl ctl \<or> quiet_hand_off c got sent"
  shows "got w' = got w \<and> sent w' \<le> sent w + 1"
proof -
  have hand: "got w'' = got v \<and> sent w'' = sent v" if "hand_off c accept v = (ctl, w'')" for accept v w''
    using that assms(3) quiet_hand_offD by (fastforce simp: hand_off_def own_ctl_def split: prod.splits run.splits)
  show ?thesis
    using assms(2)
    by (auto simp: serve_and_reply_def close_and_exit_def split: outcome_splits
          dest!: hand counted_others[OF assms(1)] counted_send[OF assms(1)])
qed

lemma counted_iter:
  assumes "counted_stream c got sent" and "conn_iter c rx tx w = (ctl, w')" and "own_ctl ctl \<or> quiet_hand_off c got sent"
  shows "sent w' + got w \<le> sent w + got w'"
proof -
  note rcv = counted_receive[OF assms(1)]
  note srv = counted_serve[OF assms(1) _ assms(3)]
  obtain r w1 where 1: "receive_message (c_io c) (c_stream c) (c_processor c) w = (r, w1)" by fastforce
  obtain r' w2 where 2: "receive_message (c_io c) (c_stream c) (c_processor c) w1 = (r', w2)" by fastforce
  have close: "got w'' = got w' \<and> sent w'' = sent w'" if "close_and_exit c e w' = (ct, w'')" for e ct w' w''
    using that counted_others(1)[OF assms(1)] by (auto simp: close_and_exit_def split: prod.splits)
  show ?thesis
    using assms(2) 1 2 rcv[OF 1] rcv[OF 2]
    by (auto simp: conn_iter_def split: outcome_splits dest!: close srv)
qed

lemma counted_loop:
  assumes "counted_stream c got sent" and "conn_loop c rx tx w = Some (e, w')"
  shows "own_ctl (Exit e) \<or> quiet_hand_off c got sent \<longrightarrow> sent w' + got w \<le> sent w + got w'"
  using assms(2)
proof (induction rule: conn_loop_induct)
  case (Exit tx w e w')
  then show ?case using counted_iter[OF assms(1)] by blast
next
  case (Continue tx w tx' w1 e w')
  have "sent w1 + got w \<le> sent w + got w1" using counted_iter[OF assms(1) Continue(1)] by (simp add: own_ctl_def)
  then show ?case using Continue(2) by linarith
qed

lemma counted_head:
  assumes "counted_stream c got sent" and "at_loop_head c w0 rx tx w"
  shows "sent w + got w0 \<le> sent w0 + got w"
  using assms(2)
proof induction
  case (loop_entry tx rx w)
  then show ?case using counted_others(4)[OF assms(1)] by simp
next
  case (loop_again rx tx w tx' w')
  then show ?case using counted_iter[OF assms(1) loop_again(2)] by (simp add: own_ctl_def)
qed

text \<open>
  C15. A connection never writes more frames than it has read, whatever the peer sends and whatever the
  handlers, the traffic processors and the transport do: neither while it runs, whenever the loop is about
  to read, nor when it has ended with the stream still its own; nor when it has ended in any other way, by
  handing the stream over or by a panic, as long as the function that got the stream does not use it.
\<close>

theorem replies_never_outnumber_frames:
  assumes "counted_stream c got sent"
  shows "(\<forall>rx tx w. at_loop_head c w0 rx tx w \<longrightarrow> sent w + got w0 \<le> sent w0 + got w) \<and>
     (\<forall>e w. handle_connection c w0 = Some (e, w) \<longrightarrow>
        e \<noteq> HandedOff \<and> e \<noteq> TaskPanicked \<or> quiet_hand_off c got sent \<longrightarrow>
        sent w + got w0 \<le> sent w0 + got w)"
proof (intro conjI allI impI)
  fix rx tx w assume "at_loop_head c w0 rx tx w"
  then show "sent w + got w0 \<le> sent w0 + got w" by (rule counted_head[OF assms])
next
  fix e w assume run: "handle_connection c w0 = Some (e, w)"
    and e: "e \<noteq> HandedOff \<and> e \<noteq> TaskPanicked \<or> quiet_hand_off c got sent"
  obtain tx rx w1 where ch: "oneshot_channel (c_handoff c) w0 = ((tx, rx), w1)" by (metis prod.collapse)
  then have "conn_loop c rx (Some tx) w1 = Some (e, w)" using run by (simp add: handle_connection_def)
  from counted_loop[OF assms this] e counted_others(4)[OF assms ch]
  show "sent w + got w0 \<le> sent w0 + got w" by (auto simp: own_ctl_def)
qed

section \<open>Handing the stream over\<close>

text \<open>The frames that are left after the first \<open>n\<close> packets.\<close>

fun after_packets :: "('st, 'tc) s_type_lib \<Rightarrow> (bytes \<Rightarrow> bytes) \<Rightarrow> nat \<Rightarrow> bytes list \<Rightarrow> bytes list" where
  "after_packets L pre 0 fs = fs"
| "after_packets L pre (Suc n) [] = []"
| "after_packets L pre (Suc n) (f # fs) =
     after_packets L pre n (if wants_payload L (pre f) then tl fs else fs)"

lemma after_packets_Suc: "after_packets L pre (Suc n) fs = after_packets L pre 1 (after_packets L pre n fs)"
  by (induction L pre n fs rule: after_packets.induct) simp_all

text \<open>
  A queue-like stream beside a channel on which a handler can ask for it: \<open>asked\<close> is the request
  that waits on the channel.  Only handlers ask.
\<close>

definition handoff_stream ::
  "('st, 'tc, 'w) connection \<Rightarrow> ('w \<Rightarrow> bytes list) \<Rightarrow> ('w \<Rightarrow> bytes list) \<Rightarrow> ('w \<Rightarrow> (fn_ptr \<times> arc) option)
     \<Rightarrow> (bytes \<Rightarrow> bytes) \<Rightarrow> (bytes \<Rightarrow> bytes) \<Rightarrow> bool" where
  "handoff_stream c ins outs asked pre post \<longleftrightarrow>
     fifo_stream (c_io c) (c_stream c) (c_processor c) ins outs pre post \<and>
     (\<forall>w. asked (snd (framed_next (c_io c) (c_stream c) w)) = asked w) \<and>
     (\<forall>b w. asked (snd (framed_send (c_io c) (c_stream c) b w)) = asked w) \<and>
     (\<forall>b w. asked (snd (pre_process_traffic (c_io c) (c_processor c) b w)) = asked w) \<and>
     (\<forall>b w. asked (snd (post_process_traffic (c_io c) (c_processor c) b w)) = asked w) \<and>
     (\<forall>w. let w' = snd (oneshot_channel (c_handoff c) w) in untouched ins outs w w' \<and> asked w' = asked w) \<and>
     (\<forall>rx w. \<exists>w'. oneshot_try_recv (c_handoff c) rx w = (asked w, w') \<and> untouched ins outs w w' \<and>
        (asked w = None \<longrightarrow> asked w' = None))"

text \<open>
  What a handler does with a packet when nothing was asked before: it leaves the stream alone, its reply
  is \<open>rep\<close>, and afterwards \<open>q\<close> is what waits on the channel; a handler that does not ask gives
  the sender back.
\<close>

definition answers_asking ::
  "('st, 'tc, 'w) connection \<Rightarrow> ('w \<Rightarrow> bytes list) \<Rightarrow> ('w \<Rightarrow> bytes list) \<Rightarrow> ('w \<Rightarrow> (fn_ptr \<times> arc) option)
     \<Rightarrow> (bytes \<Rightarrow> bytes \<Rightarrow> bytes) \<Rightarrow> (fn_ptr \<times> arc) option \<Rightarrow> bytes \<times> bytes \<Rightarrow> bool" where
  "answers_asking c ins outs asked rep q mp \<longleftrightarrow>
     (\<forall>tx w. asked w = None \<longrightarrow> (\<exists>res tx' w'.
        serve_packet (c_lib c) (c_router c) (fst mp) (snd mp) (c_addr c, tx) w = (Returned (res, tx'), w') \<and>
        untouched ins outs w w' \<and> asked w' = q \<and> (q = None \<longrightarrow> tx' = tx) \<and>
        (case res of Ok b \<Rightarrow> Some b | Err e \<Rightarrow> to_bytes_ServerError (c_lib c) e) = Some (rep (fst mp) (snd mp))))"

lemma handoff_receive:
  assumes "handoff_stream c ins outs asked pre post" and "ins w = x # xs"
  shows "\<exists>w'. receive_message (c_io c) (c_stream c) (c_processor c) w = (Ok (Some (pre x)), w') \<and>
     ins w' = xs \<and> outs w' = outs w \<and> asked w' = asked w"
proof -
  have fifo: "fifo_stream (c_io c) (c_stream c) (c_processor c) ins outs pre post"
    and keep: "\<And>w. asked (snd (framed_next (c_io c) (c_stream c) w)) = asked w"
      "\<And>b w. asked (snd (pre_process_traffic (c_io c) (c_processor c) b w)) = asked w"
    using assms(1) by (simp_all add: handoff_stream_def)
  obtain w1 where 1: "framed_next (c_io c) (c_stream c) w = (Some (Ok x), w1)" "ins w1 = xs" "outs w1 = outs w"
    using fifo_streamE(2)[OF fifo assms(2)] by blast
  obtain w2 where 2: "pre_process_traffic (c_io c) (c_processor c) x w1 = (pre x, w2)" "ins w2 = ins w1" "outs w2 = outs w1"
    using fifo_streamE(5)[OF fifo] by blast
  then show ?thesis using 1 keep(1)[of w] keep(2)[of x w1] by (simp add: receive_message_def)
qed

lemma handoff_reads:
  assumes "handoff_stream c ins outs asked pre post" and "packets (c_lib c) (map pre (ins w)) = (m, p) # ps"
  shows "\<exists>w'. conn_iter c rx tx w = serve_and_reply c rx m p tx w' \<and>
     ins w' = after_packets (c_lib c) pre 1 (ins w) \<and> packets (c_lib c) (map pre (ins w')) = ps \<and>
     outs w' = outs w \<and> asked w' = asked w"
proof -
  obtain x xs where x: "ins w = x # xs" using assms(2) by (cases "ins w") auto
  obtain w1 where 1: "receive_message (c_io c) (c_stream c) (c_processor c) w = (Ok (Some (pre x)), w1)"
      "ins w1 = xs" "outs w1 = outs w" "asked w1 = asked w"
    using handoff_receive[OF assms(1) x] by blast
  show ?thesis
  proof (cases "wants_payload (c_lib c) (pre x)")
    case False
    then show ?thesis using 1 assms(2) x by (intro exI[of _ w1]) (auto simp: conn_iter_def)
  next
    case True
    then obtain y ys where y: "xs = y # ys" using assms(2) x by (cases xs) auto
    then obtain w2 where "receive_message (c_io c) (c_stream c) (c_processor c) w1 = (Ok (Some (pre y)), w2)"
        "ins w2 = ys" "outs w2 = outs w1" "asked w2 = asked w1"
      using handoff_receive[OF assms(1), of w1] 1(2) by blast
    then show ?thesis using 1 True assms(2) x y by (intro exI[of _ w2]) (auto simp: conn_iter_def)
  qed
qed

lemma handoff_sends:
  assumes "handoff_stream c ins outs asked pre post"
  shows "\<exists>w'. send_message (c_io c) (c_stream c) b (c_processor c) w = (Ok (), w') \<and>
     ins w' = ins w \<and> outs w' = outs w @ [post b] \<and> asked w' = asked w"
proof -
  have fifo: "fifo_stream (c_io c) (c_stream c) (c_processor c) ins outs pre post"
    and keep: "\<And>b w. asked (snd (framed_send (c_io c) (c_stream c) b w)) = asked w"
      "\<And>b w. asked (snd (post_process_traffic (c_io c) (c_processor c) b w)) = asked w"
    using assms(1) by (simp_all add: handoff_stream_def)
  obtain w1 where 1: "post_process_traffic (c_io c) (c_processor c) b w = (post b, w1)" "ins w1 = ins w" "outs w1 = outs w"
    using fifo_streamE(6)[OF fifo] by blast
  obtain w2 where 2: "framed_send (c_io c) (c_stream c) (post b) w1 = (Ok (), w2)" "ins w2 = ins w1"
      "outs w2 = outs w1 @ [post b]"
    using fifo_streamE(3)[OF fifo] by blast
  have "asked w2 = asked w" using 1(1) 2(1) keep by (metis snd_conv)
  then show ?thesis using 1 2 by (intro exI[of _ w2]) (simp add: send_message_def)
qed

lemma handoff_replies:
  assumes "handoff_stream c ins outs asked pre post" and "answers_asking c ins outs asked rep q (m, p)"
    and "asked w = None"
  shows "\<exists>w'. ins w' = ins w \<and> outs w' = outs w @ [post (rep m p)] \<and>
     (case q of
        None \<Rightarrow> asked w' = None \<and> serve_and_reply c rx m p (Some tx) w = (Continue (Some tx), w')
      | Some accept \<Rightarrow> serve_and_reply c rx m p (Some tx) w = hand_off c accept w')"
proof -
  obtain res tx' w1 where 1: "serve_packet (c_lib c) (c_router c) m p (c_addr c, Some tx) w = (Returned (res, tx'), w1)"
      "untouched ins outs w w1" "asked w1 = q" "q = None \<longrightarrow> tx' = Some tx"
      "(case res of Ok b \<Rightarrow> Some b | Err e \<Rightarrow> to_bytes_ServerError (c_lib c) e) = Some (rep m p)"
    using assms(2)[unfolded answers_asking_def, rule_format, OF assms(3), of "Some tx"] by auto
  obtain w3 where 3: "send_message (c_io c) (c_stream c) (rep m p) (c_processor c) w1 = (Ok (), w3)" "ins w3 = ins w1"
      "outs w3 = outs w1 @ [post (rep m p)]" "asked w3 = q"
    using handoff_sends[OF assms(1), of "rep m p" w1] 1(3) by auto
  then obtain w4 where 4: "oneshot_try_recv (c_handoff c) rx w3 = (q, w4)" "untouched ins outs w3 w4" "q = None \<longrightarrow> asked w4 = None"
    using assms(1) unfolding handoff_stream_def by metis
  show ?thesis
    using 1 3 4
    by (intro exI[of _ w4]) (auto simp: serve_and_reply_def untouched_def split: option.split)
qed

lemma hand_off_Exit: "\<exists>e w'. hand_off c accept w = (Exit e, w')"
  by (auto simp: hand_off_def split: prod.split run.split)

text \<open>Packets that are answered, without anybody asking for the stream.\<close>

lemma handoff_prefix:
  assumes "handoff_stream c ins outs asked pre post"
  shows "packets (c_lib c) (map pre (ins w)) = qs @ ps \<Longrightarrow> asked w = None \<Longrightarrow>
     \<forall>mp \<in> set qs. answers_asking c ins outs asked rep None mp \<Longrightarrow>
     \<exists>w'. conn_loop c rx (Some tx) w = conn_loop c rx (Some tx) w' \<and>
       packets (c_lib c) (map pre (ins w')) = ps \<and> asked w' = None \<and>
       ins w' = after_packets (c_lib c) pre (length qs) (ins w) \<and>
       outs w' = outs w @ map (\<lambda>(m, p). post (rep m p)) qs"
proof (induction qs arbitrary: w)
  case Nil
  then show ?case by (intro exI[of _ w]) simp
next
  case (Cons q qs)
  obtain m p where q: "q = (m, p)" by (cases q)
  obtain w1 where 1: "conn_iter c rx (Some tx) w = serve_and_reply c rx m p (Some tx) w1"
      "ins w1 = after_packets (c_lib c) pre 1 (ins w)" "outs w1 = outs w" "asked w1 = asked w"
      "packets (c_lib c) (map pre (ins w1)) = qs @ ps"
    using handoff_reads[OF assms(1), of w m p "qs @ ps" rx "Some tx"] Cons.prems(1) q by auto
  have a: "answers_asking c ins outs asked rep None (m, p)" using Cons.prems(3) q by simp
  obtain w2 where 2: "ins w2 = ins w1" "outs w2 = outs w1 @ [post (rep m p)]" "asked w2 = None"
      "serve_and_reply c rx m p (Some tx) w1 = (Continue (Some tx), w2)"
    using handoff_replies[OF assms(1) a, of w1 rx tx] 1(4) Cons.prems(2) by auto
  have loop: "conn_loop c rx (Some tx) w = conn_loop c rx (Some tx) w2"
    by (rule conn_loop_Continue) (simp add: 1(1) 2(4))
  have rest: "after_packets (c_lib c) pre (length qs) (ins w2) = after_packets (c_lib c) pre (length (q # qs)) (ins w)"
    unfolding 2(1) 1(2) using Cons.prems(1) by (cases "ins w") auto
  obtain w' where "conn_loop c rx (Some tx) w2 = conn_loop c rx (Some tx) w'" "packets (c_lib c) (map pre (ins w')) = ps"
       "asked w' = None" "ins w' = after_packets (c_lib c) pre (length qs) (ins w2)"
       "outs w' = outs w2 @ map (\<lambda>(m, p). post (rep m p)) qs"
    using Cons.IH[of w2] 1(5) 2(1,3) Cons.prems(3) by auto
  then show ?case using loop rest 1(3) 2(2) by (intro exI[of _ w']) (simp add: q)
qed

text \<open>The same from the start of the connection, up to the moment at which the next packet has been read.\<close>

lemma handle_connection_until:
  assumes "handoff_stream c ins outs asked pre post"
    and "\<forall>mp \<in> set qs. answers_asking c ins outs asked rep None mp"
    and "packets (c_lib c) (map pre (ins w)) = qs @ (m, p) # rest" and "asked w = None"
  obtains tx rx w1 w2 where "handle_connection c w = conn_loop c rx (Some tx) w1"
    and "conn_iter c rx (Some tx) w1 = serve_and_reply c rx m p (Some tx) w2" and "asked w2 = None"
    and "ins w2 = after_packets (c_lib c) pre (Suc (length qs)) (ins w)"
    and "outs w2 = outs w @ map (\<lambda>(m, p). post (rep m p)) qs"
proof -
  obtain tx rx w0 where ch: "oneshot_channel (c_handoff c) w = ((tx, rx), w0)" by (metis prod.collapse)
  have "untouched ins outs w w0 \<and> asked w0 = asked w"
    using assms(1) ch unfolding handoff_stream_def Let_def by (metis snd_conv)
  then have w0: "ins w0 = ins w" "outs w0 = outs w" "asked w0 = None"
    using assms(4) by (simp_all add: untouched_def)
  obtain w1 where 1: "conn_loop c rx (Some tx) w0 = conn_loop c rx (Some tx) w1"
      "packets (c_lib c) (map pre (ins w1)) = (m, p) # rest" "asked w1 = None"
      "ins w1 = after_packets (c_lib c) pre (length qs) (ins w)" "outs w1 = outs w @ map (\<lambda>(m, p). post (rep m p)) qs"
    using handoff_prefix[OF assms(1), of w0 qs "(m, p) # rest" rep rx tx] assms(2,3) w0 by auto
  obtain w2 where 2: "conn_iter c rx (Some tx) w1 = serve_and_reply c rx m p (Some tx) w2"
      "ins w2 = after_packets (c_lib c) pre 1 (ins w1)" "outs w2 = outs w1" "asked w2 = asked w1"
    using handoff_reads[OF assms(1) 1(2), of rx "Some tx"] by blast
  have "ins w2 = after_packets (c_lib c) pre (Suc (length qs)) (ins w)"
    by (simp only: 2(2) 1(4) after_packets_Suc[of _ _ "length qs"])
  then show thesis using that[of rx tx w1 w2] ch 1 2 by (simp add: handle_connection_def)
qed

text \<open>
  C6. Handing the stream over: when a handler asks for the stream, its own reply is still written, the
  loop ends there, and the requested function is called with the connection's own stream and a clone of
  its processor, at a moment at which all replies up to this packet have been written, in order, and
  exactly the frames after this packet are unread.  A panic of the function's future does not escape.
\<close>

theorem hand_off_gets_the_rest:
  assumes "handoff_stream c ins outs asked pre post"
    and "\<forall>mp \<in> set qs. answers_asking c ins outs asked rep None mp"
    and "answers_asking c ins outs asked rep (Some (f, st)) mp"
    and "packets (c_lib c) (map pre (ins w)) = qs @ mp # rest" and "asked w = None"
  shows "\<exists>w1 prc w2. processor_clone (c_io c) (c_processor c) w1 = (prc, w2) \<and>
     ins w1 = after_packets (c_lib c) pre (Suc (length qs)) (ins w) \<and>
     outs w1 = outs w @ map (\<lambda>(m, p). post (rep m p)) (qs @ [mp]) \<and>
     handle_connection c w =
       (case accept_call (c_handoff c) f st (c_addr c) (c_stream c, prc) w2 of
          (Panicked, w3) \<Rightarrow> Some (TaskPanicked, w3)
        | (Returned fut, w3) \<Rightarrow> Some (HandedOff, snd (fut w3)))"
proof -
  obtain m p where mp: "mp = (m, p)" by (cases mp)
  obtain tx rx w0 w1 where 1: "handle_connection c w = conn_loop c rx (Some tx) w0"
      "conn_iter c rx (Some tx) w0 = serve_and_reply c rx m p (Some tx) w1" "asked w1 = None"
      "ins w1 = after_packets (c_lib c) pre (Suc (length qs)) (ins w)"
      "outs w1 = outs w @ map (\<lambda>(m, p). post (rep m p)) qs"
    using handle_connection_until[OF assms(1,2) assms(4)[unfolded mp] assms(5)] by metis
  obtain w2 where 2: "ins w2 = ins w1" "outs w2 = outs w1 @ [post (rep m p)]"
      "serve_and_reply c rx m p (Some tx) w1 = hand_off c (f, st) w2"
    using handoff_replies[OF assms(1) assms(3)[unfolded mp] 1(3), of rx tx] by auto
  obtain e w' where "hand_off c (f, st) w2 = (Exit e, w')" using hand_off_Exit[of c "(f, st)" w2] by blast
  moreover from this have "handle_connection c w = Some (e, w')"
    using 1(1,2) 2(3) by (simp add: conn_loop_Exit)
  moreover obtain prc w3 where "processor_clone (c_io c) (c_processor c) w2 = (prc, w3)" by fastforce
  ultimately show ?thesis
    using 1(4,5) 2(1,2) mp
    by (intro exI[of _ w2] exI[of _ prc] exI[of _ w3]) (auto simp: hand_off_def split: prod.splits run.splits)
qed

section \<open>A handler that dies\<close>

text \<open>
  The packet is dispatched to a handler whose future panics, after it has left \<open>q\<close> waiting on the
  channel, and which leaves the stream alone.
\<close>

definition handler_dies ::
  "('st, 'tc, 'w) connection \<Rightarrow> 'st \<Rightarrow> ('st, 'w) registration list \<Rightarrow> ('w \<Rightarrow> bytes list) \<Rightarrow> ('w \<Rightarrow> bytes list)
     \<Rightarrow> ('w \<Rightarrow> (fn_ptr \<times> arc) option) \<Rightarrow> (fn_ptr \<times> arc) option \<Rightarrow> bytes \<Rightarrow> bytes \<Rightarrow> bool" where
  "handler_dies c u regs ins outs asked q m p \<longleftrightarrow>
     (\<exists>rt t. dispatch_of (c_lib c) u regs m = Call rt t \<and>
        (\<forall>tx w. asked w = None \<longrightarrow> (\<exists>fut w1 w2. serve rt (state rt) (c_addr c) tx t p w = (Returned fut, w1) \<and>
           fut w1 = (Panicked, w2) \<and> untouched ins outs w w2 \<and> asked w2 = q)))"

text \<open>
  C25. A handler whose future panics is reported to the client: the packets before it have been answered in
  order, the panic becomes an \<^verbatim>\<open>InternalError\<close> reply, and, since the hand-off sender went down
  with the handler, the stream is closed and the connection ends with the frames after this packet unread.
  If the handler had asked for the stream before it panicked, the reply is the same, but the stream is handed
  over instead of closed.
\<close>

theorem handler_panic_is_reported:
  assumes "handoff_stream c ins outs asked pre post"
    and "\<forall>mp \<in> set qs. answers_asking c ins outs asked rep None mp"
    and "key_laws (c_lib c)" and "length regs \<le> 2 ^ 64" and "c_router c = build_router (c_lib c) u regs"
    and "handler_dies c u regs ins outs asked q m p"
    and "to_bytes_ServerError (c_lib c) (ServerError (InternalError (Some handler_died))) = Some report"
    and "packets (c_lib c) (map pre (ins w)) = qs @ (m, p) # rest" and "asked w = None"
  shows "\<exists>w1. ins w1 = after_packets (c_lib c) pre (Suc (length qs)) (ins w) \<and>
     outs w1 = outs w @ map (\<lambda>(m, p). post (rep m p)) qs @ [post report] \<and>
     handle_connection c w =
       (case q of
          None \<Rightarrow> Some (MoveSignalGone, snd (framed_close (c_io c) (c_stream c) w1))
        | Some (f, st) \<Rightarrow>
            (case processor_clone (c_io c) (c_processor c) w1 of (prc, w2) \<Rightarrow>
               (case accept_call (c_handoff c) f st (c_addr c) (c_stream c, prc) w2 of
                  (Panicked, w3) \<Rightarrow> Some (TaskPanicked, w3)
                | (Returned fut, w3) \<Rightarrow> Some (HandedOff, snd (fut w3)))))"
proof -
  obtain tx rx w0 w1 where 1: "handle_connection c w = conn_loop c rx (Some tx) w0"
      "conn_iter c rx (Some tx) w0 = serve_and_reply c rx m p (Some tx) w1" "asked w1 = None"
      "ins w1 = after_packets (c_lib c) pre (Suc (length qs)) (ins w)"
      "outs w1 = outs w @ map (\<lambda>(m, p). post (rep m p)) qs"
    using handle_connection_until[OF assms(1,2,8,9)] by metis
  obtain rt t fut v1 v2 where dies: "dispatch_of (c_lib c) u regs m = Call rt t"
      "serve rt (state rt) (c_addr c) (Some tx) t p w1 = (Returned fut, v1)" "fut v1 = (Panicked, v2)"
      "untouched ins outs w1 v2" "asked v2 = q"
    using assms(6) 1(3) unfolding handler_dies_def by blast
  have "serve_packet (c_lib c) (c_router c) m p (c_addr c, Some tx) w1 =
      (Returned (Err (ServerError (InternalError (Some handler_died))), None), v2)"
    unfolding assms(5) serve_packet_Call[OF assms(3,4) dies(1)] by (simp add: run_handler_def handler_value_def dies(2,3))
  moreover obtain w2 where 2: "send_message (c_io c) (c_stream c) report (c_processor c) v2 = (Ok (), w2)"
      "ins w2 = ins v2" "outs w2 = outs v2 @ [post report]" "asked w2 = q"
    using handoff_sends[OF assms(1), of report v2] dies(5) by auto
  moreover obtain w3 where 3: "oneshot_try_recv (c_handoff c) rx w2 = (q, w3)" "untouched ins outs w2 w3"
    using assms(1) 2(4) unfolding handoff_stream_def by metis
  ultimately have served: "serve_and_reply c rx m p (Some tx) w1 =
      (case q of None \<Rightarrow> close_and_exit c MoveSignalGone w3 | Some accept \<Rightarrow> hand_off c accept w3)"
    using assms(7) by (simp add: serve_and_reply_def split: option.split)
  have "handle_connection c w =
       (case q of
          None \<Rightarrow> Some (MoveSignalGone, snd (framed_close (c_io c) (c_stream c) w3))
        | Some (f, st) \<Rightarrow>
            (case processor_clone (c_io c) (c_processor c) w3 of (prc, w2) \<Rightarrow>
               (case accept_call (c_handoff c) f st (c_addr c) (c_stream c, prc) w2 of
                  (Panicked, w3) \<Rightarrow> Some (TaskPanicked, w3)
                | (Returned fut, w3) \<Rightarrow> Some (HandedOff, snd (fut w3)))))"
    unfolding 1(1) conn_loop.simps[of c rx "Some tx" w0] 1(2) served
    by (auto simp: close_and_exit_def hand_off_def split: option.split prod.split run.split)
  then show ?thesis
    using 1(4,5) dies(4) 2(2,3) 3(2) by (intro exI[of _ w3]) (simp add: untouched_def)
qed

section \<open>Examples\<close>

text \<open>A world of the frames to read and the numbers of frames read and written; no routes.\<close>

type_synonym counters = "bytes list \<times> nat \<times> nat"

definition count_io :: "counters conn_io" where
  "count_io =
     \<lparr>framed_next = \<lambda>f w. case w of ([], g, s) \<Rightarrow> (None, w) | (x # xs, g, s) \<Rightarrow> (Some (Ok x), (xs, g + 1, s)),
      framed_send = \<lambda>f b w. case w of (fs, g, s) \<Rightarrow> (Ok (), (fs, g, s + 1)),
      framed_close = \<lambda>f w. (Ok (), w), framed_new = \<lambda>t cd w. (t, w),
      pre_process_traffic = \<lambda>p b w. (b, w), post_process_traffic = \<lambda>p b w. (b, w),
      processor_new = \<lambda>w. (0, w), processor_clone = \<lambda>p w. (p, w)\<rparr>"

definition count_conn :: "(u64, u64, counters) connection" where
  "count_conn = \<lparr>c_lib = sample_lib, c_io = count_io, c_handoff = quiet_handoff,
     c_router = router_new 0, c_addr = ''peer'', c_stream = 0, c_processor = 0\<rparr>"

lemma count_counted: "counted_stream count_conn (\<lambda>w. fst (snd w)) (\<lambda>w. snd (snd w))"
  by (auto simp: counted_stream_def kept_def count_conn_def count_io_def routeless_serve split: list.splits)

lemma count_run: "handle_connection count_conn ([[9]], 0, 0) = Some (PeerGone, ([], 1, 1))"
proof -
  have "conn_iter count_conn 1 (Some 1) ([[9]], 0, 0) = (Continue (Some 1), ([], 1, 1))"
    by (simp add: conn_iter_def receive_message_def wants_payload_def serve_and_reply_def serve_packet_def
          send_message_def count_conn_def count_io_def)
  moreover have "conn_iter count_conn 1 (Some 1) ([], 1, 1) = (Exit PeerGone, ([], 1, 1))"
    by (simp add: conn_iter_def receive_message_def close_and_exit_def count_conn_def count_io_def)
  ultimately have "conn_loop count_conn 1 (Some 1) ([[9]], 0, 0) = Some (PeerGone, ([], 1, 1))"
    by (metis conn_loop_Continue conn_loop_Exit)
  then show ?thesis by (simp add: handle_connection_def count_conn_def)
qed

theorem replies_never_outnumber_frames_witness:
  "handle_connection count_conn ([[9]], 0, 0) = Some (PeerGone, ([], 1, 1)) \<and>
   snd (snd ([] :: bytes list, 1 :: nat, 1 :: nat)) + 0 \<le> 0 + fst (snd ([] :: bytes list, 1 :: nat, 1 :: nat))"
  using replies_never_outnumber_frames[OF count_counted, of "([[9]], 0, 0)"] count_run by simp

text \<open>A world with a channel: the handler of the second route asks for the stream.\<close>

record hworld = qworld +
  h_asked :: "(fn_ptr \<times> arc) option"

definition asking_route :: "(u64, hworld) route" where
  "asking_route = \<lparr>state = 0, serve = boxed (\<lambda>st addr tx t data w. (Returned (Ok data, None), w\<lparr>h_asked := Some (3, 4)\<rparr>))\<rparr>"

definition asked_handoff :: "hworld handoff_io" where
  "asked_handoff =
     \<lparr>oneshot_channel = \<lambda>w. ((1, 1), w), oneshot_try_recv = \<lambda>rx w. (h_asked w, w),
      accept_call = \<lambda>f st addr s w. (Returned (\<lambda>w. (Returned (), w\<lparr>q_in := []\<rparr>)), w)\<rparr>"

abbreviation asking_regs :: "(u64, hworld) registration list" where
  "asking_regs \<equiv> [(sample_echo, ''ECHO'', [0]), (asking_route, ''TAKE'', [0])]"

definition asking_conn :: "(u64, u64, hworld) connection" where
  "asking_conn = \<lparr>c_lib = sample_lib, c_io = queue_io, c_handoff = asked_handoff,
     c_router = build_router sample_lib 0 asking_regs, c_addr = ''peer'', c_stream = 0, c_processor = 0\<rparr>"

lemma asking_stream: "handoff_stream asking_conn q_in q_out h_asked (\<lambda>b. b) (\<lambda>b. b)"
  by (auto simp: handoff_stream_def asking_conn_def asked_handoff_def queue_fifo untouched_def split: list.split)

definition packet_to :: "u64 \<Rightarrow> bytes" where
  "packet_to i = 1 # of_bool True # bits64 0 @ bits64 i"

lemma packet_to_access [simp]:
  "sample_packet (packet_to i) = Ok \<lparr>pm_s_type = ST_PacketMeta, s_type_req = 0, pm_handler_id = i, has_payload = True\<rparr>"
  unfolding packet_to_def by (rule sample_packet_bytes)

lemma asking_serve:
  "serve_packet sample_lib (build_router sample_lib 0 asking_regs) (packet_to 0) d (a, tx) w = (Returned (Ok d, tx), w)"
  "serve_packet sample_lib (build_router sample_lib 0 asking_regs) (packet_to 1) d (a, tx) w =
     (Returned (Ok d, None), w\<lparr>h_asked := Some (3, 4)\<rparr>)"
  by (subst serve_packet_eq_spec[OF sample_key_laws]; simp add: serve_spec_def dispatch_of_def spec_route_def
        run_handler_def handler_value_def asking_route_def boxed_def)+

lemma asking_answers:
  "answers_asking asking_conn q_in q_out h_asked (\<lambda>m p. p) None (packet_to 0, d)"
  "answers_asking asking_conn q_in q_out h_asked (\<lambda>m p. p) (Some (3, 4)) (packet_to 1, d)"
  by (simp_all add: answers_asking_def asking_conn_def asking_serve untouched_def)

theorem hand_off_gets_the_rest_witness:
  "\<exists>w1 prc w2. processor_clone queue_io 0 w1 = (prc, w2) \<and> q_in w1 = [[9]] \<and> q_out w1 = [[7], [8]] \<and>
     handle_connection asking_conn
       \<lparr>q_in = [packet_to 0, [7], packet_to 1, [8], [9]], q_out = [], q_closed = False, h_asked = None\<rparr> =
       Some (HandedOff, w2\<lparr>q_in := []\<rparr>)"
proof -
  let ?w = "\<lparr>q_in = [packet_to 0, [7], packet_to 1, [8], [9]], q_out = [], q_closed = False, h_asked = None\<rparr>"
  have want: "wants_payload sample_lib (packet_to i)" for i by (simp add: wants_payload_def)
  have "packets (c_lib asking_conn) (map (\<lambda>b. b) (q_in ?w)) =
      [(packet_to 0, [7])] @ (packet_to 1, [8]) # packets sample_lib [[9]]"
    by (simp add: asking_conn_def want)
  from hand_off_gets_the_rest[OF asking_stream _ asking_answers(2) this] show ?thesis
    using asking_answers(1) by (auto simp: asking_conn_def asked_handoff_def want)
qed

text \<open>The handler of the second route dies.\<close>

definition dying_route :: "(u64, hworld) route" where
  "dying_route = \<lparr>state = 0, serve = boxed (\<lambda>st addr tx t data w. (Panicked, w))\<rparr>"

abbreviation dying_regs :: "(u64, hworld) registration list" where
  "dying_regs \<equiv> [(sample_echo, ''ECHO'', [0]), (dying_route, ''DIE'', [0])]"

definition dying_conn :: "(u64, u64, hworld) connection" where
  "dying_conn = asking_conn\<lparr>c_router := build_router sample_lib 0 dying_regs\<rparr>"

lemma dying_conn_simps:
  "c_lib dying_conn = sample_lib" "c_io dying_conn = queue_io" "c_handoff dying_conn = asked_handoff" "c_stream dying_conn = 0"
  "c_router dying_conn = build_router sample_lib 0 dying_regs"
  by (simp_all add: dying_conn_def asking_conn_def)

lemma dying_answers: "answers_asking dying_conn q_in q_out h_asked (\<lambda>m p. p) None (packet_to 0, d)"
proof -
  have "serve_packet sample_lib (build_router sample_lib 0 dying_regs) (packet_to 0) d (a, tx) w =
      (Returned (Ok d, tx), w)" for a tx w
    by (subst serve_packet_eq_spec[OF sample_key_laws])
       (simp_all add: serve_spec_def dispatch_of_def spec_route_def run_handler_def handler_value_def)
  then show ?thesis by (simp add: answers_asking_def dying_conn_simps untouched_def)
qed

lemma dying_dies: "handler_dies dying_conn 0 dying_regs q_in q_out h_asked None (packet_to 1) d"
  by (simp add: handler_dies_def dying_conn_simps dispatch_of_def spec_route_def dying_route_def boxed_def untouched_def)

theorem handler_panic_is_reported_witness:
  "\<exists>w'. handle_connection dying_conn
       \<lparr>q_in = [packet_to 0, [7], packet_to 1, [8], [9]], q_out = [], q_closed = False, h_asked = None\<rparr> =
       Some (MoveSignalGone, w') \<and> q_in w' = [[9]] \<and> q_out w' = [[7], 5 # 1 # handler_died] \<and> q_closed w'"
proof -
  let ?w = "\<lparr>q_in = [packet_to 0, [7], packet_to 1, [8], [9]], q_out = [], q_closed = False, h_asked = None\<rparr>"
  have want: "wants_payload sample_lib (packet_to i)" for i by (simp add: wants_payload_def)
  have stream: "handoff_stream dying_conn q_in q_out h_asked (\<lambda>b. b) (\<lambda>b. b)"
    using asking_stream by (simp add: handoff_stream_def dying_conn_def)
  have packets: "packets (c_lib dying_conn) (map (\<lambda>b. b) (q_in ?w)) =
      [(packet_to 0, [7])] @ (packet_to 1, [8]) # packets sample_lib [[9]]"
    by (simp add: dying_conn_simps want)
  have report: "to_bytes_ServerError (c_lib dying_conn) (ServerError (InternalError (Some handler_died))) =
      Some (5 # 1 # handler_died)"
    by (simp add: dying_conn_simps)
  from handler_panic_is_reported[OF stream _ _ _ _ dying_dies report packets, of "\<lambda>m p. p"]
  obtain w1 where "q_in w1 = [[9]]" "q_out w1 = [[7], 5 # 1 # handler_died]"
      "handle_connection dying_conn ?w = Some (MoveSignalGone, w1\<lparr>q_closed := True\<rparr>)"
    using dying_answers[of "[7]"] by (auto simp: dying_conn_simps sample_key_laws want)
  then show ?thesis by simp
qed

end
