(* ===== verification/Connection_Machine.thy ===== *)
theory Connection_Machine
  imports Connection "HOL-Library.Sublist"
begin

text \<open>
  A connection as a machine.  Handlers and traffic processors have state of their own: a handler counts,
  a processor encrypts with a running key.  The machine is a pure function from that state and the items
  the stream delivers (frames and errors) to the exit, the frames written and the final state; it is the
  specification of \<^verbatim>\<open>handle_connection\<close> for streams nobody asks to take over, and the loop
  implements it.  Properties of the machine are then properties of the connection.
\<close>

section \<open>The machine\<close>

text \<open>
  What comes of serving a packet: a reply, a reply after which the hand-off sender is lost (the handler
  dropped it or died), or the death of the task itself.
\<close>

datatype packet_outcome = Reply bytes | LastReply bytes | Dies

record 's conn_machine =
  m_pre :: "'s \<Rightarrow> bytes \<Rightarrow> bytes \<times> 's"
  m_serve :: "'s \<Rightarrow> bytes \<Rightarrow> bytes \<Rightarrow> packet_outcome \<times> 's"
  m_post :: "'s \<Rightarrow> bytes \<Rightarrow> bytes \<times> 's"
  m_send :: "'s \<Rightarrow> bytes \<Rightarrow> bool \<times> 's"

type_synonym item = "(bytes, io_error) result"

text \<open>Serving one packet: the frames written, the exit if the connection ends here, the next state.\<close>

definition answer ::
  "'s conn_machine \<Rightarrow> 's \<Rightarrow> bytes \<Rightarrow> bytes \<Rightarrow> bytes list \<times> conn_exit option \<times> 's" where
  "answer M s meta payload =
     (case m_serve M s meta payload of
        (Dies, s1) \<Rightarrow> ([], Some TaskPanicked, s1)
      | (Reply b, s1) \<Rightarrow>
          (case m_post M s1 b of (b', s2) \<Rightarrow>
             (case m_send M s2 b' of (sent, s3) \<Rightarrow>
                (if sent then ([b'], None, s3) else ([], Some SendFailed, s3))))
      | (LastReply b, s1) \<Rightarrow>
          (case m_post M s1 b of (b', s2) \<Rightarrow>
             (case m_send M s2 b' of (sent, s3) \<Rightarrow> (if sent then [b'] else [], Some MoveSignalGone, s3))))"

fun run_items ::
  "(bytes \<Rightarrow> bool) \<Rightarrow> 's conn_machine \<Rightarrow> 's \<Rightarrow> item list \<Rightarrow> conn_exit \<times> bytes list \<times> 's" where
  "run_items wants M s [] = (PeerGone, [], s)"
| "run_items wants M s (Err e # xs) =
     (if is_disconnect (kind e) then (PeerGone, [], s) else run_items wants M s xs)"
| "run_items wants M s (Ok f # xs) =
     (case m_pre M s f of (meta, s1) \<Rightarrow>
        (if wants meta
         then (case xs of
                 [] \<Rightarrow> (PeerGone, [], s1)
               | Err e # ys \<Rightarrow> (if is_disconnect (kind e) then (PeerGone, [], s1) else run_items wants M s1 ys)
               | Ok g # ys \<Rightarrow>
                   (case m_pre M s1 g of (payload, s2) \<Rightarrow>
                      (case answer M s2 meta payload of
                         (os, Some e, s3) \<Rightarrow> (e, os, s3)
                       | (os, None, s3) \<Rightarrow>
                           (case run_items wants M s3 ys of (e, os', s4) \<Rightarrow> (e, os @ os', s4)))))
         else (case answer M s1 meta [] of
                 (os, Some e, s3) \<Rightarrow> (e, os, s3)
               | (os, None, s3) \<Rightarrow>
                   (case run_items wants M s3 xs of (e, os', s4) \<Rightarrow> (e, os @ os', s4)))))"

lemma items_cases:
  obtains "xs = []" | er ys where "xs = Err er # ys" | g ys where "xs = Ok g # ys"
  by (cases xs) (auto, metis result.exhaust)

section \<open>The connection implements the machine\<close>

text \<open>
  The outcome of \<^verbatim>\<open>serve_packet\<close> as the machine sees it: the result turned into a message
  (an error that cannot be serialized is an \<^verbatim>\<open>unwrap\<close> on \<^verbatim>\<open>None\<close>), and whether the
  sender came back.
\<close>

definition seen_as ::
  "('st, 'tc) s_type_lib \<Rightarrow> ((bytes, server_error) result \<times> sender option) run \<Rightarrow> packet_outcome" where
  "seen_as L r =
     (case r of
        Panicked \<Rightarrow> Dies
      | Returned (res, tx1) \<Rightarrow>
          (case (case res of Ok b \<Rightarrow> Some b | Err e \<Rightarrow> to_bytes_ServerError L e) of
             None \<Rightarrow> Dies
           | Some b \<Rightarrow> (if tx1 = None then LastReply b else Reply b)))"

text \<open>
  What a connection relies on, as an interface: its operations act on the world as the machine does on
  the view \<open>\<sigma>\<close>; \<open>items\<close> is what the stream delivers before it ends, \<open>outs\<close> what was
  written to it, and nobody asks for the stream.
\<close>

locale machine_connection =
  fixes c :: "('st, 'tc, 'w) connection"
    and items :: "'w \<Rightarrow> item list"
    and outs :: "'w \<Rightarrow> bytes list"
    and \<sigma> :: "'w \<Rightarrow> 's"
    and M :: "'s conn_machine"
  assumes next_end: "items w = [] \<Longrightarrow> \<exists>w'. framed_next (c_io c) (c_stream c) w = (None, w') \<and>
        items w' = [] \<and> outs w' = outs w \<and> \<sigma> w' = \<sigma> w"
    and next_item: "items w = x # xs \<Longrightarrow> \<exists>w'. framed_next (c_io c) (c_stream c) w = (Some x, w') \<and>
        items w' = xs \<and> outs w' = outs w \<and> \<sigma> w' = \<sigma> w"
    and pre: "\<exists>w'. pre_process_traffic (c_io c) (c_processor c) b w = (fst (m_pre M (\<sigma> w) b), w') \<and>
        items w' = items w \<and> outs w' = outs w \<and> \<sigma> w' = snd (m_pre M (\<sigma> w) b)"
    and post: "\<exists>w'. post_process_traffic (c_io c) (c_processor c) b w = (fst (m_post M (\<sigma> w) b), w') \<and>
        items w' = items w \<and> outs w' = outs w \<and> \<sigma> w' = snd (m_post M (\<sigma> w) b)"
    and send: "\<exists>r w'. framed_send (c_io c) (c_stream c) b w = (r, w') \<and> is_ok r = fst (m_send M (\<sigma> w) b) \<and>
        items w' = items w \<and> outs w' = outs w @ (if is_ok r then [b] else []) \<and> \<sigma> w' = snd (m_send M (\<sigma> w) b)"
    and close: "outs (snd (framed_close (c_io c) (c_stream c) w)) = outs w \<and>
        \<sigma> (snd (framed_close (c_io c) (c_stream c) w)) = \<sigma> w"
    and no_handoff: "\<exists>w'. oneshot_try_recv (c_handoff c) rx w = (None, w') \<and>
        items w' = items w \<and> outs w' = outs w \<and> \<sigma> w' = \<sigma> w"
    and channel: "items (snd (oneshot_channel (c_handoff c) w)) = items w \<and>
        outs (snd (oneshot_channel (c_handoff c) w)) = outs w \<and> \<sigma> (snd (oneshot_channel (c_handoff c) w)) = \<sigma> w"
    and served: "\<exists>r w'. serve_packet (c_lib c) (c_router c) meta payload (c_addr c, Some tx) w = (r, w') \<and>
        items w' = items w \<and> outs w' = outs w \<and> \<sigma> w' = snd (m_serve M (\<sigma> w) meta payload) \<and>
        seen_as (c_lib c) r = fst (m_serve M (\<sigma> w) meta payload)"
begin

lemma receive_end:
  assumes "items w = []"
  obtains w' where "receive_message (c_io c) (c_stream c) (c_processor c) w = (Err True, w')"
    and "outs w' = outs w" and "\<sigma> w' = \<sigma> w"
  using next_end[OF assms] by (auto simp: receive_message_def)

lemma receive_error:
  assumes "items w = Err e # xs"
  obtains w' where "receive_message (c_io c) (c_stream c) (c_processor c) w = (Err (is_disconnect (kind e)), w')"
    and "items w' = xs" and "outs w' = outs w" and "\<sigma> w' = \<sigma> w"
  using next_item[OF assms] by (auto simp: receive_message_def)

lemma receive_frame:
  assumes "items w = Ok b # xs" and "m_pre M (\<sigma> w) b = (b', s')"
  obtains w' where "receive_message (c_io c) (c_stream c) (c_processor c) w = (Ok (Some b'), w')"
    and "items w' = xs" and "outs w' = outs w" and "\<sigma> w' = s'"
proof -
  obtain w1 where "framed_next (c_io c) (c_stream c) w = (Some (Ok b), w1)" "items w1 = xs" "outs w1 = outs w"
      "\<sigma> w1 = \<sigma> w"
    using next_item[OF assms(1)] by blast
  then show thesis using pre[of b w1] assms(2) that by (auto simp: receive_message_def)
qed

lemma closes:
  obtains w' where "close_and_exit c e w = (Exit e, w')" and "outs w' = outs w" and "\<sigma> w' = \<sigma> w"
  using close[of w] by (cases "framed_close (c_io c) (c_stream c) w") (auto simp: close_and_exit_def)

lemma sends:
  assumes "m_post M (\<sigma> w) b = (b', s1)" and "m_send M s1 b' = (sent, s2)"
  obtains r w' where "send_message (c_io c) (c_stream c) b (c_processor c) w = (r, w')" and "is_ok r = sent"
    and "items w' = items w" and "outs w' = outs w @ (if sent then [b'] else [])" and "\<sigma> w' = s2"
proof -
  obtain w1 where w1: "post_process_traffic (c_io c) (c_processor c) b w = (b', w1)" "items w1 = items w"
      "outs w1 = outs w" "\<sigma> w1 = s1"
    using post[of b w] assms(1) by auto
  obtain r w2 where "framed_send (c_io c) (c_stream c) b' w1 = (r, w2)" "is_ok r = sent" "items w2 = items w1"
      "outs w2 = outs w1 @ (if sent then [b'] else [])" "\<sigma> w2 = s2"
    using send[of b' w1] assms(2) w1(4) by auto
  then show thesis using w1 that by (simp add: send_message_def)
qed

text \<open>One packet.\<close>

lemma replies_message:
  assumes "serve_packet (c_lib c) (c_router c) meta payload (c_addr c, Some tx) w = (Returned (res, tx1), w1)"
    and "(case res of Ok b \<Rightarrow> Some b | Err e \<Rightarrow> to_bytes_ServerError (c_lib c) e) = Some b"
    and "m_post M (\<sigma> w1) b = (b', s1)" and "m_send M s1 b' = (sent, s2)"
  obtains w' where "serve_and_reply c rx meta payload (Some tx) w =
      (if tx1 = None then Exit MoveSignalGone else if sent then Continue tx1 else Exit SendFailed, w')"
    and "outs w' = outs w1 @ (if sent then [b'] else [])" and "\<sigma> w' = s2" and "tx1 \<noteq> None \<Longrightarrow> items w' = items w1"
proof -
  obtain q w2 where w2: "send_message (c_io c) (c_stream c) b (c_processor c) w1 = (q, w2)" "is_ok q = sent"
      "items w2 = items w1" "outs w2 = outs w1 @ (if sent then [b'] else [])" "\<sigma> w2 = s2"
    using sends[OF assms(3,4)] .
  obtain w3 where w3: "oneshot_try_recv (c_handoff c) rx w2 = (None, w3)" "items w3 = items w2"
      "outs w3 = outs w2" "\<sigma> w3 = \<sigma> w2"
    using no_handoff by blast
  have run: "serve_and_reply c rx meta payload (Some tx) w =
      (if tx1 = None then close_and_exit c MoveSignalGone w3
       else if sent then (Continue tx1, w3) else (Exit SendFailed, w3))"
    using assms(1,2) w2(1,2) w3(1) by (cases q) (simp_all add: serve_and_reply_def)
  obtain w4 where "close_and_exit c MoveSignalGone w3 = (Exit MoveSignalGone, w4)" "outs w4 = outs w3" "\<sigma> w4 = \<sigma> w3"
    using closes .
  then show thesis using that[of w4] that[of w3] run w2 w3 by (cases tx1) auto
qed

lemma replies:
  assumes "answer M (\<sigma> w) meta payload = (os, ex, s')"
  obtains w' tx' where "serve_and_reply c rx meta payload (Some tx) w =
      ((case ex of None \<Rightarrow> Continue (Some tx') | Some e \<Rightarrow> Exit e), w')"
    and "outs w' = outs w @ os" and "\<sigma> w' = s'" and "ex = None \<Longrightarrow> items w' = items w"
proof -
  obtain r w1 where w1: "serve_packet (c_lib c) (c_router c) meta payload (c_addr c, Some tx) w = (r, w1)"
      "items w1 = items w" "outs w1 = outs w"
      "m_serve M (\<sigma> w) meta payload = (seen_as (c_lib c) r, \<sigma> w1)"
    using served by (metis prod.collapse)
  show thesis
  proof (cases "seen_as (c_lib c) r = Dies")
    case True
    then have "serve_and_reply c rx meta payload (Some tx) w = (Exit TaskPanicked, w1)"
      using w1(1) by (auto simp: serve_and_reply_def seen_as_def split: outcome_splits)
    then show thesis using that[of tx w1] assms True w1 by (auto simp: answer_def)
  next
    case False
    then obtain res tx1 b where r: "r = Returned (res, tx1)"
        "(case res of Ok b \<Rightarrow> Some b | Err e \<Rightarrow> to_bytes_ServerError (c_lib c) e) = Some b"
        "seen_as (c_lib c) r = (if tx1 = None then LastReply b else Reply b)"
      by (auto simp: seen_as_def split: run.splits prod.splits option.splits)
    obtain b' s1 where 1: "m_post M (\<sigma> w1) b = (b', s1)" by fastforce
    obtain sent s2 where 2: "m_send M s1 b' = (sent, s2)" by fastforce
    obtain w' where w': "serve_and_reply c rx meta payload (Some tx) w =
        (if tx1 = None then Exit MoveSignalGone else if sent then Continue tx1 else Exit SendFailed, w')"
        "outs w' = outs w1 @ (if sent then [b'] else [])" "\<sigma> w' = s2" "tx1 \<noteq> None \<Longrightarrow> items w' = items w1"
      using replies_message[OF w1(1)[unfolded r(1)] r(2) 1 2, of rx] by blast
    have "(os, ex, s') = (if sent then [b'] else [],
        if tx1 = None then Some MoveSignalGone else if sent then None else Some SendFailed, s2)"
      using assms 1 2 w1(4) r(3) by (auto simp: answer_def split: if_splits)
    then show thesis using that[of "the tx1" w'] w' w1(2,3) by (cases tx1; cases sent) auto
  qed
qed

text \<open>The loop from this world on runs as the machine does.\<close>

definition runs :: "receiver \<Rightarrow> 'w \<Rightarrow> bool" where
  "runs rx w \<longleftrightarrow>
     (\<forall>tx. case run_items (wants_payload (c_lib c)) M (\<sigma> w) (items w) of (e, os, s') \<Rightarrow>
        \<exists>w'. conn_loop c rx (Some tx) w = Some (e, w') \<and> outs w' = outs w @ os \<and> \<sigma> w' = s')"

lemma runs_on:
  assumes "conn_iter c rx (Some tx) w0 = serve_and_reply c rx meta payload (Some tx) w" and "outs w = outs w0"
    and "items w = xs" and "\<sigma> w = s"
    and "(case answer M s meta payload of
            (os, Some e, s3) \<Rightarrow> (e, os, s3)
          | (os, None, s3) \<Rightarrow>
              (case run_items (wants_payload (c_lib c)) M s3 xs of (e, os', s4) \<Rightarrow> (e, os @ os', s4))) = (e, os, s')"
    and "\<And>w1. items w1 = xs \<Longrightarrow> runs rx w1"
  shows "\<exists>w'. conn_loop c rx (Some tx) w0 = Some (e, w') \<and> outs w' = outs w0 @ os \<and> \<sigma> w' = s'"
proof -
  obtain os1 ex s1 where a: "answer M (\<sigma> w) meta payload = (os1, ex, s1)" by (cases "answer M (\<sigma> w) meta payload")
  obtain w1 tx1 where w1: "serve_and_reply c rx meta payload (Some tx) w =
      ((case ex of None \<Rightarrow> Continue (Some tx1) | Some e \<Rightarrow> Exit e), w1)"
      "outs w1 = outs w @ os1" "\<sigma> w1 = s1" "ex = None \<Longrightarrow> items w1 = items w"
    using replies[OF a, of rx tx] by blast
  show ?thesis
  proof (cases ex)
    case (Some e1)
    then have "conn_loop c rx (Some tx) w0 = Some (e1, w1)"
      using assms(1) w1(1) by (intro conn_loop_Exit) simp
    then show ?thesis using assms(2,4,5) a Some w1(2,3) by simp
  next
    case None
    then have loop: "conn_loop c rx (Some tx) w0 = conn_loop c rx (Some tx1) w1"
      using assms(1) w1(1) by (intro conn_loop_Continue) simp
    have xs: "items w1 = xs" using None w1(4) assms(3) by simp
    then have "case run_items (wants_payload (c_lib c)) M s1 xs of (e, os, s') \<Rightarrow>
        \<exists>w'. conn_loop c rx (Some tx1) w1 = Some (e, w') \<and> outs w' = outs w1 @ os \<and> \<sigma> w' = s'"
      using assms(6)[OF xs] w1(3) unfolding runs_def by simp
    then show ?thesis
      using assms(2,4,5) loop a None w1(2) by (auto split: prod.splits)
  qed
qed

lemma gone_on:
  assumes "conn_iter c rx (Some tx) w = close_and_exit c PeerGone w1" and "outs w1 = outs w"
  shows "\<exists>w'. conn_loop c rx (Some tx) w = Some (PeerGone, w') \<and> outs w' = outs w @ [] \<and> \<sigma> w' = \<sigma> w1"
  using closes[of PeerGone w1] assms conn_loop_Exit[of c rx "Some tx" w PeerGone] by (metis append_Nil2)

lemma skips_on:
  assumes "conn_iter c rx (Some tx) w = (Continue (Some tx), w1)" and "outs w1 = outs w" and "runs rx w1"
    and "run_items (wants_payload (c_lib c)) M (\<sigma> w1) (items w1) = (e, os, s')"
  shows "\<exists>w'. conn_loop c rx (Some tx) w = Some (e, w') \<and> outs w' = outs w @ os \<and> \<sigma> w' = s'"
  using assms(2-4) conn_loop_Continue[OF assms(1)] unfolding runs_def by force

text \<open>After a meta data frame that announces a payload.\<close>

lemma payload_on:
  assumes "receive_message (c_io c) (c_stream c) (c_processor c) w = (Ok (Some meta), w1)" and "outs w1 = outs w"
    and "wants_payload (c_lib c) meta" and "items w = Ok f # items w1" and "m_pre M (\<sigma> w) f = (meta, \<sigma> w1)"
    and "\<And>w'. length (items w') < length (items w1) \<Longrightarrow> runs rx w'"
    and "run_items (wants_payload (c_lib c)) M (\<sigma> w) (items w) = (e, os, s')"
  shows "\<exists>w'. conn_loop c rx (Some tx) w = Some (e, w') \<and> outs w' = outs w @ os \<and> \<sigma> w' = s'"
proof (cases "items w1" rule: items_cases)
  case 1
  obtain w2 where "receive_message (c_io c) (c_stream c) (c_processor c) w1 = (Err True, w2)"
      "outs w2 = outs w1" "\<sigma> w2 = \<sigma> w1"
    using receive_end[OF 1] .
  then show ?thesis using gone_on[of rx tx w w2] assms 1 by (auto simp: conn_iter_def)
next
  case (2 er ys)
  obtain w2 where "receive_message (c_io c) (c_stream c) (c_processor c) w1 = (Err (is_disconnect (kind er)), w2)"
      "items w2 = ys" "outs w2 = outs w1" "\<sigma> w2 = \<sigma> w1"
    using receive_error[OF 2] .
  then show ?thesis
    using gone_on[of rx tx w w2] skips_on[of rx tx w w2] assms(6)[of w2] assms(1-5,7) 2
    by (auto simp: conn_iter_def split: if_splits)
next
  case (3 g ys)
  obtain payload s2 where p: "m_pre M (\<sigma> w1) g = (payload, s2)" by fastforce
  obtain w2 where "receive_message (c_io c) (c_stream c) (c_processor c) w1 = (Ok (Some payload), w2)"
      "items w2 = ys" "outs w2 = outs w1" "\<sigma> w2 = s2"
    using receive_frame[OF 3 p] .
  then show ?thesis
    by (intro runs_on[of rx tx w meta payload w2 ys s2]) (use assms p 3 in \<open>simp_all add: conn_iter_def\<close>)
qed

lemma conn_loop_runs: "runs rx w"
proof (induction "length (items w)" arbitrary: w rule: less_induct)
  case less
  have "\<exists>w'. conn_loop c rx (Some tx) w = Some (e, w') \<and> outs w' = outs w @ os \<and> \<sigma> w' = s'"
    if run: "run_items (wants_payload (c_lib c)) M (\<sigma> w) (items w) = (e, os, s')" for tx e os s'
  proof (cases "items w" rule: items_cases)
    case 1
    obtain w1 where "receive_message (c_io c) (c_stream c) (c_processor c) w = (Err True, w1)"
        "outs w1 = outs w" "\<sigma> w1 = \<sigma> w"
      using receive_end[OF 1] .
    then show ?thesis using gone_on[of rx tx w w1] run 1 by (auto simp: conn_iter_def)
  next
    case (2 er xs)
    obtain w1 where "receive_message (c_io c) (c_stream c) (c_processor c) w = (Err (is_disconnect (kind er)), w1)"
        "items w1 = xs" "outs w1 = outs w" "\<sigma> w1 = \<sigma> w"
      using receive_error[OF 2] .
    then show ?thesis
      using gone_on[of rx tx w w1] skips_on[of rx tx w w1] less[of w1] run 2
      by (auto simp: conn_iter_def split: if_splits)
  next
    case (3 f xs)
    obtain meta s1 where m: "m_pre M (\<sigma> w) f = (meta, s1)" by fastforce
    obtain w1 where w1: "receive_message (c_io c) (c_stream c) (c_processor c) w = (Ok (Some meta), w1)"
        "items w1 = xs" "outs w1 = outs w" "\<sigma> w1 = s1"
      using receive_frame[OF 3 m] .
    show ?thesis
    proof (cases "wants_payload (c_lib c) meta")
      case True
      then show ?thesis
        by (intro payload_on[OF w1(1,3) _ _ _ _ run]) (use less 3 m w1 in auto)
    next
      case False
      then show ?thesis
        by (intro runs_on[of rx tx w meta "[]" w1 xs s1]) (use less run 3 m w1 in \<open>auto simp: conn_iter_def\<close>)
    qed
  qed
  then show ?case by (auto simp: runs_def)
qed

lemma handle_connection_runs:
  assumes "run_items (wants_payload (c_lib c)) M (\<sigma> w) (items w) = (e, os, s')"
  shows "\<exists>w'. handle_connection c w = Some (e, w') \<and> outs w' = outs w @ os \<and> \<sigma> w' = s'"
proof -
  obtain tx rx w1 where ch: "oneshot_channel (c_handoff c) w = ((tx, rx), w1)"
    by (cases "oneshot_channel (c_handoff c) w") auto
  then show ?thesis
    using channel[of w] conn_loop_runs[of rx w1] assms by (auto simp: handle_connection_def runs_def)
qed

end

section \<open>Properties of the machine\<close>

text \<open>An error at the end of the input is as good as the end itself.\<close>

lemma run_items_last_error: "run_items wants M s (xs @ [Err e]) = run_items wants M s xs"
proof (induction "length xs" arbitrary: s xs rule: less_induct)
  case less
  show ?case
  proof (cases xs rule: items_cases)
    case (3 f ys)
    obtain meta s1 where m: "m_pre M s f = (meta, s1)" by fastforce
    show ?thesis
    proof (cases ys rule: items_cases)
      case (3 g zs)
      then show ?thesis using m less[of zs] less[of ys] \<open>xs = Ok f # ys\<close> by (auto split: prod.splits option.splits)
    qed (use m less[of ys] less \<open>xs = Ok f # ys\<close> in \<open>auto split: prod.splits option.splits\<close>)
  qed (use less in auto)
qed

text \<open>More input never revises what was written for less.\<close>

lemma run_items_append:
  "run_items wants M s xs = (e, os, s') \<Longrightarrow>
   \<exists>e' os' s''. run_items wants M s (xs @ ys) = (e', os @ os', s'') \<and> (e \<noteq> PeerGone \<longrightarrow> (e', os', s'') = (e, [], s'))"
proof (induction "length xs" arbitrary: s xs e os s' rule: less_induct)
  case less
  show ?case
  proof (cases xs rule: items_cases)
    case 1
    then show ?thesis using less.prems by (cases "run_items wants M s ys") auto
  next
    case (2 er zs)
    then show ?thesis using less.prems less.hyps[of zs] by (auto split: if_splits)
  next
    case (3 f fs)
    obtain meta s1 where m: "m_pre M s f = (meta, s1)" by fastforce
    show ?thesis
    proof (cases "wants meta")
      case False
      then show ?thesis
        using less.prems less.hyps[of fs] m 3 by (fastforce split: prod.splits option.splits)
    next
      case True
      show ?thesis
      proof (cases fs rule: items_cases)
        case 1
        then show ?thesis
          using less.prems m True 3 by (cases "run_items wants M s (xs @ ys)") auto
      next
        case (2 er zs)
        then show ?thesis using less.prems less.hyps[of zs] m True 3 by (auto split: if_splits)
      next
        case (3 g zs)
        then show ?thesis
          using less.prems less.hyps[of zs] m True \<open>xs = Ok f # fs\<close>
          by (fastforce split: prod.splits option.splits)
      qed
    qed
  qed
qed

section \<open>Connections of machines\<close>

lemma connection_refines_machine_run:
  assumes "machine_connection c items outs \<sigma> M" and "handle_connection c w = Some (e, w')"
  obtains os where "run_items (wants_payload (c_lib c)) M (\<sigma> w) (items w) = (e, os, \<sigma> w')" and "outs w' = outs w @ os"
proof -
  obtain e1 os s' where run: "run_items (wants_payload (c_lib c)) M (\<sigma> w) (items w) = (e1, os, s')"
    using prod_cases3 by blast
  show thesis
    using machine_connection.handle_connection_runs[OF assms(1) run] run assms(2) that[of os] by auto
qed

text \<open>
  C3. The connection refines the machine: whatever state the handlers and the traffic processors keep,
  whatever frames and errors the stream delivers before it ends, and whether or not a handler dies, drops
  the hand-off sender or a send fails, \<^verbatim>\<open>handle_connection\<close> returns; it ends the way the machine
  ends, has written exactly the frames the machine writes, and leaves the state the machine leaves.
\<close>

theorem connection_refines_machine:
  assumes "machine_connection c items outs \<sigma> M"
  shows "\<exists>e w'. handle_connection c w = Some (e, w') \<and>
     (\<exists>os. run_items (wants_payload (c_lib c)) M (\<sigma> w) (items w) = (e, os, \<sigma> w') \<and> outs w' = outs w @ os)"
proof -
  obtain e os s' where "run_items (wants_payload (c_lib c)) M (\<sigma> w) (items w) = (e, os, s')"
    using prod_cases3 by blast
  then show ?thesis using machine_connection.handle_connection_runs[OF assms] by metis
qed

text \<open>
  C13. A frame that cannot be decoded.  A decoder's error ends the framed stream, so it is the last thing
  delivered: the connection then ends the same way, having written the same replies and left the same state,
  as if the peer had hung up just before the broken frame, whatever the kind of the error.
\<close>

theorem broken_frame_is_a_hang_up:
  assumes "machine_connection c items outs \<sigma> M"
    and "items w1 = xs @ [Err er]" and "items w2 = xs" and "\<sigma> w1 = \<sigma> w2"
  shows "\<exists>e w1' w2' os. handle_connection c w1 = Some (e, w1') \<and> handle_connection c w2 = Some (e, w2') \<and>
     outs w1' = outs w1 @ os \<and> outs w2' = outs w2 @ os \<and> \<sigma> w1' = \<sigma> w2'"
proof -
  obtain e os s' where run: "run_items (wants_payload (c_lib c)) M (\<sigma> w2) xs = (e, os, s')"
    using prod_cases3 by blast
  then have "run_items (wants_payload (c_lib c)) M (\<sigma> w1) (items w1) = (e, os, s')"
    by (simp add: assms(2,4) run_items_last_error)
  then obtain w1' where "handle_connection c w1 = Some (e, w1')" "outs w1' = outs w1 @ os" "\<sigma> w1' = s'"
    using machine_connection.handle_connection_runs[OF assms(1)] by metis
  moreover obtain w2' where "handle_connection c w2 = Some (e, w2')" "outs w2' = outs w2 @ os" "\<sigma> w2' = s'"
    using machine_connection.handle_connection_runs[OF assms(1), of w2] run assms(3) by metis
  ultimately show ?thesis by metis
qed

text \<open>
  C18. Replies are causal: what a connection writes for an input is the beginning of what it writes for any
  continuation of that input, and a connection that ended by itself (a dead task, a lost sender, a failed
  send) does not look at the continuation at all.
\<close>

theorem replies_are_causal:
  assumes "machine_connection c items outs \<sigma> M"
    and "items w2 = items w1 @ ys" and "\<sigma> w2 = \<sigma> w1" and "outs w2 = outs w1"
    and "handle_connection c w1 = Some (e, w1')" and "handle_connection c w2 = Some (e', w2')"
  shows "prefix (outs w1') (outs w2') \<and>
     (e \<noteq> PeerGone \<longrightarrow> e' = e \<and> outs w2' = outs w1' \<and> \<sigma> w2' = \<sigma> w1')"
proof -
  obtain os where 1: "run_items (wants_payload (c_lib c)) M (\<sigma> w1) (items w1) = (e, os, \<sigma> w1')" "outs w1' = outs w1 @ os"
    using connection_refines_machine_run[OF assms(1,5)] .
  obtain os2 where 2: "run_items (wants_payload (c_lib c)) M (\<sigma> w2) (items w2) = (e', os2, \<sigma> w2')" "outs w2' = outs w2 @ os2"
    using connection_refines_machine_run[OF assms(1,6)] .
  show ?thesis
    using run_items_append[OF 1(1), of ys] 1(2) 2 assms(2-4) by auto
qed

text \<open>A stream that is a queue, with handlers and processors that keep no state, is a machine with one state.\<close>

definition stateless ::
  "(bytes \<Rightarrow> bytes) \<Rightarrow> (bytes \<Rightarrow> bytes \<Rightarrow> bytes) \<Rightarrow> (bytes \<Rightarrow> bytes) \<Rightarrow> unit conn_machine" where
  "stateless pre rep post =
     \<lparr>m_pre = \<lambda>s b. (pre b, s), m_serve = \<lambda>s m p. (Reply (rep m p), s), m_post = \<lambda>s b. (post b, s),
      m_send = \<lambda>s b. (True, s)\<rparr>"

lemma duplex_is_machine:
  assumes "duplex c ins outs pre post" and "answering c ins outs UNIV rep"
  shows "machine_connection c (\<lambda>w. map Ok (ins w)) outs (\<lambda>w. ()) (stateless pre rep post)"
proof
  note fifo = fifo_streamE[OF duplex_fifo[OF assms(1)]]
  fix w x xs b meta payload tx rx
  show "map Ok (ins w) = [] \<Longrightarrow> \<exists>w'. framed_next (c_io c) (c_stream c) w = (None, w') \<and>
      map Ok (ins w') = [] \<and> outs w' = outs w \<and> () = ()"
    using fifo(1)[of w] by auto
  show "map Ok (ins w) = x # xs \<Longrightarrow> \<exists>w'. framed_next (c_io c) (c_stream c) w = (Some x, w') \<and>
      map Ok (ins w') = xs \<and> outs w' = outs w \<and> () = ()"
    using fifo(2)[of w] by auto
  show "\<exists>w'. pre_process_traffic (c_io c) (c_processor c) b w = (fst (m_pre (stateless pre rep post) () b), w') \<and>
      map Ok (ins w') = map Ok (ins w) \<and> outs w' = outs w \<and> () = snd (m_pre (stateless pre rep post) () b)"
    using fifo(5)[of b w] by (auto simp: stateless_def)
  show "\<exists>w'. post_process_traffic (c_io c) (c_processor c) b w = (fst (m_post (stateless pre rep post) () b), w') \<and>
      map Ok (ins w') = map Ok (ins w) \<and> outs w' = outs w \<and> () = snd (m_post (stateless pre rep post) () b)"
    using fifo(6)[of b w] by (auto simp: stateless_def)
  show "\<exists>r w'. framed_send (c_io c) (c_stream c) b w = (r, w') \<and> is_ok r = fst (m_send (stateless pre rep post) () b) \<and>
      map Ok (ins w') = map Ok (ins w) \<and> outs w' = outs w @ (if is_ok r then [b] else []) \<and>
      () = snd (m_send (stateless pre rep post) () b)"
    using fifo(3)[of b w] by (auto simp: stateless_def)
  show "outs (snd (framed_close (c_io c) (c_stream c) w)) = outs w \<and> () = ()"
    using fifo(4)[of w] by simp
  show "\<exists>w'. oneshot_try_recv (c_handoff c) rx w = (None, w') \<and>
      map Ok (ins w') = map Ok (ins w) \<and> outs w' = outs w \<and> () = ()"
    using assms(1) unfolding duplex_def untouched_def by metis
  show "map Ok (ins (snd (oneshot_channel (c_handoff c) w))) = map Ok (ins w) \<and>
      outs (snd (oneshot_channel (c_handoff c) w)) = outs w \<and> () = ()"
    using assms(1) unfolding duplex_def untouched_def by metis
  obtain res w' where "serve_packet (c_lib c) (c_router c) meta payload (c_addr c, Some tx) w = (Returned (res, Some tx), w')"
      "untouched ins outs w w'"
      "(case res of Ok b \<Rightarrow> Some b | Err e \<Rightarrow> to_bytes_ServerError (c_lib c) e) = Some (rep meta payload)"
    by (rule answeringD[OF assms(2) UNIV_I])
  then show "\<exists>r w'. serve_packet (c_lib c) (c_router c) meta payload (c_addr c, Some tx) w = (r, w') \<and>
      map Ok (ins w') = map Ok (ins w) \<and> outs w' = outs w \<and>
      () = snd (m_serve (stateless pre rep post) () meta payload) \<and>
      seen_as (c_lib c) r = fst (m_serve (stateless pre rep post) () meta payload)"
    by (auto simp: stateless_def untouched_def seen_as_def)
qed

lemma stateless_run:
  "run_items (wants_payload L) (stateless pre rep post) s (map Ok fs) =
     (PeerGone, map (\<lambda>(m, p). post (rep m p)) (packets L (map pre fs)), s)"
proof (induction fs rule: length_induct)
  case (1 fs)
  have step [simp]: "m_pre (stateless pre rep post) s b = (pre b, s)"
    "answer (stateless pre rep post) s m p = ([post (rep m p)], None, s)" for s b m p
    by (simp_all add: stateless_def answer_def)
  show ?case
  proof (cases fs)
    case (Cons f gs)
    show ?thesis
    proof (cases "wants_payload L (pre f)")
      case True
      then show ?thesis using 1 Cons by (cases gs) auto
    next
      case False
      then show ?thesis using 1 Cons by simp
    qed
  qed simp
qed

section \<open>Example\<close>

text \<open>
  A server with state: a processor that numbers its replies, and a handler that echoes twice and then
  dies.
\<close>

record iworld =
  i_items :: "item list"
  i_out :: "bytes list"
  i_count :: nat

definition numbering_io :: "iworld conn_io" where
  "numbering_io =
     \<lparr>framed_next = (\<lambda>f w. case i_items w of [] \<Rightarrow> (None, w) | x # xs \<Rightarrow> (Some x, w\<lparr>i_items := xs\<rparr>)),
      framed_send = (\<lambda>f b w. (Ok (), w\<lparr>i_out := i_out w @ [b]\<rparr>)),
      framed_close = (\<lambda>f w. (Ok (), w)),
      framed_new = (\<lambda>t cd w. (t, w)),
      pre_process_traffic = (\<lambda>p b w. (b, w)),
      post_process_traffic = (\<lambda>p b w. (of_nat (i_count w) # b, w\<lparr>i_count := Suc (i_count w)\<rparr>)),
      processor_new = (\<lambda>w. (0, w)),
      processor_clone = (\<lambda>p w. (p, w))\<rparr>"

definition mortal_route :: "(u64, iworld) route" where
  "mortal_route =
     \<lparr>state = 0, serve = boxed (\<lambda>st addr tx t data w. (if i_count w < 2 then Returned (Ok data, tx) else Panicked, w))\<rparr>"

abbreviation mortal_regs :: "(u64, iworld) registration list" where
  "mortal_regs \<equiv> [(mortal_route, ''M'', [0])]"

definition mortal_conn :: "(u64, u64, iworld) connection" where
  "mortal_conn =
     \<lparr>c_lib = sample_lib, c_io = numbering_io, c_handoff = quiet_handoff,
      c_router = build_router sample_lib 0 mortal_regs, c_addr = ''peer'', c_stream = 0, c_processor = 0\<rparr>"

definition mortal_machine :: "nat conn_machine" where
  "mortal_machine =
     \<lparr>m_pre = \<lambda>s b. (b, s),
      m_serve = \<lambda>s meta payload.
        (case dispatch_of sample_lib 0 mortal_regs meta of
           Call rt t \<Rightarrow> if s < 2 then Reply payload else LastReply (5 # 1 # handler_died)
         | Answer i \<Rightarrow> Reply (3 # bits64 i)
         | NoRoute \<Rightarrow> Reply (sample_error (ServerError (NoSuchHandler None)))
         | Malformed \<Rightarrow> Reply (sample_error (ServerError (MalformedMetaInfo None))), s),
      m_post = \<lambda>s b. (of_nat s # b, Suc s),
      m_send = \<lambda>s b. (True, s)\<rparr>"

lemma mortal_serve:
  "serve_packet sample_lib (build_router sample_lib 0 mortal_regs) meta payload (a, tx) w =
     (Returned (case dispatch_of sample_lib 0 mortal_regs meta of
        Call rt t \<Rightarrow> if i_count w < 2 then (Ok payload, tx) else (Err (ServerError (InternalError (Some handler_died))), None)
      | Answer i \<Rightarrow> (Ok (3 # bits64 i), tx)
      | NoRoute \<Rightarrow> (Err (ServerError (NoSuchHandler None)), tx)
      | Malformed \<Rightarrow> (Err (ServerError (MalformedMetaInfo None)), tx)), w)"
proof -
  have "serve_packet sample_lib (build_router sample_lib 0 mortal_regs) meta payload (a, tx) w =
      serve_spec sample_lib 0 mortal_regs meta payload (a, tx) w"
    by (rule serve_packet_eq_spec[OF sample_key_laws]) simp
  then show ?thesis
    using dispatch_of_Call[of sample_lib 0 mortal_regs meta]
    by (auto simp: serve_spec_def run_handler_def handler_value_def mortal_route_def boxed_def split: dispatch.splits)
qed

interpretation mortal: machine_connection mortal_conn i_items i_out i_count mortal_machine
  by unfold_locales
     (auto simp: mortal_conn_def numbering_io_def mortal_machine_def mortal_serve seen_as_def split: dispatch.splits)

lemma mortal_dispatch [simp]: "dispatch_of sample_lib 0 mortal_regs sample_meta = Call mortal_route 0"
  by (simp add: dispatch_of_def spec_route_def)

definition mortal_input :: "item list" where
  "mortal_input = [Ok sample_meta, Ok [7], Ok [9], Ok sample_meta, Ok [8], Ok sample_meta, Ok [6]]"

lemma mortal_answer [simp]:
  "answer mortal_machine s sample_meta p =
     (if s < 2 then ([of_nat s # p], None, Suc s) else ([of_nat s # 5 # 1 # handler_died], Some MoveSignalGone, Suc s))"
  "answer mortal_machine s [9] p = ([[of_nat s, 6]], None, Suc s)"
  by (simp_all add: answer_def mortal_machine_def) (simp add: dispatch_of_def)

lemma mortal_run:
  "run_items (wants_payload (c_lib mortal_conn)) mortal_machine 0 mortal_input =
     (MoveSignalGone, [[0, 7], [1, 6], 2 # 5 # 1 # handler_died], 3)"
proof -
  have "m_pre mortal_machine s b = (b, s)" for s b by (simp add: mortal_machine_def)
  then show ?thesis by (simp add: mortal_input_def mortal_conn_def wants_payload_def)
qed

theorem connection_refines_machine_witness:
  "\<exists>e w'. handle_connection mortal_conn \<lparr>i_items = mortal_input, i_out = [], i_count = 0\<rparr> = Some (e, w') \<and>
     e = MoveSignalGone \<and> i_count w' = 3 \<and> i_out w' = [[0, 7], [1, 6], 2 # 5 # 1 # handler_died]"
  using connection_refines_machine[OF mortal.machine_connection_axioms,
      of "\<lparr>i_items = mortal_input, i_out = [], i_count = 0\<rparr>"]
  by (auto simp: mortal_run)

theorem broken_frame_is_a_hang_up_witness:
  "\<exists>e w1 w2. handle_connection mortal_conn
       \<lparr>i_items = [Ok sample_meta, Ok [7], Err \<lparr>kind = InvalidData, io_msg = ''too long''\<rparr>], i_out = [], i_count = 0\<rparr> =
       Some (e, w1) \<and>
     handle_connection mortal_conn \<lparr>i_items = [Ok sample_meta, Ok [7]], i_out = [], i_count = 0\<rparr> = Some (e, w2) \<and>
     i_out w1 = i_out w2"
  using broken_frame_is_a_hang_up[OF mortal.machine_connection_axioms,
      of "\<lparr>i_items = [Ok sample_meta, Ok [7], Err \<lparr>kind = InvalidData, io_msg = ''too long''\<rparr>], i_out = [], i_count = 0\<rparr>"
        "[Ok sample_meta, Ok [7]]" "\<lparr>kind = InvalidData, io_msg = ''too long''\<rparr>"
        "\<lparr>i_items = [Ok sample_meta, Ok [7]], i_out = [], i_count = 0\<rparr>"]
  by auto

theorem replies_are_causal_witness:
  "\<exists>e e' w1 w2. handle_connection mortal_conn \<lparr>i_items = [Ok sample_meta, Ok [7]], i_out = [], i_count = 0\<rparr> = Some (e, w1) \<and>
     handle_connection mortal_conn \<lparr>i_items = mortal_input, i_out = [], i_count = 0\<rparr> = Some (e', w2) \<and>
     prefix (i_out w1) (i_out w2)"
proof -
  let ?w1 = "\<lparr>i_items = [Ok sample_meta, Ok [7]], i_out = [], i_count = 0\<rparr>"
  let ?w2 = "\<lparr>i_items = mortal_input, i_out = [], i_count = 0\<rparr>"
  obtain e1 v1 where 1: "handle_connection mortal_conn ?w1 = Some (e1, v1)"
    using mortal.handle_connection_runs[of ?w1] prod_cases3 by metis
  obtain e2 v2 where 2: "handle_connection mortal_conn ?w2 = Some (e2, v2)"
    using mortal.handle_connection_runs[of ?w2] prod_cases3 by metis
  have "prefix (i_out v1) (i_out v2)"
    using replies_are_causal[OF mortal.machine_connection_axioms _ _ _ 1 2] by (simp add: mortal_input_def)
  then show ?thesis using 1 2 by blast
qed

end
