(* ===== verification/Connection_Close.thy ===== *)
theory Connection_Close
  imports Connection
begin

text \<open>
  When a connection closes its stream.  The loop has five ways to end; which of them close the stream, and how
  often, whatever the peer, the handlers, the traffic processors and the transport do.
\<close>

section \<open>Counting the closes\<close>

text \<open>\<open>closes\<close> counts the calls that close the stream; nothing else changes it.\<close>

definition closing_stream :: "('st, 'tc, 'w) connection \<Rightarrow> ('w \<Rightarrow> nat) \<Rightarrow> bool" where
  "closing_stream c closes \<longleftrightarrow>
     kept closes (framed_next (c_io c) (c_stream c)) \<and>
     (\<forall>b. kept closes (framed_send (c_io c) (c_stream c) b)) \<and>
     (\<forall>w. closes (snd (framed_close (c_io c) (c_stream c) w)) = Suc (closes w)) \<and>
     (\<forall>b. kept closes (pre_process_traffic (c_io c) (c_processor c) b)) \<and>
     (\<forall>b. kept closes (post_process_traffic (c_io c) (c_processor c) b)) \<and>
     kept closes (oneshot_channel (c_handoff c)) \<and>
     (\<forall>rx. kept closes (oneshot_try_recv (c_handoff c) rx)) \<and>
     (\<forall>meta payload tx. kept closes (serve_packet (c_lib c) (c_router c) meta payload (c_addr c, tx)))"

lemma closing_kept:
  assumes "closing_stream c closes"
  shows "kept closes (framed_next (c_io c) (c_stream c))"
    and "kept closes (framed_send (c_io c) (c_stream c) b)"
    and "kept closes (pre_process_traffic (c_io c) (c_processor c) b)"
    and "kept closes (post_process_traffic (c_io c) (c_processor c) b)"
    and "kept closes (oneshot_channel (c_handoff c))"
    and "kept closes (oneshot_try_recv (c_handoff c) rx)"
    and "kept closes (serve_packet (c_lib c) (c_router c) meta payload (c_addr c, tx))"
  using assms by (simp_all add: closing_stream_def)

lemmas closing_others = closing_kept[THEN keptD]

lemma closing_close:
  assumes "closing_stream c closes" and "close_and_exit c e w = (ctl, w')"
  shows "ctl = Exit e \<and> closes w' = Suc (closes w)"
  using assms unfolding closing_stream_def close_and_exit_def by (auto split: prod.splits dest!: spec[of _ w])

text \<open>
  How often an end of an iteration has closed the stream; a stream that was handed over, or whose task panicked,
  is no longer the loop's.
\<close>

fun closes_at :: "conn_ctl \<Rightarrow> nat option" where
  "closes_at (Continue tx) = Some 0"
| "closes_at (Exit PeerGone) = Some 1"
| "closes_at (Exit MoveSignalGone) = Some 1"
| "closes_at (Exit SendFailed) = Some 0"
| "closes_at (Exit HandedOff) = None"
| "closes_at (Exit TaskPanicked) = None"

lemma receive_closes:
  assumes "closing_stream c closes" and "receive_message (c_io c) (c_stream c) (c_processor c) w = (r, w')"
  shows "closes w' = closes w"
  using assms(2)
  by (auto simp: receive_message_def split: outcome_splits dest!: closing_others(1,3)[OF assms(1)])

lemma send_closes:
  assumes "closing_stream c closes" and "send_message (c_io c) (c_stream c) b (c_processor c) w = (r, w')"
  shows "closes w' = closes w"
  using assms(2)
  by (auto simp: send_message_def split: outcome_splits dest!: closing_others(2,4)[OF assms(1)])

lemma serve_closes:
  assumes "closing_stream c closes" and "serve_and_reply c rx meta payload tx w = (ctl, w')" and "closes_at ctl = Some n"
  shows "closes w' = closes w + n"
  using assms(2,3)
  by (auto simp: serve_and_reply_def hand_off_def split: outcome_splits if_splits
        dest!: closing_others(6,7)[OF assms(1)] send_closes[OF assms(1)] closing_close[OF assms(1)])

lemma iter_closes:
  assumes "closing_stream c closes" and "conn_iter c rx tx w = (ctl, w')" and "closes_at ctl = Some n"
  shows "closes w' = closes w + n"
  using assms(2,3)
  by (auto simp: conn_iter_def split: outcome_splits if_splits
        dest!: receive_closes[OF assms(1)] closing_close[OF assms(1)] serve_closes[OF assms(1)])

lemma loop_closes:
  assumes "closing_stream c closes" and "conn_loop c rx tx w = Some (e, w')"
  shows "closes_at (Exit e) = Some n \<longrightarrow> closes w' = closes w + n"
  using assms(2)
proof (induction rule: conn_loop_induct)
  case (Exit tx w e w')
  then show ?case using iter_closes[OF assms(1)] by blast
next
  case (Continue tx w tx' w1 e w')
  then show ?case using iter_closes[OF assms(1) Continue(1)] by simp
qed

text \<open>
  C16. A connection closes its stream exactly once when its peer is gone or the hand-off sender is lost, and not at
  all when a reply could not be sent: the close on that path is never awaited.  This holds whatever the peer, the
  handlers, the traffic processors and the transport do.
\<close>

theorem stream_closed_once_unless_send_failed:
  assumes "closing_stream c closes" and "handle_connection c w = Some (e, w')"
  shows "(e = PeerGone \<or> e = MoveSignalGone \<longrightarrow> closes w' = closes w + 1) \<and>
     (e = SendFailed \<longrightarrow> closes w' = closes w)"
proof -
  obtain tx rx w1 where ch: "oneshot_channel (c_handoff c) w = ((tx, rx), w1)" by (metis surj_pair)
  have "conn_loop c rx (Some tx) w1 = Some (e, w')" using assms(2) ch by (simp add: handle_connection_def)
  then show ?thesis
    using loop_closes[OF assms(1)] closing_others(5)[OF assms(1) ch] by fastforce
qed

section \<open>Example\<close>

text \<open>A transport that refuses every frame: the frames to be read, and the number of closes.\<close>

definition mute_io :: "(bytes list \<times> nat) conn_io" where
  "mute_io =
     \<lparr>framed_next = \<lambda>f w. (case fst w of [] \<Rightarrow> (None, w) | x # xs \<Rightarrow> (Some (Ok x), (xs, snd w))),
      framed_send = \<lambda>f b w. (Err \<lparr>kind = BrokenPipe, io_msg = ''gone''\<rparr>, w),
      framed_close = \<lambda>f w. (Ok (), (fst w, Suc (snd w))), framed_new = \<lambda>t cd w. (t, w),
      pre_process_traffic = \<lambda>p b w. (b, w), post_process_traffic = \<lambda>p b w. (b, w),
      processor_new = \<lambda>w. (0, w), processor_clone = \<lambda>p w. (p, w)\<rparr>"

definition mute_conn :: "(u64, u64, bytes list \<times> nat) connection" where
  "mute_conn =
     \<lparr>c_lib = sample_lib, c_io = mute_io, c_handoff = quiet_handoff, c_router = router_new 0, c_addr = ''peer'',
      c_stream = 0, c_processor = 0\<rparr>"

lemma mute_closing: "closing_stream mute_conn snd"
  by (auto simp: closing_stream_def kept_def mute_conn_def mute_io_def routeless_serve split: list.split)

lemma mute_runs:
  "handle_connection mute_conn ([[9]], 0) = Some (SendFailed, ([], 0))"
  "handle_connection mute_conn ([], 0) = Some (PeerGone, ([], 1))"
proof -
  have "conn_iter mute_conn 1 (Some 1) ([[9]], 0) = (Exit SendFailed, ([], 0))"
    by (simp add: conn_defs receive_message_def wants_payload_def serve_packet_def send_message_def mute_conn_def mute_io_def)
  moreover have "conn_iter mute_conn 1 (Some 1) ([], 0) = (Exit PeerGone, ([], 1))"
    by (simp add: conn_defs receive_message_def mute_conn_def mute_io_def)
  moreover have "oneshot_channel (c_handoff mute_conn) w = ((1, 1), w)" for w by (simp add: mute_conn_def)
  ultimately show "handle_connection mute_conn ([[9]], 0) = Some (SendFailed, ([], 0))"
    "handle_connection mute_conn ([], 0) = Some (PeerGone, ([], 1))"
    by (simp_all add: handle_connection_def conn_loop_Exit)
qed

theorem stream_closed_once_unless_send_failed_witness:
  "handle_connection mute_conn ([[9]], 0) = Some (SendFailed, ([], 0)) \<and> snd ([] :: bytes list, 0 :: nat) = 0 \<and>
   handle_connection mute_conn ([], 0) = Some (PeerGone, ([], 1)) \<and> snd ([] :: bytes list, 1 :: nat) = 0 + 1"
  using stream_closed_once_unless_send_failed[OF mute_closing mute_runs(1)]
    stream_closed_once_unless_send_failed[OF mute_closing mute_runs(2)] mute_runs by simp

end
