(* ===== verification/Server.thy ===== *)
theory Server
  imports Connection
begin

text \<open>
  The server object of \<^verbatim>\<open>src/server/server.rs\<close>: binding, the acceptor task, the
  set-up of an accepted stream, and stopping.  The features \<^verbatim>\<open>tls\<close> and
  \<^verbatim>\<open>websocket\<close> are on.  The acceptor awaits either a new stream or the stop
  signal; which one completes is a value of the external \<open>acceptor_select\<close>.  The set-up of a
  stream waits for the peer inside the acceptor, and a peer may never answer: these operations, and
  the wait for the next event, return \<open>None\<close> when they never complete.  A
  connection task is started by \<open>spawn_connection\<close>; its body is
  \<open>handle_connection\<close>.
\<close>

section \<open>Definitions\<close>

datatype server_mode = SM_Tcp | SM_WebSocket

datatype acceptor_event =
    Accepted nat socket_addr
  | AcceptFailed io_error
  | ShutdownNotified

record 'w server_net =
  tcp_bind :: "string \<Rightarrow> 'w \<Rightarrow> (nat, io_error) result \<times> 'w"
  notify_new :: "'w \<Rightarrow> nat \<times> 'w"
  notify_waiters :: "nat \<Rightarrow> 'w \<Rightarrow> 'w"
  acceptor_select :: "nat \<Rightarrow> nat \<Rightarrow> 'w \<Rightarrow> (acceptor_event \<times> 'w) option"
  stream_set_nodelay :: "nat \<Rightarrow> 'w \<Rightarrow> (unit, io_error) result \<times> 'w"
  codec_clone :: "codec \<Rightarrow> 'w \<Rightarrow> codec \<times> 'w"
  codec_initial_setup :: "codec \<Rightarrow> transport \<Rightarrow> 'w \<Rightarrow> (bool \<times> 'w) option"
  tls_accept :: "nat \<Rightarrow> nat \<Rightarrow> 'w \<Rightarrow> ((nat, string) result \<times> 'w) option"
  plain_transport :: "nat \<Rightarrow> transport"
  tls_server_transport :: "nat \<Rightarrow> transport"
  accept_websocket :: "transport \<Rightarrow> 'w \<Rightarrow> ((transport, string) result \<times> 'w) option"
  initial_connect :: "processor \<Rightarrow> transport \<Rightarrow> 'w \<Rightarrow> (bool \<times> 'w) option"
  initial_framed_connect :: "processor \<Rightarrow> framed \<Rightarrow> 'w \<Rightarrow> (bool \<times> 'w) option"
  transport_shutdown :: "transport \<Rightarrow> 'w \<Rightarrow> ((unit, io_error) result \<times> 'w) option"
  spawn_connection :: "socket_addr \<times> framed \<times> processor \<Rightarrow> 'w \<Rightarrow> 'w"

record ('st, 'tc, 'w) tf_server =
  srv_router :: "('st, 'tc, 'w) tf_server_router"
  srv_socket :: nat
  srv_shutdown_sig :: nat
  srv_processor :: "processor option"
  srv_codec :: codec
  srv_config :: "nat option"
  srv_mode :: server_mode

definition tf_server_new ::
  "'w server_net \<Rightarrow> string \<Rightarrow> ('st, 'tc, 'w) tf_server_router \<Rightarrow> processor option \<Rightarrow> codec
     \<Rightarrow> nat option \<Rightarrow> server_mode \<Rightarrow> 'w \<Rightarrow> (('st, 'tc, 'w) tf_server, io_error) result \<times> 'w" where
  "tf_server_new N bind_address rtr processor cd config mode w =
     (case tcp_bind N bind_address w of
        (Err e, w1) \<Rightarrow> (Err e, w1)
      | (Ok socket, w1) \<Rightarrow>
          (case notify_new N w1 of (sig, w2) \<Rightarrow>
             (Ok \<lparr>srv_router = rtr, srv_socket = socket, srv_shutdown_sig = sig,
                  srv_processor = processor, srv_codec = cd, srv_config = config,
                  srv_mode = mode\<rparr>, w2)))"

definition initial_accept ::
  "'w server_net \<Rightarrow> nat \<Rightarrow> nat option \<Rightarrow> codec \<Rightarrow> server_mode \<Rightarrow> 'w
     \<Rightarrow> ((transport \<times> codec) option \<times> 'w) option" where
  "initial_accept N stream config codec_setup mode w =
     (case (case config of
              None \<Rightarrow> Some (Some (plain_transport N stream), w)
            | Some cfg \<Rightarrow>
                (case tls_accept N cfg stream w of
                   None \<Rightarrow> None
                 | Some (Ok tls, w1) \<Rightarrow> Some (Some (tls_server_transport N tls), w1)
                 | Some (Err e, w1) \<Rightarrow> Some (None, w1))) of
        None \<Rightarrow> None
      | Some (None, w1) \<Rightarrow> Some (None, w1)
      | Some (Some transport, w1) \<Rightarrow>
          (case (case mode of
                   SM_Tcp \<Rightarrow> Some (Some transport, w1)
                 | SM_WebSocket \<Rightarrow>
                     (case accept_websocket N transport w1 of
                        None \<Rightarrow> None
                      | Some (Ok ws_stream, w2) \<Rightarrow> Some (Some ws_stream, w2)
                      | Some (Err e, w2) \<Rightarrow> Some (None, w2))) of
             None \<Rightarrow> None
           | Some (None, w2) \<Rightarrow> Some (None, w2)
           | Some (Some transport', w2) \<Rightarrow>
               (case codec_initial_setup N codec_setup transport' w2 of
                  None \<Rightarrow> None
                | Some (ok, w3) \<Rightarrow>
                    (if \<not> ok then Some (None, w3) else Some (Some (transport', codec_setup), w3)))))"

text \<open>The captured variables of the acceptor task.\<close>

record acceptor =
  a_listener :: nat
  a_shutdown_sig :: nat
  a_processor :: processor
  a_codec :: codec
  a_config :: "nat option"
  a_mode :: server_mode

text \<open>What the acceptor does with an accepted stream.\<close>

definition admit ::
  "'w server_net \<Rightarrow> 'w conn_io \<Rightarrow> acceptor \<Rightarrow> nat \<Rightarrow> socket_addr \<Rightarrow> 'w \<Rightarrow> 'w option" where
  "admit N IO a stream addr w =
     (case stream_set_nodelay N stream w of (_, w1) \<Rightarrow>
      (case codec_clone N (a_codec a) w1 of (cd, w2) \<Rightarrow>
       (case initial_accept N stream (a_config a) cd (a_mode a) w2 of
          None \<Rightarrow> None
        | Some (None, w3) \<Rightarrow> Some w3
        | Some (Some (transport, cd'), w3) \<Rightarrow>
            (case initial_connect N (a_processor a) transport w3 of
               None \<Rightarrow> None
             | Some (ok, w4) \<Rightarrow>
                 (if ok then
                    (case framed_new IO transport cd' w4 of (framed, w5) \<Rightarrow>
                       (case initial_framed_connect N (a_processor a) framed w5 of
                          None \<Rightarrow> None
                        | Some (ok', w6) \<Rightarrow>
                            (if ok' then
                               (case processor_clone IO (a_processor a) w6 of (prc_clone, w7) \<Rightarrow>
                                  Some (spawn_connection N (addr, framed, prc_clone) w7))
                             else Some w6)))
                  else (case transport_shutdown N transport w4 of
                          None \<Rightarrow> None
                        | Some (_, w5) \<Rightarrow> Some w5))))))"

partial_function (option) acceptor_loop ::
  "'w server_net \<Rightarrow> 'w conn_io \<Rightarrow> acceptor \<Rightarrow> 'w \<Rightarrow> 'w option" where
  "acceptor_loop N IO a w =
     (case acceptor_select N (a_listener a) (a_shutdown_sig a) w of
        None \<Rightarrow> None
      | Some (Accepted stream addr, w1) \<Rightarrow>
          Option.bind (admit N IO a stream addr w1) (acceptor_loop N IO a)
      | Some (AcceptFailed e, w1) \<Rightarrow> acceptor_loop N IO a w1
      | Some (ShutdownNotified, w1) \<Rightarrow> Some w1)"

text \<open>
  \<^verbatim>\<open>start\<close> takes the processor out of the server, clones the rest and spawns the
  acceptor; the model returns the changed server and the acceptor task.
\<close>

definition server_start ::
  "'w server_net \<Rightarrow> 'w conn_io \<Rightarrow> ('st, 'tc, 'w) tf_server \<Rightarrow> 'w
     \<Rightarrow> (acceptor \<times> ('st, 'tc, 'w) tf_server) \<times> 'w" where
  "server_start N IO sv w =
     (case (case srv_processor sv of Some p \<Rightarrow> (p, w) | None \<Rightarrow> processor_new IO w) of
        (processor, w1) \<Rightarrow>
          (case codec_clone N (srv_codec sv) w1 of (cd, w2) \<Rightarrow>
             ((\<lparr>a_listener = srv_socket sv, a_shutdown_sig = srv_shutdown_sig sv,
                a_processor = processor, a_codec = cd, a_config = srv_config sv,
                a_mode = srv_mode sv\<rparr>,
               sv\<lparr>srv_processor := None\<rparr>), w2)))"

definition send_stop :: "'w server_net \<Rightarrow> ('st, 'tc, 'w) tf_server \<Rightarrow> 'w \<Rightarrow> 'w" where
  "send_stop N sv w = notify_waiters N (srv_shutdown_sig sv) w"

section \<open>Set-up of a stream\<close>

text \<open>
  A stream is admitted only through every gate, in order: TLS when a configuration is
  given, then the WebSocket upgrade in that mode, then the codec's set-up on the resulting
  transport.
\<close>

inductive accepted_as ::
  "'w server_net \<Rightarrow> nat option \<Rightarrow> codec \<Rightarrow> server_mode \<Rightarrow> nat \<Rightarrow> 'w \<Rightarrow> transport \<Rightarrow> 'w \<Rightarrow> bool"
  for N config cd mode stream w where
  gates: "(case config of
       None \<Rightarrow> t1 = plain_transport N stream \<and> w1 = w
     | Some cfg \<Rightarrow> (\<exists>tls. tls_accept N cfg stream w = Some (Ok tls, w1) \<and> t1 = tls_server_transport N tls)) \<Longrightarrow>
   (case mode of
       SM_Tcp \<Rightarrow> t2 = t1 \<and> w2 = w1
     | SM_WebSocket \<Rightarrow> accept_websocket N t1 w1 = Some (Ok t2, w2)) \<Longrightarrow>
   codec_initial_setup N cd t2 w2 = Some (True, w3) \<Longrightarrow>
   accepted_as N config cd mode stream w t2 w3"

inductive_simps accepted_as_iff: "accepted_as N config cd mode stream w t w'"

text \<open>
  \<^verbatim>\<open>initial_accept\<close> hands out a transport exactly when every gate let the stream
  through, with the codec that was set up on it; otherwise the stream is given up, or the peer keeps
  the set-up waiting.
\<close>

theorem initial_accept_iff_gates:
  "initial_accept N stream config cd mode w = Some (Some (t, cd'), w') \<longleftrightarrow>
     cd' = cd \<and> accepted_as N config cd mode stream w t w'"
  by (cases config; cases mode)
     (auto simp: initial_accept_def accepted_as_iff split: outcome_splits)

section \<open>The acceptor\<close>

text \<open>
  A view of the world that the operations of the acceptor keep, spawning and selecting
  apart.
\<close>

definition accept_preserves :: "'w server_net \<Rightarrow> 'w conn_io \<Rightarrow> ('w \<Rightarrow> 'v) \<Rightarrow> bool" where
  "accept_preserves N IO v \<longleftrightarrow>
     (\<forall>s. kept v (stream_set_nodelay N s)) \<and>
     (\<forall>c. kept v (codec_clone N c)) \<and>
     (\<forall>c t. kept_if_done v (codec_initial_setup N c t)) \<and>
     (\<forall>c s. kept_if_done v (tls_accept N c s)) \<and>
     (\<forall>t. kept_if_done v (accept_websocket N t)) \<and>
     (\<forall>p t. kept_if_done v (initial_connect N p t)) \<and>
     (\<forall>p f. kept_if_done v (initial_framed_connect N p f)) \<and>
     (\<forall>t. kept_if_done v (transport_shutdown N t)) \<and>
     (\<forall>t c. kept v (framed_new IO t c)) \<and>
     (\<forall>p. kept v (processor_clone IO p))"

lemma accept_preservesD:
  assumes "accept_preserves N IO v"
  shows "stream_set_nodelay N s w = (r1, w') \<Longrightarrow> v w' = v w"
    and "codec_clone N c w = (r2, w') \<Longrightarrow> v w' = v w"
    and "codec_initial_setup N c t w = Some (r3, w') \<Longrightarrow> v w' = v w"
    and "tls_accept N c s w = Some (r4, w') \<Longrightarrow> v w' = v w"
    and "accept_websocket N t w = Some (r5, w') \<Longrightarrow> v w' = v w"
    and "initial_connect N p t w = Some (r6, w') \<Longrightarrow> v w' = v w"
    and "initial_framed_connect N p f w = Some (r7, w') \<Longrightarrow> v w' = v w"
    and "transport_shutdown N t w = Some (r8, w') \<Longrightarrow> v w' = v w"
    and "framed_new IO t c w = (r9, w') \<Longrightarrow> v w' = v w"
    and "processor_clone IO p w = (r10, w') \<Longrightarrow> v w' = v w"
  using assms unfolding accept_preserves_def kept_def kept_if_done_def by (metis snd_conv)+

lemma initial_accept_preserves:
  assumes "accept_preserves N IO v" and "initial_accept N stream config cd mode w = Some (r, w')"
  shows "v w' = v w"
  using assms(2)
  by (auto simp: initial_accept_def split: outcome_splits server_mode.splits
        dest!: accept_preservesD(3-5)[OF assms(1)])

text \<open>The gates in front of a connection task, as one relation.\<close>

inductive admitted ::
  "'w server_net \<Rightarrow> 'w conn_io \<Rightarrow> acceptor \<Rightarrow> nat \<Rightarrow> 'w \<Rightarrow> framed \<times> processor \<Rightarrow> bool"
  for N IO a stream w where
  admittedI: "stream_set_nodelay N stream w = (r, w1) \<Longrightarrow>
   codec_clone N (a_codec a) w1 = (cd, w2) \<Longrightarrow>
   initial_accept N stream (a_config a) cd (a_mode a) w2 = Some (Some (transport, cd'), w3) \<Longrightarrow>
   initial_connect N (a_processor a) transport w3 = Some (True, w4) \<Longrightarrow>
   framed_new IO transport cd' w4 = (framed, w5) \<Longrightarrow>
   initial_framed_connect N (a_processor a) framed w5 = Some (True, w6) \<Longrightarrow>
   processor_clone IO (a_processor a) w6 = (prc, w7) \<Longrightarrow>
   admitted N IO a stream w (framed, prc)"

text \<open>
  A peer that keeps the acceptor waiting: the set-up of the transport, a check of the traffic
  processor, or the shutdown of a refused transport never completes.
\<close>

inductive stalls :: "'w server_net \<Rightarrow> 'w conn_io \<Rightarrow> acceptor \<Rightarrow> nat \<Rightarrow> 'w \<Rightarrow> bool" for N IO a stream w where
  at_set_up: "stream_set_nodelay N stream w = (r, w1) \<Longrightarrow> codec_clone N (a_codec a) w1 = (cd, w2) \<Longrightarrow>
   initial_accept N stream (a_config a) cd (a_mode a) w2 = None \<Longrightarrow> stalls N IO a stream w"
| at_check: "stream_set_nodelay N stream w = (r, w1) \<Longrightarrow> codec_clone N (a_codec a) w1 = (cd, w2) \<Longrightarrow>
   initial_accept N stream (a_config a) cd (a_mode a) w2 = Some (Some (transport, cd'), w3) \<Longrightarrow>
   initial_connect N (a_processor a) transport w3 = None \<Longrightarrow> stalls N IO a stream w"
| at_framed_check: "stream_set_nodelay N stream w = (r, w1) \<Longrightarrow> codec_clone N (a_codec a) w1 = (cd, w2) \<Longrightarrow>
   initial_accept N stream (a_config a) cd (a_mode a) w2 = Some (Some (transport, cd'), w3) \<Longrightarrow>
   initial_connect N (a_processor a) transport w3 = Some (True, w4) \<Longrightarrow>
   framed_new IO transport cd' w4 = (framed, w5) \<Longrightarrow>
   initial_framed_connect N (a_processor a) framed w5 = None \<Longrightarrow> stalls N IO a stream w"
| at_shutdown: "stream_set_nodelay N stream w = (r, w1) \<Longrightarrow> codec_clone N (a_codec a) w1 = (cd, w2) \<Longrightarrow>
   initial_accept N stream (a_config a) cd (a_mode a) w2 = Some (Some (transport, cd'), w3) \<Longrightarrow>
   initial_connect N (a_processor a) transport w3 = Some (False, w4) \<Longrightarrow>
   transport_shutdown N transport w4 = None \<Longrightarrow> stalls N IO a stream w"

lemma admit_stalls: "admit N IO a stream addr w = None \<longleftrightarrow> stalls N IO a stream w"
  by (auto simp: admit_def stalls.simps split: outcome_splits)

lemma admitted_does_not_stall: "admitted N IO a stream w fp \<Longrightarrow> \<not> stalls N IO a stream w"
  by (auto simp: admitted.simps stalls.simps)

lemma started_iff_admitted:
  assumes "accept_preserves N IO started"
    and "\<forall>t w. started (spawn_connection N t w) = started w @ [t]"
    and "admit N IO a stream addr w = Some w'"
  shows "(\<forall>framed prc. admitted N IO a stream w (framed, prc) \<longrightarrow>
       started w' = started w @ [(addr, framed, prc)]) \<and>
     ((\<nexists>fp. admitted N IO a stream w fp) \<longrightarrow> started w' = started w)"
  using assms(2,3)
  by (auto simp: admit_def admitted.simps split: outcome_splits
        dest!: accept_preservesD[OF assms(1)] initial_accept_preserves[OF assms(1)])

text \<open>
  A connection task is started for an accepted stream if and only if the stream went
  through every gate (the set-up of the transport, then the traffic processor's check of
  the raw transport, then its check of the framed stream), with the framed stream those
  checks saw and a clone of the processor; in every other case no task is started.
\<close>

theorem connection_started_iff_admitted:
  assumes "accept_preserves N IO started"
    and "\<forall>t w. started (spawn_connection N t w) = started w @ [t]"
    and "admit N IO a stream addr w = Some w'"
  shows "(\<forall>framed prc. admitted N IO a stream w (framed, prc) \<longrightarrow>
       started w' = started w @ [(addr, framed, prc)]) \<and>
     ((\<nexists>fp. admitted N IO a stream w fp) \<longrightarrow> started w' = started w)"
  by (rule started_iff_admitted[OF assms])

text \<open>
  \<open>events\<close>: what the acceptor will be woken by, in order; nothing but the select
  consumes them, and without any the select waits for ever.
\<close>

definition event_queue ::
  "'w server_net \<Rightarrow> 'w conn_io \<Rightarrow> acceptor \<Rightarrow> ('w \<Rightarrow> acceptor_event list) \<Rightarrow> bool" where
  "event_queue N IO a events \<longleftrightarrow>
     accept_preserves N IO events \<and>
     (\<forall>t w. events (spawn_connection N t w) = events w) \<and>
     (\<forall>w. case events w of
        [] \<Rightarrow> acceptor_select N (a_listener a) (a_shutdown_sig a) w = None
      | ev # evs \<Rightarrow>
          \<exists>w'. acceptor_select N (a_listener a) (a_shutdown_sig a) w = Some (ev, w') \<and> events w' = evs)"

lemma event_queue_select_Nil:
  assumes "event_queue N IO a events" and "events w = []"
  shows "acceptor_select N (a_listener a) (a_shutdown_sig a) w = None"
  using assms unfolding event_queue_def by (auto dest: spec[of _ w])

lemma event_queue_Nil:
  "event_queue N IO a events \<Longrightarrow> events w = [] \<Longrightarrow> acceptor_loop N IO a w = None"
  by (subst acceptor_loop.simps) (simp add: event_queue_select_Nil)

lemma event_queue_Cons:
  assumes "event_queue N IO a events" and "events w = ev # evs"
  obtains w' where "acceptor_select N (a_listener a) (a_shutdown_sig a) w = Some (ev, w')"
    and "events w' = evs"
proof -
  have "case events w of
        [] \<Rightarrow> acceptor_select N (a_listener a) (a_shutdown_sig a) w = None
      | ev # evs \<Rightarrow>
          \<exists>w'. acceptor_select N (a_listener a) (a_shutdown_sig a) w = Some (ev, w') \<and> events w' = evs"
    using assms(1) unfolding event_queue_def by blast
  then show thesis using that assms(2) by auto
qed

lemma admit_keeps_events:
  assumes "event_queue N IO a events" and "admit N IO a stream addr w = Some w'"
  shows "events w' = events w"
proof -
  have pres: "accept_preserves N IO events" and spawn: "\<And>t w. events (spawn_connection N t w) = events w"
    using assms(1) unfolding event_queue_def by blast+
  show ?thesis
    using assms(2)
    by (auto simp: admit_def spawn split: outcome_splits
          dest!: accept_preservesD[OF pres] initial_accept_preserves[OF pres])
qed

text \<open>
  What the gates do with a stream: start a connection with this framed stream and processor, turn the
  stream away, or wait for ever.
\<close>

datatype verdict = LetIn "framed \<times> processor" | TurnedAway | Stalls

definition gates_decide :: "'w server_net \<Rightarrow> 'w conn_io \<Rightarrow> acceptor \<Rightarrow> (nat \<Rightarrow> verdict) \<Rightarrow> bool" where
  "gates_decide N IO a verdict_on \<longleftrightarrow>
     (\<forall>stream w. case verdict_on stream of
        LetIn fp \<Rightarrow> admitted N IO a stream w fp
      | TurnedAway \<Rightarrow> (\<nexists>fp. admitted N IO a stream w fp) \<and> \<not> stalls N IO a stream w
      | Stalls \<Rightarrow> stalls N IO a stream w)"

lemma gates_decide_stalls:
  assumes "gates_decide N IO a verdict_on"
  shows "stalls N IO a stream w \<longleftrightarrow> verdict_on stream = Stalls"
proof (cases "verdict_on stream")
  case (LetIn fp)
  then have "admitted N IO a stream w fp" using assms by (auto simp: gates_decide_def dest: spec[of _ stream])
  then show ?thesis using LetIn admitted_does_not_stall[of N IO a stream w fp] by simp
qed (use assms in \<open>auto simp: gates_decide_def dest: spec[of _ stream]\<close>)

text \<open>The events that the acceptor gets past: neither the stop signal nor a stream that stalls.\<close>

definition passes :: "(nat \<Rightarrow> verdict) \<Rightarrow> acceptor_event \<Rightarrow> bool" where
  "passes verdict_on ev =
     (case ev of Accepted stream addr \<Rightarrow> verdict_on stream \<noteq> Stalls | AcceptFailed e \<Rightarrow> True | ShutdownNotified \<Rightarrow> False)"

text \<open>The connections started for a list of events.\<close>

definition connections_for ::
  "(nat \<Rightarrow> verdict) \<Rightarrow> acceptor_event list \<Rightarrow> (socket_addr \<times> framed \<times> processor) list" where
  "connections_for verdict_on evs = List.map_filter
     (\<lambda>ev. case ev of
        Accepted stream addr \<Rightarrow> (case verdict_on stream of LetIn fp \<Rightarrow> Some (addr, fp) | _ \<Rightarrow> None)
      | _ \<Rightarrow> None) evs"

lemma connections_for_simps [simp]:
  "connections_for verdict_on [] = []"
  "connections_for verdict_on (Accepted stream addr # evs) =
     (case verdict_on stream of LetIn fp \<Rightarrow> [(addr, fp)] | _ \<Rightarrow> []) @ connections_for verdict_on evs"
  "connections_for verdict_on (AcceptFailed e # evs) = connections_for verdict_on evs"
  by (simp_all add: connections_for_def List.map_filter_simps split: verdict.split)

lemma connections_for_Cons:
  "passes verdict_on ev \<Longrightarrow>
   connections_for verdict_on (ev # evs) = connections_for verdict_on [ev] @ connections_for verdict_on evs"
  by (cases ev) (simp_all add: passes_def)

text \<open>What an event that the acceptor gets past makes of the world, and the loop's step over it.\<close>

definition after_event :: "'w server_net \<Rightarrow> 'w conn_io \<Rightarrow> acceptor \<Rightarrow> acceptor_event \<Rightarrow> 'w \<Rightarrow> 'w option" where
  "after_event N IO a ev w = (case ev of Accepted stream addr \<Rightarrow> admit N IO a stream addr w | _ \<Rightarrow> Some w)"

text \<open>Induction over a run of the acceptor that returns.\<close>

lemma acceptor_loop_induct [consumes 1, case_names Stop Event]:
  assumes "acceptor_loop N IO a w = Some w'"
    and "\<And>w w'. acceptor_select N (a_listener a) (a_shutdown_sig a) w = Some (ShutdownNotified, w') \<Longrightarrow> P w w'"
    and "\<And>w ev w1 w2 w'. acceptor_select N (a_listener a) (a_shutdown_sig a) w = Some (ev, w1) \<Longrightarrow> ev \<noteq> ShutdownNotified \<Longrightarrow>
       after_event N IO a ev w1 = Some w2 \<Longrightarrow> P w2 w' \<Longrightarrow> P w w'"
  shows "P w w'"
proof -
  have "N = N \<and> IO = IO \<and> a = a \<longrightarrow> P w w'"
  proof (rule acceptor_loop.raw_induct[OF _ assms(1), where
      P = "\<lambda>N' IO' a' w w'. N' = N \<and> IO' = IO \<and> a' = a \<longrightarrow> P w w'"], intro impI)
    fix loop N' IO' a' w w'
    assume IH: "\<And>N' IO' a' w w'. loop N' IO' a' w = Some w' \<Longrightarrow> N' = N \<and> IO' = IO \<and> a' = a \<longrightarrow> P w w'"
      and run: "(case acceptor_select N' (a_listener a') (a_shutdown_sig a') w of
          None \<Rightarrow> None
        | Some (Accepted stream addr, w1) \<Rightarrow> Option.bind (admit N' IO' a' stream addr w1) (loop N' IO' a')
        | Some (AcceptFailed e, w1) \<Rightarrow> loop N' IO' a' w1
        | Some (ShutdownNotified, w1) \<Rightarrow> Some w1) = Some w'"
      and same: "N' = N \<and> IO' = IO \<and> a' = a"
    obtain ev w1 where sel: "acceptor_select N (a_listener a) (a_shutdown_sig a) w = Some (ev, w1)"
      using run same by (auto split: option.splits)
    show "P w w'"
    proof (cases "ev = ShutdownNotified")
      case True
      then show ?thesis using sel run same assms(2)[of w w'] by simp
    next
      case False
      then obtain w2 where "after_event N IO a ev w1 = Some w2" "loop N IO a w2 = Some w'"
        using sel run same by (cases ev) (auto simp: after_event_def bind_eq_Some_conv)
      then show ?thesis using assms(3)[OF sel False] IH[of N IO a w2 w'] by simp
    qed
  qed
  then show ?thesis by simp
qed

lemma acceptor_goes_on:
  assumes "event_queue N IO a events" and "gates_decide N IO a verdict_on"
    and "events w = ev # evs" and "passes verdict_on ev"
  shows "\<exists>w' w1. acceptor_select N (a_listener a) (a_shutdown_sig a) w = Some (ev, w') \<and>
     after_event N IO a ev w' = Some w1 \<and> acceptor_loop N IO a w = acceptor_loop N IO a w1 \<and> events w1 = evs"
proof -
  obtain w' where w': "acceptor_select N (a_listener a) (a_shutdown_sig a) w = Some (ev, w')" "events w' = evs"
    using event_queue_Cons[OF assms(1,3)] .
  obtain w1 where w1: "after_event N IO a ev w' = Some w1"
    using assms(4)
    by (cases "after_event N IO a ev w'"; cases ev)
       (auto simp: after_event_def passes_def admit_stalls gates_decide_stalls[OF assms(2)])
  have "events w1 = evs"
    using w1 w'(2) admit_keeps_events[OF assms(1)]
    by (auto simp: after_event_def split: acceptor_event.splits)
  moreover have "acceptor_loop N IO a w = acceptor_loop N IO a w1"
    using w'(1) w1 assms(4)
    by (subst acceptor_loop.simps) (auto simp: after_event_def passes_def split: acceptor_event.splits)
  ultimately show ?thesis using w' w1 by blast
qed

lemma after_event_started:
  assumes "accept_preserves N IO started" and "\<forall>t w. started (spawn_connection N t w) = started w @ [t]"
    and "gates_decide N IO a verdict_on" and "passes verdict_on ev" and "after_event N IO a ev w = Some w'"
  shows "started w' = started w @ connections_for verdict_on [ev]"
proof (cases ev)
  case (Accepted stream addr)
  have "case verdict_on stream of LetIn fp \<Rightarrow> admitted N IO a stream w fp | _ \<Rightarrow> \<nexists>fp. admitted N IO a stream w fp"
    using assms(3,4) Accepted
    by (auto simp: gates_decide_def passes_def dest!: spec[of _ stream] split: verdict.splits)
  moreover have "admit N IO a stream addr w = Some w'" using assms(5) Accepted by (simp add: after_event_def)
  ultimately show ?thesis
    using started_iff_admitted[OF assms(1,2), of a stream addr w w'] Accepted by (auto split: verdict.splits)
qed (use assms(4,5) in \<open>simp_all add: after_event_def passes_def\<close>)

lemma acceptor_ends_only_if_stopped:
  assumes "event_queue N IO a events" and "acceptor_loop N IO a w = Some w'"
  shows "ShutdownNotified \<in> set (events w)"
  using assms(2)
proof (induction "events w" arbitrary: w)
  case Nil
  then show ?case using event_queue_Nil[OF assms(1), of w] by simp
next
  case (Cons ev evs)
  obtain w1 where w1: "acceptor_select N (a_listener a) (a_shutdown_sig a) w = Some (ev, w1)" "events w1 = evs"
    using event_queue_Cons[OF assms(1) Cons.hyps(2)[symmetric]] .
  show ?case
  proof (cases "ev = ShutdownNotified")
    case False
    then obtain w2 where w2: "after_event N IO a ev w1 = Some w2" "acceptor_loop N IO a w2 = Some w'"
      using Cons.prems w1(1)
      by (subst (asm) acceptor_loop.simps)
         (auto simp: after_event_def bind_eq_Some_conv split: acceptor_event.splits)
    then have "events w2 = evs"
      using w1(2) admit_keeps_events[OF assms(1)] by (auto simp: after_event_def split: acceptor_event.splits)
    then show ?thesis using Cons.hyps(1)[of w2] w2(2) Cons.hyps(2) by (metis list.set_intros(2))
  qed (use Cons.hyps(2) in \<open>metis list.set_intros(1)\<close>)
qed

lemma acceptor_ends:
  assumes "event_queue N IO a events" and "gates_decide N IO a verdict_on"
  shows "events w = evs @ rest \<Longrightarrow> \<forall>ev \<in> set evs. passes verdict_on ev \<Longrightarrow>
      rest = [] \<or> \<not> passes verdict_on (hd rest) \<Longrightarrow>
      case rest of
        ShutdownNotified # later \<Rightarrow> \<exists>w'. acceptor_loop N IO a w = Some w' \<and> events w' = later
      | _ \<Rightarrow> acceptor_loop N IO a w = None"
proof (induction evs arbitrary: w)
  case (Cons ev evs)
  then obtain w1 where w1: "acceptor_loop N IO a w = acceptor_loop N IO a w1" "events w1 = evs @ rest"
    using acceptor_goes_on[OF assms, of w ev "evs @ rest"] by fastforce
  then show ?case unfolding w1(1) by (intro Cons.IH) (use Cons.prems in auto)
next
  case Nil
  show ?case
  proof (cases rest)
    case (Cons ev later)
    then obtain w' where w': "acceptor_select N (a_listener a) (a_shutdown_sig a) w = Some (ev, w')" "events w' = later"
      using event_queue_Cons[OF assms(1), of w ev later] Nil by auto
    show ?thesis
    proof (cases ev)
      case (Accepted stream addr)
      then have "admit N IO a stream addr w' = None"
        using Nil(3) Cons by (simp add: passes_def admit_stalls gates_decide_stalls[OF assms(2)])
      then show ?thesis using w' Cons Accepted by (subst acceptor_loop.simps) simp
    next
      case ShutdownNotified
      then show ?thesis using w' Cons by (subst acceptor_loop.simps) simp
    qed (use Nil(3) Cons in \<open>simp add: passes_def\<close>)
  qed (use Nil event_queue_Nil[OF assms(1)] in simp)
qed

text \<open>
  C11. When the acceptor ends.  It goes on through refused streams, failed handshakes and accept
  errors; it returns if and only if the stop signal arrives before the first stream whose peer never
  finishes its handshake.  One such peer keeps the server from accepting anybody else and from being
  stopped, because the handshake is awaited inside the acceptor.
\<close>

theorem acceptor_ends_iff_stopped_before_stall:
  assumes "event_queue N IO a events" and "gates_decide N IO a verdict_on"
  shows "(\<exists>w'. acceptor_loop N IO a w = Some w') \<longleftrightarrow>
     (\<exists>later. dropWhile (passes verdict_on) (events w) = ShutdownNotified # later)"
proof -
  have "case dropWhile (passes verdict_on) (events w) of
        ShutdownNotified # later \<Rightarrow> \<exists>w'. acceptor_loop N IO a w = Some w' \<and> events w' = later
      | _ \<Rightarrow> acceptor_loop N IO a w = None"
    by (rule acceptor_ends[OF assms, of w "takeWhile (passes verdict_on) (events w)"])
       (use hd_dropWhile in \<open>auto dest: set_takeWhileD simp del: dropWhile_eq_Nil_conv\<close>)
  then show ?thesis by (auto split: list.splits acceptor_event.splits simp del: dropWhile_eq_Nil_conv)
qed

text \<open>
  In particular, if no peer stalls it, the acceptor runs until it is woken by the stop signal, and leaves
  later events alone.
\<close>

theorem acceptor_runs_until_shutdown:
  assumes "event_queue N IO a events" and "gates_decide N IO a verdict_on"
    and "events w = evs @ ShutdownNotified # rest" and "\<forall>ev \<in> set evs. passes verdict_on ev"
  shows "\<exists>w'. acceptor_loop N IO a w = Some w' \<and> events w' = rest"
  using acceptor_ends[OF assms(1-3)] assms(4) by (simp add: passes_def)

section \<open>From binding to the stop signal\<close>

lemma acceptor_starts:
  assumes "event_queue N IO a events" and "gates_decide N IO a verdict_on"
    and "accept_preserves N IO started"
    and "\<forall>t w. started (spawn_connection N t w) = started w @ [t]"
    and "\<forall>w ev w'. acceptor_select N (a_listener a) (a_shutdown_sig a) w = Some (ev, w') \<longrightarrow> started w' = started w"
  shows "events w = evs @ ShutdownNotified # rest \<Longrightarrow> \<forall>ev \<in> set evs. passes verdict_on ev \<Longrightarrow>
     \<exists>w'. acceptor_loop N IO a w = Some w' \<and> events w' = rest \<and> started w' = started w @ connections_for verdict_on evs"
proof (induction evs arbitrary: w)
  case Nil
  then obtain w' where w': "acceptor_select N (a_listener a) (a_shutdown_sig a) w = Some (ShutdownNotified, w')"
      "events w' = rest"
    using event_queue_Cons[OF assms(1), of w] by auto
  then have "acceptor_loop N IO a w = Some w'" by (subst acceptor_loop.simps) simp
  then show ?case using w' assms(5) by auto
next
  case (Cons ev evs)
  then have ev: "passes verdict_on ev" by simp
  obtain w' w1 where w1: "acceptor_select N (a_listener a) (a_shutdown_sig a) w = Some (ev, w')"
      "after_event N IO a ev w' = Some w1" "acceptor_loop N IO a w = acceptor_loop N IO a w1"
      "events w1 = evs @ ShutdownNotified # rest"
    using acceptor_goes_on[OF assms(1,2) _ ev, of w "evs @ ShutdownNotified # rest"] Cons.prems(1) by auto
  have "started w1 = started w @ connections_for verdict_on [ev]"
    using after_event_started[OF assms(3,4,2) ev w1(2)] assms(5) w1(1) by metis
  then show ?case
    using Cons.IH[OF w1(4)] Cons.prems(2) connections_for_Cons[OF ev, of evs] w1(3) by auto
qed

text \<open>
  C17. A server from binding to its stop: the acceptor that \<^verbatim>\<open>start\<close> spawns works on the
  socket that \<^verbatim>\<open>new\<close> bound, with the configuration and the mode given there; if no peer
  stalls it, it starts one
  connection for each accepted stream that the gates let through, in the order in which the streams
  were accepted and for no other stream, and ends at the stop signal.
\<close>

theorem server_starts_admitted_until_stop:
  assumes "tf_server_new N bind rtr processor cd config mode w = (Ok sv, w1)"
    and "server_start N IO sv w1 = ((a, sv'), w2)"
    and "event_queue N IO a events" and "gates_decide N IO a verdict_on"
    and "accept_preserves N IO started"
    and "\<forall>t w. started (spawn_connection N t w) = started w @ [t]"
    and "\<forall>w ev w'. acceptor_select N (a_listener a) (a_shutdown_sig a) w = Some (ev, w') \<longrightarrow> started w' = started w"
    and "events w2 = evs @ ShutdownNotified # rest" and "\<forall>ev \<in> set evs. passes verdict_on ev"
  shows "(\<exists>w'. tcp_bind N bind w = (Ok (a_listener a), w')) \<and> a_config a = config \<and> a_mode a = mode \<and>
     (\<forall>p. processor = Some p \<longrightarrow> a_processor a = p) \<and> srv_router sv' = rtr \<and>
     (\<exists>w'. acceptor_loop N IO a w2 = Some w' \<and> events w' = rest \<and>
        started w' = started w2 @ connections_for verdict_on evs)"
proof -
  have "(\<exists>w'. tcp_bind N bind w = (Ok (a_listener a), w')) \<and> a_config a = config \<and> a_mode a = mode \<and>
      (\<forall>p. processor = Some p \<longrightarrow> a_processor a = p) \<and> srv_router sv' = rtr"
    using assms(1,2)
    by (auto simp: tf_server_new_def server_start_def split: prod.splits result.splits option.splits)
  with acceptor_starts[where started = started, OF assms(3-9)] show ?thesis by blast
qed

section \<open>Examples\<close>

record sworld = qworld +
  sw_events :: "acceptor_event list"
  sw_started :: "(socket_addr \<times> framed \<times> processor) list"

text \<open>
  A network that accepts everything, except that stream 13 fails the codec's set-up and the peer of
  stream 66 never finishes its TLS handshake.
\<close>

definition sample_net :: "'a sworld_scheme server_net" where
  "sample_net =
     \<lparr>tcp_bind = (\<lambda>s w. (Ok 0, w)), notify_new = (\<lambda>w. (0, w)), notify_waiters = (\<lambda>n w. w),
      acceptor_select = (\<lambda>l n w. case sw_events w of
         [] \<Rightarrow> None | ev # evs \<Rightarrow> Some (ev, w\<lparr>sw_events := evs\<rparr>)),
      stream_set_nodelay = (\<lambda>s w. (Ok (), w)), codec_clone = (\<lambda>c w. (c, w)),
      codec_initial_setup = (\<lambda>c t w. Some (t \<noteq> 13, w)),
      tls_accept = (\<lambda>c s w. if s = 66 then None else Some (Ok s, w)),
      plain_transport = (\<lambda>s. s), tls_server_transport = (\<lambda>s. s),
      accept_websocket = (\<lambda>t w. Some (Ok t, w)), initial_connect = (\<lambda>p t w. Some (True, w)),
      initial_framed_connect = (\<lambda>p f w. Some (True, w)), transport_shutdown = (\<lambda>t w. Some (Ok (), w)),
      spawn_connection = (\<lambda>t w. w\<lparr>sw_started := sw_started w @ [t]\<rparr>)\<rparr>"

definition sample_acceptor :: acceptor where
  "sample_acceptor =
     \<lparr>a_listener = 0, a_shutdown_sig = 0, a_processor = 0, a_codec = 0, a_config = Some 0, a_mode = SM_Tcp\<rparr>"

definition sample_verdict :: "nat \<Rightarrow> verdict" where
  "sample_verdict s = (if s = 13 then TurnedAway else if s = 66 then Stalls else LetIn (s, 0))"

definition sample_sworld :: "acceptor_event list \<Rightarrow> sworld" where
  "sample_sworld evs =
     \<lparr>q_in = [], q_out = [], q_closed = False, sw_events = evs, sw_started = []\<rparr>"

lemma sample_accept_preserves:
  "accept_preserves sample_net queue_io sw_started" "accept_preserves sample_net queue_io sw_events"
  by (simp_all add: accept_preserves_def kept_def kept_if_done_def sample_net_def)

lemma sample_event_queue: "event_queue sample_net queue_io a sw_events"
  unfolding event_queue_def using sample_accept_preserves(2)
  by (auto simp: sample_net_def split: list.split)

lemma sample_gates_decide: "gates_decide sample_net queue_io sample_acceptor sample_verdict"
  by (auto simp: gates_decide_def sample_verdict_def admitted.simps stalls.simps initial_accept_def sample_net_def
      sample_acceptor_def)

lemma sample_spawn: "\<forall>t w. sw_started (spawn_connection sample_net t w) = sw_started w @ [t]"
  by (simp add: sample_net_def)

theorem connection_started_iff_admitted_witness:
  "(\<exists>w'. admit sample_net queue_io sample_acceptor 7 ''a'' (sample_sworld []) = Some w' \<and>
      sw_started w' = [(''a'', 7, 0)]) \<and>
   (\<exists>w'. admit sample_net queue_io sample_acceptor 13 ''b'' (sample_sworld []) = Some w' \<and> sw_started w' = [])"
proof -
  note started = connection_started_iff_admitted[OF sample_accept_preserves(1) sample_spawn]
  have "admitted sample_net queue_io sample_acceptor 7 (sample_sworld []) (7, 0)"
    and "\<nexists>fp. admitted sample_net queue_io sample_acceptor 13 (sample_sworld []) fp"
    and "\<exists>w'. admit sample_net queue_io sample_acceptor 7 ''a'' (sample_sworld []) = Some w'"
    and "\<exists>w'. admit sample_net queue_io sample_acceptor 13 ''b'' (sample_sworld []) = Some w'"
    by (simp_all add: admitted.simps admit_def initial_accept_def sample_net_def sample_acceptor_def)
  then show ?thesis
    using started[of sample_acceptor 7 "''a''" "sample_sworld []"]
      started[of sample_acceptor 13 "''b''" "sample_sworld []"]
    by (auto simp: sample_sworld_def)
qed

theorem acceptor_ends_iff_stopped_before_stall_witness:
  "(\<exists>w'. acceptor_loop sample_net queue_io sample_acceptor
       (sample_sworld [Accepted 7 ''a'', AcceptFailed \<lparr>kind = OtherKind 0, io_msg = ''e''\<rparr>, ShutdownNotified]) =
     Some w') \<and>
   acceptor_loop sample_net queue_io sample_acceptor
     (sample_sworld [Accepted 7 ''a'', Accepted 66 ''mute'', Accepted 8 ''b'', ShutdownNotified]) = None"
  using acceptor_ends_iff_stopped_before_stall[OF sample_event_queue sample_gates_decide,
      of "sample_sworld [Accepted 7 ''a'', AcceptFailed \<lparr>kind = OtherKind 0, io_msg = ''e''\<rparr>, ShutdownNotified]"]
    acceptor_ends_iff_stopped_before_stall[OF sample_event_queue sample_gates_decide,
      of "sample_sworld [Accepted 7 ''a'', Accepted 66 ''mute'', Accepted 8 ''b'', ShutdownNotified]"]
  by (simp add: sample_sworld_def passes_def sample_verdict_def)

theorem acceptor_runs_until_shutdown_witness:
  "\<exists>w'. acceptor_loop sample_net queue_io sample_acceptor
       (sample_sworld [Accepted 7 ''a'', AcceptFailed \<lparr>kind = OtherKind 0, io_msg = ''e''\<rparr>, ShutdownNotified]) =
     Some w' \<and> sw_events w' = []"
  by (rule acceptor_runs_until_shutdown[OF sample_event_queue sample_gates_decide, where
        evs = "[Accepted 7 ''a'', AcceptFailed \<lparr>kind = OtherKind 0, io_msg = ''e''\<rparr>]"])
     (simp_all add: sample_sworld_def passes_def sample_verdict_def)

theorem server_starts_admitted_until_stop_witness:
  "\<exists>w'. acceptor_loop sample_net queue_io sample_acceptor
       (sample_sworld [Accepted 7 ''a'', Accepted 13 ''b'', Accepted 8 ''c'', ShutdownNotified, Accepted 9 ''d'']) =
     Some w' \<and> sw_started w' = [(''a'', 7, 0), (''c'', 8, 0)]"
proof -
  let ?w = "sample_sworld [Accepted 7 ''a'', Accepted 13 ''b'', Accepted 8 ''c'', ShutdownNotified, Accepted 9 ''d'']"
  let ?evs = "[Accepted 7 ''a'', Accepted 13 ''b'', Accepted 8 ''c'']"
  let ?sv = "\<lparr>srv_router = router_new 0 :: (u64, u64, sworld) tf_server_router, srv_socket = 0, srv_shutdown_sig = 0,
    srv_processor = Some 0, srv_codec = 0, srv_config = Some 0, srv_mode = SM_Tcp\<rparr>"
  have new: "tf_server_new sample_net ''0.0.0.0:1'' (router_new 0) (Some 0) 0 (Some 0) SM_Tcp ?w = (Ok ?sv, ?w)"
    by (simp add: tf_server_new_def sample_net_def)
  have start: "server_start sample_net queue_io ?sv ?w = ((sample_acceptor, ?sv\<lparr>srv_processor := None\<rparr>), ?w)"
    by (simp add: server_start_def sample_net_def sample_acceptor_def)
  have sel: "\<forall>w ev w'. acceptor_select sample_net (a_listener sample_acceptor) (a_shutdown_sig sample_acceptor) w =
      Some (ev, w') \<longrightarrow> sw_started w' = sw_started w"
    by (auto simp: sample_net_def split: list.splits)
  have "sw_events ?w = ?evs @ ShutdownNotified # [Accepted 9 ''d'']" "\<forall>ev \<in> set ?evs. passes sample_verdict ev"
    by (simp_all add: sample_sworld_def passes_def sample_verdict_def)
  from server_starts_admitted_until_stop[where started = sw_started and events = sw_events,
      OF new start sample_event_queue sample_gates_decide sample_accept_preserves(1) sample_spawn sel this]
  obtain w' where "acceptor_loop sample_net queue_io sample_acceptor ?w = Some w'"
      "sw_started w' = sw_started ?w @ connections_for sample_verdict ?evs"
    by blast
  then show ?thesis by (auto simp: sample_sworld_def sample_verdict_def)
qed

end
