(* ===== verification/Connections.thy ===== *)
theory Connections
  imports Connection
begin

text \<open>
  Many connections in one world.  Each connection task runs its loop; between two iterations any other
  task may run any number of its own, and a task that ended takes no further steps.  A connection whose
  handlers answer is served as if it were alone, whatever becomes of the others, as long as they stay off
  its stream.
\<close>

section \<open>Tasks\<close>

datatype task = Spawned | Running receiver "sender option" | Ended conn_exit

text \<open>
  A step of task \<open>i\<close>: it makes its channel, or runs one iteration of its loop.  A state is the tasks
  and the world they share; the tasks are numbered by the order in which the server spawned them.
\<close>

inductive task_step ::
  "(nat \<Rightarrow> ('st, 'tc, 'w) connection) \<Rightarrow> (nat \<Rightarrow> task) \<times> 'w \<Rightarrow> (nat \<Rightarrow> task) \<times> 'w \<Rightarrow> bool" for c where
  step_in: "T i = Spawned \<Longrightarrow> oneshot_channel (c_handoff (c i)) w = ((tx, rx), w') \<Longrightarrow>
     task_step c (T, w) (T(i := Running rx (Some tx)), w')"
| step_on: "T i = Running rx tx \<Longrightarrow> conn_iter (c i) rx tx w = (Continue tx', w') \<Longrightarrow>
     task_step c (T, w) (T(i := Running rx tx'), w')"
| step_off: "T i = Running rx tx \<Longrightarrow> conn_iter (c i) rx tx w = (Exit e, w') \<Longrightarrow>
     task_step c (T, w) (T(i := Ended e), w')"

inductive_cases task_stepE: "task_step c (T, w) (T', w')"

text \<open>
  The same with a given schedule: the scheduler polls task \<open>i\<close>, which makes a step unless it
  has ended.
\<close>

definition turn ::
  "(nat \<Rightarrow> ('st, 'tc, 'w) connection) \<Rightarrow> nat \<Rightarrow> (nat \<Rightarrow> task) \<times> 'w \<Rightarrow> (nat \<Rightarrow> task) \<times> 'w" where
  "turn c i s =
     (case s of (T, w) \<Rightarrow>
        (case T i of
           Ended e \<Rightarrow> (T, w)
         | Spawned \<Rightarrow>
             (case oneshot_channel (c_handoff (c i)) w of ((tx, rx), w') \<Rightarrow> (T(i := Running rx (Some tx)), w'))
         | Running rx tx \<Rightarrow>
             (case conn_iter (c i) rx tx w of
                (Continue tx', w') \<Rightarrow> (T(i := Running rx tx'), w')
              | (Exit e, w') \<Rightarrow> (T(i := Ended e), w'))))"

primrec run_schedule ::
  "(nat \<Rightarrow> ('st, 'tc, 'w) connection) \<Rightarrow> nat list \<Rightarrow> (nat \<Rightarrow> task) \<times> 'w \<Rightarrow> (nat \<Rightarrow> task) \<times> 'w" where
  "run_schedule c [] s = s"
| "run_schedule c (i # is) s = run_schedule c is (turn c i s)"

lemma turn_steps: "(task_step c)\<^sup>*\<^sup>* s (turn c i s)"
proof (cases s)
  case (Pair T w)
  then show ?thesis
    by (cases "T i") (auto simp: turn_def split: prod.splits conn_ctl.splits intro: step_in step_on step_off)
qed

lemma task_step_turn: "task_step c s s' \<Longrightarrow> \<exists>i. turn c i s = s'"
proof (induction rule: task_step.induct)
  case (step_in T i w tx rx w')
  then show ?case by (intro exI[of _ i]) (simp add: turn_def)
next
  case (step_on T i rx tx w tx' w')
  then show ?case by (intro exI[of _ i]) (simp add: turn_def)
next
  case (step_off T i rx tx w e w')
  then show ?case by (intro exI[of _ i]) (simp add: turn_def)
qed

lemma run_schedule_steps: "(task_step c)\<^sup>*\<^sup>* s (run_schedule c is s)"
proof (induction "is" arbitrary: s)
  case (Cons i js)
  show ?case using rtranclp_trans[OF turn_steps[of c s i] Cons.IH] by simp
qed simp

text \<open>
  A task that is polled alone is \<^verbatim>\<open>handle_connection\<close>: it ends with this exit and this world
  after some number of turns if and only if the function returns them.
\<close>

lemma turn_alone:
  "turn c i (T(i := Ended e), w) = (T(i := Ended e), w)"
  "conn_iter (c i) rx tx w = (Continue tx', w') \<Longrightarrow> turn c i (T(i := Running rx tx), w) = (T(i := Running rx tx'), w')"
  "conn_iter (c i) rx tx w = (Exit e, w') \<Longrightarrow> turn c i (T(i := Running rx tx), w) = (T(i := Ended e), w')"
  by (simp_all add: turn_def)

lemma ended_stays: "run_schedule c (replicate n i) (T(i := Ended e), w) = (T(i := Ended e), w)"
  by (induction n) (simp_all add: turn_alone del: fun_upd_apply)

lemma conn_loop_takes_turns:
  assumes "conn_loop (c i) rx tx w = Some (e, w')"
  shows "\<exists>n. run_schedule c (replicate n i) (T(i := Running rx tx), w) = (T(i := Ended e), w')"
  using assms
proof (induction rule: conn_loop_induct)
  case (Exit tx w e w')
  then show ?case by (intro exI[of _ 1]) (simp add: turn_alone del: fun_upd_apply)
next
  case (Continue tx w tx' w1 e w')
  then obtain n where "run_schedule c (replicate n i) (T(i := Running rx tx'), w1) = (T(i := Ended e), w')" by blast
  then show ?case using Continue(1) by (intro exI[of _ "Suc n"]) (simp add: turn_alone del: fun_upd_apply)
qed

lemma turns_run_conn_loop:
  "run_schedule c (replicate n i) (T(i := Running rx tx), w) = (T', w') \<Longrightarrow> T' i = Ended e \<Longrightarrow>
   conn_loop (c i) rx tx w = Some (e, w')"
proof (induction n arbitrary: tx w)
  case (Suc n)
  obtain ctl w1 where it: "conn_iter (c i) rx tx w = (ctl, w1)" by fastforce
  show ?case
  proof (cases ctl)
    case (Continue tx')
    then show ?thesis using Suc it by (simp add: turn_alone conn_loop_Continue del: fun_upd_apply)
  next
    case (Exit e')
    then have "(T', w') = (T(i := Ended e'), w1)" using Suc.prems(1) it by (simp add: turn_alone ended_stays del: fun_upd_apply)
    then show ?thesis using Suc.prems(2) it Exit by (simp add: conn_loop_Exit)
  qed
qed auto

lemma task_alone_is_handle_connection:
  assumes "T i = Spawned"
  shows "handle_connection (c i) w = Some (e, w') \<longleftrightarrow>
     (\<exists>n. run_schedule c (replicate n i) (T, w) = (T(i := Ended e), w'))"
proof -
  obtain tx rx w1 where ch: "oneshot_channel (c_handoff (c i)) w = ((tx, rx), w1)" by (metis surj_pair)
  have first: "turn c i (T, w) = (T(i := Running rx (Some tx)), w1)" by (simp add: turn_def assms ch)
  show ?thesis (is "?ret \<longleftrightarrow> ?ends")
  proof
    assume ?ret
    then obtain n where "run_schedule c (replicate n i) (T(i := Running rx (Some tx)), w1) = (T(i := Ended e), w')"
      using conn_loop_takes_turns[of c i rx "Some tx" w1 e w' T] ch by (auto simp: handle_connection_def)
    then show ?ends using first by (intro exI[of _ "Suc n"]) simp
  next
    assume ?ends
    then obtain n where n: "run_schedule c (replicate n i) (T, w) = (T(i := Ended e), w')" ..
    then obtain m where "n = Suc m" using assms by (cases n) (auto dest: fun_cong[of _ _ i])
    then show ?ret
      using n first turns_run_conn_loop[of c m i T rx "Some tx" w1] ch by (simp add: handle_connection_def)
  qed
qed

section \<open>Staying off a stream\<close>

text \<open>Nothing the connection calls changes the view \<open>v\<close>: neither its own stream nor its handlers.\<close>

definition stays_off :: "('st, 'tc, 'w) connection \<Rightarrow> ('w \<Rightarrow> 'v) \<Rightarrow> bool" where
  "stays_off c v \<longleftrightarrow>
     kept v (framed_next (c_io c) (c_stream c)) \<and>
     (\<forall>b. kept v (framed_send (c_io c) (c_stream c) b)) \<and>
     kept v (framed_close (c_io c) (c_stream c)) \<and>
     (\<forall>b. kept v (pre_process_traffic (c_io c) (c_processor c) b)) \<and>
     (\<forall>b. kept v (post_process_traffic (c_io c) (c_processor c) b)) \<and>
     kept v (processor_clone (c_io c) (c_processor c)) \<and>
     kept v (oneshot_channel (c_handoff c)) \<and>
     (\<forall>rx. kept v (oneshot_try_recv (c_handoff c) rx)) \<and>
     (\<forall>meta payload tx. kept v (serve_packet (c_lib c) (c_router c) meta payload (c_addr c, tx))) \<and>
     (\<forall>f st s. kept v (accept_call (c_handoff c) f st (c_addr c) s) \<and>
        (\<forall>w fut w'. accept_call (c_handoff c) f st (c_addr c) s w = (Returned fut, w') \<longrightarrow> kept v fut))"

lemma stays_off_kept:
  assumes "stays_off c v"
  shows "kept v (framed_next (c_io c) (c_stream c))"
    and "kept v (framed_send (c_io c) (c_stream c) b)"
    and "kept v (framed_close (c_io c) (c_stream c))"
    and "kept v (pre_process_traffic (c_io c) (c_processor c) b)"
    and "kept v (post_process_traffic (c_io c) (c_processor c) b)"
    and "kept v (processor_clone (c_io c) (c_processor c))"
    and "kept v (oneshot_try_recv (c_handoff c) rx)"
    and "kept v (serve_packet (c_lib c) (c_router c) meta payload (c_addr c, tx))"
    and "kept v (accept_call (c_handoff c) f st (c_addr c) s)"
    and "kept v (oneshot_channel (c_handoff c))"
  using assms by (cases s; simp add: stays_off_def)+

lemmas stays_offD = stays_off_kept[THEN keptD]

lemma stays_off_future:
  "stays_off c v \<Longrightarrow> accept_call (c_handoff c) f st (c_addr c) s w = (Returned fut, w') \<Longrightarrow> fut w1 = (r, w2) \<Longrightarrow>
   v w2 = v w1"
  unfolding stays_off_def by (blast intro: keptD)

lemma receive_stays_off:
  assumes "stays_off c v" and "receive_message (c_io c) (c_stream c) (c_processor c) w = (r, w')"
  shows "v w' = v w"
  using assms(2)
  by (auto simp: receive_message_def split: outcome_splits dest!: stays_offD(1,4)[OF assms(1)])

lemma send_stays_off:
  assumes "stays_off c v" and "send_message (c_io c) (c_stream c) b (c_processor c) w = (r, w')"
  shows "v w' = v w"
  using assms(2)
  by (auto simp: send_message_def split: outcome_splits dest!: stays_offD(2,5)[OF assms(1)])

lemma close_stays_off: "stays_off c v \<Longrightarrow> close_and_exit c e w = (ctl, w') \<Longrightarrow> v w' = v w"
  by (auto simp: close_and_exit_def split: prod.splits dest: stays_offD(3))

lemma hand_off_stays_off:
  assumes "stays_off c v" and "hand_off c accept w = (ctl, w')"
  shows "v w' = v w"
proof -
  obtain prc w1 where 1: "processor_clone (c_io c) (c_processor c) w = (prc, w1)" by fastforce
  obtain r w2 where 2: "accept_call (c_handoff c) (fst accept) (snd accept) (c_addr c) (c_stream c, prc) w1 = (r, w2)"
    by fastforce
  have 12: "v w1 = v w" "v w2 = v w1" by (rule stays_offD(6)[OF assms(1) 1], rule stays_offD(9)[OF assms(1) 2])
  show ?thesis
  proof (cases r)
    case (Returned fut)
    have "snd (fut w2) = w'" using assms(2) 1 2 Returned by (simp add: hand_off_def split: prod.splits)
    then have "v w' = v w2"
      using stays_off_future[OF assms(1) 2[unfolded Returned]] by (metis prod.collapse)
    then show ?thesis using 12 by simp
  next
    case Panicked
    then show ?thesis using assms(2) 1 2 12 by (simp add: hand_off_def)
  qed
qed

lemma serve_stays_off:
  assumes "stays_off c v" and "serve_and_reply c rx meta payload tx w = (ctl, w')"
  shows "v w' = v w"
  using assms(2)
  by (auto simp: serve_and_reply_def split: outcome_splits
        dest!: stays_offD(7,8)[OF assms(1)] send_stays_off[OF assms(1)] hand_off_stays_off[OF assms(1)]
          close_stays_off[OF assms(1)])

lemma iter_stays_off:
  assumes "stays_off c v" and "conn_iter c rx tx w = (ctl, w')"
  shows "v w' = v w"
  using assms(2)
  by (auto simp: conn_iter_def split: outcome_splits
        dest!: receive_stays_off[OF assms(1)] close_stays_off[OF assms(1)] serve_stays_off[OF assms(1)])

section \<open>A connection among others\<close>

text \<open>
  Where the task of a connection stands after \<open>n\<close> steps of its own or more, \<open>ps\<close> being the
  packets that were to arrive on it: it has not begun, or it has
  read and answered the first of them and goes on with its sender, or it has answered
  all of them and ended because its peer is gone.
\<close>

definition on_course ::
  "('st, 'tc, 'w) connection \<Rightarrow> ('w \<Rightarrow> bytes list) \<Rightarrow> ('w \<Rightarrow> bytes list) \<Rightarrow> (bytes \<Rightarrow> bytes) \<Rightarrow> (bytes \<Rightarrow> bytes)
     \<Rightarrow> (bytes \<Rightarrow> bytes \<Rightarrow> bytes) \<Rightarrow> bytes list \<Rightarrow> (bytes \<times> bytes) list \<Rightarrow> nat \<Rightarrow> task \<Rightarrow> 'w \<Rightarrow> bool" where
  "on_course c ins outs pre post rep before ps n t w \<longleftrightarrow>
     (case t of
        Spawned \<Rightarrow> n = 0 \<and> packets (c_lib c) (map pre (ins w)) = ps \<and> outs w = before
      | Running rx tx \<Rightarrow> tx \<noteq> None \<and>
          (\<exists>k. n \<le> Suc k \<and> k \<le> length ps \<and> packets (c_lib c) (map pre (ins w)) = drop k ps \<and>
               outs w = before @ map (\<lambda>(m, p). post (rep m p)) (take k ps))
      | Ended e \<Rightarrow> e = PeerGone \<and> outs w = before @ map (\<lambda>(m, p). post (rep m p)) ps)"

lemma on_course_kept:
  "on_course c ins outs pre post rep before ps n t w \<Longrightarrow> ins w' = ins w \<Longrightarrow> outs w' = outs w \<Longrightarrow>
   on_course c ins outs pre post rep before ps n t w'"
  by (cases t) (simp_all add: on_course_def)

lemma on_course_Suc:
  "on_course c ins outs pre post rep before ps (Suc n) t w \<Longrightarrow> on_course c ins outs pre post rep before ps n t w"
  by (cases t) (auto simp: on_course_def intro: le_SucI)

lemma on_course_iter:
  assumes "duplex c ins outs pre post" and "answering c ins outs (set ps) rep"
    and "on_course c ins outs pre post rep before ps n (Running rx tx) w" and "conn_iter c rx tx w = (ctl, w')"
  shows "on_course c ins outs pre post rep before ps (Suc n)
     (case ctl of Continue tx' \<Rightarrow> Running rx tx' | Exit e \<Rightarrow> Ended e) w'"
proof -
  obtain s k where tx: "tx = Some s" and k: "packets (c_lib c) (map pre (ins w)) = drop k ps"
      "outs w = before @ map (\<lambda>(m, p). post (rep m p)) (take k ps)" and n: "n \<le> Suc k"
    using assms(3) by (auto simp: on_course_def)
  show ?thesis
  proof (cases "drop k ps")
    case Nil
    obtain w1 where "conn_iter c rx tx w = (Exit PeerGone, w1)" "outs w1 = outs w"
      using duplex_iter_end[OF assms(1), of w rx tx] k(1) Nil by metis
    then show ?thesis using assms(4) k(2) Nil by (simp add: on_course_def)
  next
    case (Cons mp rest)
    obtain m p where mp: "mp = (m, p)" by (cases mp)
    have "(m, p) \<in> set ps" using Cons mp by (metis in_set_dropD list.set_intros(1))
    then obtain w1 where 1: "conn_iter c rx (Some s) w = (Continue (Some s), w1)"
        "packets (c_lib c) (map pre (ins w1)) = rest" "outs w1 = outs w @ [post (rep m p)]"
      using duplex_iter_packet[OF assms(1,2)] k(1) Cons mp by metis
    have "Suc k \<le> length ps" using Cons by (metis drop_all linorder_not_less list.discI Suc_leI)
    moreover have "take (Suc k) ps = take k ps @ [(m, p)]" "rest = drop (Suc k) ps"
      using drop_Cons_step[OF Cons] mp by simp_all
    ultimately show ?thesis
      using 1 assms(4) tx k(2) n by (auto simp: on_course_def intro!: exI[of _ "Suc k"])
  qed
qed

lemma on_course_start:
  assumes "duplex c ins outs pre post" and "on_course c ins outs pre post rep before ps n Spawned w"
    and "oneshot_channel (c_handoff c) w = ((tx, rx), w')"
  shows "on_course c ins outs pre post rep before ps (Suc n) (Running rx (Some tx)) w'"
proof -
  have "untouched ins outs w w'" using assms(1,3) unfolding duplex_def by (metis snd_conv)
  then show ?thesis using assms(2) by (auto simp: on_course_def untouched_def)
qed

text \<open>A turn of another task changes nothing; a turn of the connection itself makes progress.\<close>

lemma turn_stays_off:
  assumes "stays_off (c j) v" and "turn c j (T, w) = (T', w')"
  shows "v w' = v w" and "i \<noteq> j \<Longrightarrow> T' i = T i"
proof -
  show "v w' = v w"
    using assms(2) stays_offD(10)[OF assms(1)] iter_stays_off[OF assms(1)]
    by (auto simp: turn_def split: task.splits prod.splits conn_ctl.splits)
  show "i \<noteq> j \<Longrightarrow> T' i = T i"
    using assms(2) by (auto simp: turn_def split: task.splits prod.splits conn_ctl.splits)
qed

lemma on_course_turn:
  assumes "duplex (c i) ins outs pre post" and "answering (c i) ins outs (set ps) rep"
    and "j \<noteq> i \<Longrightarrow> stays_off (c j) (\<lambda>w. (ins w, outs w))"
    and "on_course (c i) ins outs pre post rep before ps n (T i) w" and "turn c j (T, w) = (T', w')"
  shows "on_course (c i) ins outs pre post rep before ps (if j = i then Suc n else n) (T' i) w'"
proof (cases "j = i")
  case True
  show ?thesis
  proof (cases "T i")
    case Spawned
    then show ?thesis
      using True assms(5) on_course_start[OF assms(1), of rep before ps n w] assms(4)
      by (auto simp: turn_def split: prod.splits)
  next
    case (Running rx tx)
    then show ?thesis
      using True assms(5) on_course_iter[OF assms(1,2), of before n rx tx w] assms(4)
      by (auto simp: turn_def split: prod.splits conn_ctl.splits)
  next
    case (Ended e)
    then show ?thesis using True assms(4,5) by (auto simp: turn_def on_course_def)
  qed
next
  case False
  then have off: "stays_off (c j) (\<lambda>w. (ins w, outs w))" by (rule assms(3))
  show ?thesis
    using turn_stays_off(1)[OF off assms(5)] turn_stays_off(2)[OF off assms(5), of i] False
      on_course_kept[OF assms(4), of w'] by simp
qed

lemma on_course_step:
  assumes "task_step c (T, w) (T', w')"
    and "duplex (c i) ins outs pre post" and "answering (c i) ins outs (set ps) rep"
    and "\<forall>j. j \<noteq> i \<longrightarrow> stays_off (c j) (\<lambda>w. (ins w, outs w))"
    and "on_course (c i) ins outs pre post rep before ps n (T i) w"
  shows "on_course (c i) ins outs pre post rep before ps n (T' i) w'"
proof -
  obtain j where j: "turn c j (T, w) = (T', w')" using task_step_turn[OF assms(1)] by blast
  have "on_course (c i) ins outs pre post rep before ps (if j = i then Suc n else n) (T' i) w'"
    by (rule on_course_turn[OF assms(2,3) _ assms(5) j]) (use assms(4) in blast)
  then show ?thesis by (auto split: if_splits intro: on_course_Suc)
qed

text \<open>
  C7. Connections do not disturb each other.  However the tasks of any number of connections are
  interleaved and whatever the others do (handlers that die, peers that vanish, sends that fail, streams
  handed over), a connection whose handlers answer has, whenever its loop is about to read, read exactly
  its first packets and written exactly their replies, and when its task has ended, its peer was gone and
  every packet had been answered.
\<close>

theorem connections_do_not_interfere:
  assumes "(task_step c)\<^sup>*\<^sup>* (T0, w0) (T, w)"
    and "duplex (c i) ins outs pre post"
    and "answering (c i) ins outs (set (packets (c_lib (c i)) (map pre (ins w0)))) rep"
    and "\<forall>j. j \<noteq> i \<longrightarrow> stays_off (c j) (\<lambda>w. (ins w, outs w))"
    and "T0 i = Spawned"
  shows "case T i of
     Spawned \<Rightarrow> packets (c_lib (c i)) (map pre (ins w)) = packets (c_lib (c i)) (map pre (ins w0)) \<and> outs w = outs w0
   | Running rx' tx' \<Rightarrow> tx' \<noteq> None \<and>
       (\<exists>k. packets (c_lib (c i)) (map pre (ins w)) = drop k (packets (c_lib (c i)) (map pre (ins w0))) \<and>
            outs w = outs w0 @ map (\<lambda>(m, p). post (rep m p)) (take k (packets (c_lib (c i)) (map pre (ins w0)))))
   | Ended e \<Rightarrow> e = PeerGone \<and>
       outs w = outs w0 @ map (\<lambda>(m, p). post (rep m p)) (packets (c_lib (c i)) (map pre (ins w0)))"
proof -
  let ?on = "on_course (c i) ins outs pre post rep (outs w0) (packets (c_lib (c i)) (map pre (ins w0))) 0"
  have "?on (T0 i) w0" by (auto simp: on_course_def assms(5))
  with assms(1) have "?on (T i) w"
    by (induction rule: rtranclp_induct2) (auto intro: on_course_step[OF _ assms(2-4)])
  then show ?thesis by (auto simp: on_course_def split: task.splits)
qed

lemma on_course_schedule:
  assumes "duplex (c i) ins outs pre post" and "answering (c i) ins outs (set ps) rep"
    and "\<forall>j. j \<noteq> i \<longrightarrow> stays_off (c j) (\<lambda>w. (ins w, outs w))"
  shows "on_course (c i) ins outs pre post rep before ps n (T i) w \<Longrightarrow> run_schedule c sched (T, w) = (T', w') \<Longrightarrow>
     on_course (c i) ins outs pre post rep before ps (n + count_list sched i) (T' i) w'"
proof (induction sched arbitrary: n T w)
  case (Cons j js)
  obtain T1 w1 where 1: "turn c j (T, w) = (T1, w1)" by fastforce
  show ?case
    using Cons.IH[where T = T1 and w = w1, OF on_course_turn[OF assms(1,2) _ Cons.prems(1) 1]] assms(3) Cons.prems(2) 1
    by (auto split: if_splits)
qed simp

text \<open>
  No connection starves under a fair scheduler: whatever the other connections do, a connection whose
  handlers answer and whose task is polled twice more often than there are packets to arrive on it (once to
  begin, once to see the end) has, after that schedule, ended because its peer is gone, with every packet answered, in order.
\<close>

theorem fair_schedule_serves_connection:
  assumes "duplex (c i) ins outs pre post"
    and "answering (c i) ins outs (set (packets (c_lib (c i)) (map pre (ins w0)))) rep"
    and "\<forall>j. j \<noteq> i \<longrightarrow> stays_off (c j) (\<lambda>w. (ins w, outs w))"
    and "T0 i = Spawned"
    and "length (packets (c_lib (c i)) (map pre (ins w0))) + 2 \<le> count_list sched i"
    and "run_schedule c sched (T0, w0) = (T, w)"
  shows "T i = Ended PeerGone \<and>
     outs w = outs w0 @ map (\<lambda>(m, p). post (rep m p)) (packets (c_lib (c i)) (map pre (ins w0)))"
proof -
  let ?on = "on_course (c i) ins outs pre post rep (outs w0) (packets (c_lib (c i)) (map pre (ins w0)))"
  have "?on 0 (T0 i) w0" by (auto simp: on_course_def assms(4))
  then have "?on (count_list sched i) (T i) w"
    using on_course_schedule[OF assms(1-3) _ assms(6)] by fastforce
  then show ?thesis using assms(5) by (auto simp: on_course_def split: task.splits)
qed

section \<open>Example\<close>

text \<open>Two connections of a server without routes, each with its own half of the world.\<close>

definition on_part :: "('w \<Rightarrow> 'p) \<Rightarrow> ('p \<Rightarrow> 'w \<Rightarrow> 'w) \<Rightarrow> ('p \<Rightarrow> 'a \<times> 'p) \<Rightarrow> 'w \<Rightarrow> 'a \<times> 'w" where
  "on_part get put f w = (case f (get w) of (r, p) \<Rightarrow> (r, put p w))"

definition part_io :: "('w \<Rightarrow> qworld) \<Rightarrow> (qworld \<Rightarrow> 'w \<Rightarrow> 'w) \<Rightarrow> 'w conn_io" where
  "part_io get put =
     \<lparr>framed_next = \<lambda>f. on_part get put (framed_next queue_io f),
      framed_send = \<lambda>f b. on_part get put (framed_send queue_io f b),
      framed_close = \<lambda>f. on_part get put (framed_close queue_io f),
      framed_new = \<lambda>t cd w. (t, w), pre_process_traffic = \<lambda>p b w. (b, w), post_process_traffic = \<lambda>p b w. (b, w),
      processor_new = \<lambda>w. (0, w), processor_clone = \<lambda>p w. (p, w)\<rparr>"

definition pair_conn :: "nat \<Rightarrow> (u64, u64, qworld \<times> qworld) connection" where
  "pair_conn i =
     \<lparr>c_lib = sample_lib,
      c_io = (if i = 0 then part_io fst (\<lambda>p w. (p, snd w)) else part_io snd (\<lambda>p w. (fst w, p))),
      c_handoff = quiet_handoff, c_router = router_new 0, c_addr = ''peer'', c_stream = 0, c_processor = 0\<rparr>"

lemma pair_duplex: "duplex (pair_conn 0) (\<lambda>w. q_in (fst w)) (\<lambda>w. q_out (fst w)) (\<lambda>b. b) (\<lambda>b. b)"
  by (auto simp: duplex_def fifo_stream_def untouched_def pair_conn_def part_io_def on_part_def split: list.split)

lemma pair_stays_off: "j \<noteq> 0 \<Longrightarrow> stays_off (pair_conn j) (\<lambda>w. (q_in (fst w), q_out (fst w)))"
  by (auto simp: stays_off_def kept_def pair_conn_def part_io_def on_part_def routeless_serve split: list.split)

lemma pair_answering:
  "answering (pair_conn 0) (\<lambda>w. q_in (fst w)) (\<lambda>w. q_out (fst w)) {([9], [])} (\<lambda>m p. [6])"
  by (simp add: answering_def pair_conn_def serve_packet_def untouched_def)

abbreviation pair_start :: "(nat \<Rightarrow> task) \<times> qworld \<times> qworld" where
  "pair_start \<equiv> (\<lambda>i. Spawned, (fresh_world\<lparr>q_in := [[9]]\<rparr>, fresh_world))"

lemma pair_packets: "packets (c_lib (pair_conn 0)) (map (\<lambda>b. b) (q_in (fst (snd pair_start)))) = [([9], [])]"
  by (simp add: pair_conn_def wants_payload_def)

lemma pair_run:
  "fst (run_schedule pair_conn [1, 0, 1] pair_start) 1 = Ended PeerGone"
  "fst (run_schedule pair_conn [1, 0, 1] pair_start) 0 = Running 1 (Some 1)"
  by (simp_all add: turn_def conn_iter_def receive_message_def close_and_exit_def pair_conn_def part_io_def on_part_def)

theorem connections_do_not_interfere_witness:
  "case run_schedule pair_conn [1, 0, 1] pair_start of (T, w) \<Rightarrow>
     T 1 = Ended PeerGone \<and> T 0 = Running 1 (Some 1) \<and>
       (\<exists>k. packets sample_lib (q_in (fst w)) = drop k [([9], [])] \<and>
            q_out (fst w) = map (\<lambda>(m, p). [6]) (take k [([9 :: u8], [] :: bytes)]))"
proof -
  obtain T w where run: "run_schedule pair_conn [1, 0, 1] pair_start = (T, w)"
    by (cases "run_schedule pair_conn [1, 0, 1] pair_start")
  have steps: "(task_step pair_conn)\<^sup>*\<^sup>* (\<lambda>i. Spawned, snd pair_start) (T, w)"
    using run_schedule_steps[of pair_conn pair_start "[1, 0, 1]"] run by simp
  have "answering (pair_conn 0) (\<lambda>w. q_in (fst w)) (\<lambda>w. q_out (fst w))
      (set (packets (c_lib (pair_conn 0)) (map (\<lambda>b. b) (q_in (fst (snd pair_start)))))) (\<lambda>m p. [6])"
    unfolding pair_packets using pair_answering by simp
  moreover have "\<forall>j. j \<noteq> 0 \<longrightarrow> stays_off (pair_conn j) (\<lambda>w. (q_in (fst w), q_out (fst w)))"
    using pair_stays_off by blast
  ultimately have "\<exists>k. packets (c_lib (pair_conn 0)) (map (\<lambda>b. b) (q_in (fst w))) = drop k [([9], [])] \<and>
           q_out (fst w) = map (\<lambda>(m, p). [6]) (take k [([9 :: u8], [] :: bytes)])"
    using connections_do_not_interfere[OF steps pair_duplex _ _ refl, of "\<lambda>m p. [6]"] pair_run(2) run
    unfolding pair_packets by simp
  then show ?thesis using pair_run run by (simp add: pair_conn_def)
qed

theorem fair_schedule_serves_connection_witness:
  "case run_schedule pair_conn [1, 0, 0, 1, 0] pair_start of (T, w) \<Rightarrow>
     T 0 = Ended PeerGone \<and> q_out (fst w) = [[6]]"
proof -
  obtain T w where run: "run_schedule pair_conn [1, 0, 0, 1, 0] (\<lambda>i. Spawned, snd pair_start) = (T, w)"
    by (cases "run_schedule pair_conn [1, 0, 0, 1, 0] (\<lambda>i. Spawned, snd pair_start)")
  have "answering (pair_conn 0) (\<lambda>w. q_in (fst w)) (\<lambda>w. q_out (fst w))
      (set (packets (c_lib (pair_conn 0)) (map (\<lambda>b. b) (q_in (fst (snd pair_start)))))) (\<lambda>m p. [6])"
    unfolding pair_packets using pair_answering by simp
  moreover have "\<forall>j. j \<noteq> 0 \<longrightarrow> stays_off (pair_conn j) (\<lambda>w. (q_in (fst w), q_out (fst w)))"
    using pair_stays_off by blast
  ultimately have "T 0 = Ended PeerGone \<and> q_out (fst w) = [[6]]"
    using fair_schedule_serves_connection[OF pair_duplex _ _ refl _ run, of "\<lambda>m p. [6]"] unfolding pair_packets by simp
  then show ?thesis using run by simp
qed

end
