(* ===== verification/Server_Run.thy ===== *)
theory Server_Run
  imports Server Connections
begin

text \<open>
  The whole server process: the acceptor task and the connection tasks it spawned, in one world, under any
  schedule.  An actor that is polled makes one step: the acceptor takes one event and deals with it, a
  connection task makes its channel or runs one iteration of its loop.  Connection task \<open>i\<close> exists
  once the acceptor has spawned \<open>i + 1\<close> tasks.
\<close>

section \<open>The process\<close>

text \<open>
  The body of a spawned task: \<^verbatim>\<open>handle_connection\<close> with what the acceptor moved into it and the
  router of the server.
\<close>

definition connection_of ::
  "('st, 'tc) s_type_lib \<Rightarrow> 'w conn_io \<Rightarrow> 'w handoff_io \<Rightarrow> ('st, 'tc, 'w) tf_server
     \<Rightarrow> socket_addr \<times> framed \<times> processor \<Rightarrow> ('st, 'tc, 'w) connection" where
  "connection_of L IO H sv t =
     (case t of (addr, framed, prc_clone) \<Rightarrow>
        \<lparr>c_lib = L, c_io = IO, c_handoff = H, c_router = srv_router sv, c_addr = addr, c_stream = framed,
         c_processor = prc_clone\<rparr>)"

text \<open>
  The acceptor listens, waits for ever in the set-up of a stream, or has stopped.  \<open>started\<close> is the
  view of the world that lists the tasks spawned so far.
\<close>

datatype acceptor_status = Listening | Stuck | Stopped

datatype actor = Acceptor | Task nat

record 'w process =
  p_acceptor :: acceptor_status
  p_tasks :: "nat \<Rightarrow> task"
  p_world :: 'w

record ('st, 'tc, 'w) setting =
  s_lib :: "('st, 'tc) s_type_lib"
  s_net :: "'w server_net"
  s_io :: "'w conn_io"
  s_handoff :: "'w handoff_io"
  s_server :: "('st, 'tc, 'w) tf_server"
  s_acceptor :: acceptor
  s_started :: "'w \<Rightarrow> (socket_addr \<times> framed \<times> processor) list"

abbreviation s_conns ::
  "('st, 'tc, 'w) setting \<Rightarrow> socket_addr \<times> framed \<times> processor \<Rightarrow> ('st, 'tc, 'w) connection" where
  "s_conns S \<equiv> connection_of (s_lib S) (s_io S) (s_handoff S) (s_server S)"

definition acceptor_turn :: "('st, 'tc, 'w) setting \<Rightarrow> 'w process \<Rightarrow> 'w process" where
  "acceptor_turn S p =
     (case p_acceptor p of
        Listening \<Rightarrow>
          (case acceptor_select (s_net S) (a_listener (s_acceptor S)) (a_shutdown_sig (s_acceptor S)) (p_world p) of
             None \<Rightarrow> p
           | Some (ev, w1) \<Rightarrow>
               (if ev = ShutdownNotified then p\<lparr>p_acceptor := Stopped, p_world := w1\<rparr>
                else (case after_event (s_net S) (s_io S) (s_acceptor S) ev w1 of
                        None \<Rightarrow> p\<lparr>p_acceptor := Stuck, p_world := w1\<rparr>
                      | Some w2 \<Rightarrow> p\<lparr>p_world := w2\<rparr>)))
      | _ \<Rightarrow> p)"

definition task_turn :: "('st, 'tc, 'w) setting \<Rightarrow> nat \<Rightarrow> 'w process \<Rightarrow> 'w process" where
  "task_turn S i p =
     (let ts = s_started S (p_world p) in
      if i < length ts
      then (case turn (\<lambda>j. s_conns S (ts ! j)) i (p_tasks p, p_world p) of
              (T, w) \<Rightarrow> p\<lparr>p_tasks := T, p_world := w\<rparr>)
      else p)"

primrec actor_turn :: "('st, 'tc, 'w) setting \<Rightarrow> actor \<Rightarrow> 'w process \<Rightarrow> 'w process" where
  "actor_turn S Acceptor p = acceptor_turn S p"
| "actor_turn S (Task i) p = task_turn S i p"

section \<open>What is assumed of the world\<close>

text \<open>
  Spawning appends to the list of tasks and nothing else changes it; no task consumes the events of the
  acceptor.
\<close>

definition spawns :: "('st, 'tc, 'w) setting \<Rightarrow> ('w \<Rightarrow> acceptor_event list) \<Rightarrow> bool" where
  "spawns S events \<longleftrightarrow>
     event_queue (s_net S) (s_io S) (s_acceptor S) events \<and>
     accept_preserves (s_net S) (s_io S) (s_started S) \<and>
     (\<forall>t w. s_started S (spawn_connection (s_net S) t w) = s_started S w @ [t]) \<and>
     (\<forall>w ev w'. acceptor_select (s_net S) (a_listener (s_acceptor S)) (a_shutdown_sig (s_acceptor S)) w = Some (ev, w') \<longrightarrow>
        s_started S w' = s_started S w) \<and>
     (\<forall>t. stays_off (s_conns S t) (\<lambda>w. (s_started S w, events w)))"

lemma spawnsD:
  assumes "spawns S events"
  shows "event_queue (s_net S) (s_io S) (s_acceptor S) events"
    and "accept_preserves (s_net S) (s_io S) (s_started S)"
    and "\<forall>t w. s_started S (spawn_connection (s_net S) t w) = s_started S w @ [t]"
    and "acceptor_select (s_net S) (a_listener (s_acceptor S)) (a_shutdown_sig (s_acceptor S)) w = Some (ev, w') \<Longrightarrow>
       s_started S w' = s_started S w"
    and "stays_off (s_conns S t) (\<lambda>w. (s_started S w, events w))"
  using assms unfolding spawns_def by blast+

section \<open>Each actor alone\<close>

text \<open>A schedule of tasks only is the schedule of \<open>Connections\<close>.\<close>

lemma task_turns:
  assumes "spawns S events"
  shows "\<forall>j \<in> set js. j < length (s_started S (p_world p)) \<Longrightarrow>
     fold (actor_turn S) (map Task js) p =
     (case run_schedule (\<lambda>j. s_conns S (s_started S (p_world p) ! j)) js (p_tasks p, p_world p) of
        (T, w) \<Rightarrow> p\<lparr>p_tasks := T, p_world := w\<rparr>)"
proof (induction js arbitrary: p)
  case (Cons j js)
  let ?c = "\<lambda>j. s_conns S (s_started S (p_world p) ! j)"
  obtain T w where t: "turn ?c j (p_tasks p, p_world p) = (T, w)" by fastforce
  have "s_started S w = s_started S (p_world p)"
    using turn_stays_off(1)[OF spawnsD(5)[OF assms] t] by simp
  moreover have "actor_turn S (Task j) p = p\<lparr>p_tasks := T, p_world := w\<rparr>"
    using Cons.prems t by (simp add: task_turn_def Let_def)
  ultimately show ?case using Cons.IH[of "p\<lparr>p_tasks := T, p_world := w\<rparr>"] Cons.prems t by simp
qed simp

lemma tasks_alone:
  assumes "spawns S events" and "i < length (s_started S (p_world p))" and "p_tasks p i = Spawned"
  shows "handle_connection (s_conns S (s_started S (p_world p) ! i)) (p_world p) = Some (e, w') \<longleftrightarrow>
     (\<exists>n. fold (actor_turn S) (replicate n (Task i)) p =
        p\<lparr>p_tasks := (p_tasks p)(i := Ended e), p_world := w'\<rparr>)"
proof -
  let ?c = "\<lambda>j. s_conns S (s_started S (p_world p) ! j)"
  have "fold (actor_turn S) (replicate n (Task i)) p =
      (case run_schedule ?c (replicate n i) (p_tasks p, p_world p) of (T, w) \<Rightarrow> p\<lparr>p_tasks := T, p_world := w\<rparr>)" for n
    using task_turns[OF assms(1), of "replicate n i" p] assms(2) by (simp add: map_replicate)
  moreover have "p\<lparr>p_tasks := T, p_world := w\<rparr> = p\<lparr>p_tasks := T', p_world := w'\<rparr> \<longleftrightarrow> T = T' \<and> w = w'" for T w T' w'
    by (cases p) simp
  ultimately show ?thesis
    using task_alone_is_handle_connection[of "p_tasks p" i ?c "p_world p" e w'] assms(3)
    by (simp add: split_beta prod_eq_iff)
qed

abbreviation loop_of :: "('st, 'tc, 'w) setting \<Rightarrow> 'w \<Rightarrow> 'w option" where
  "loop_of S \<equiv> acceptor_loop (s_net S) (s_io S) (s_acceptor S)"

lemma acceptor_rests:
  "p_acceptor p \<noteq> Listening \<Longrightarrow> fold (actor_turn S) (replicate n Acceptor) p = p"
  by (induction n) (auto simp: acceptor_turn_def split: acceptor_status.splits)

lemma acceptor_turn_loop:
  assumes "p_acceptor p = Listening"
  shows "loop_of S (p_world p) =
     (case p_acceptor (acceptor_turn S p) of
        Stopped \<Rightarrow> Some (p_world (acceptor_turn S p))
      | Stuck \<Rightarrow> None
      | Listening \<Rightarrow>
          if acceptor_select (s_net S) (a_listener (s_acceptor S)) (a_shutdown_sig (s_acceptor S)) (p_world p) = None
          then None else loop_of S (p_world (acceptor_turn S p)))"
  using assms
  by (subst acceptor_loop.simps)
     (auto simp: acceptor_turn_def after_event_def split: option.split acceptor_event.split)

definition stops_with :: "('st, 'tc, 'w) setting \<Rightarrow> 'w \<Rightarrow> 'w \<Rightarrow> bool" where
  "stops_with S w w' \<longleftrightarrow>
     (\<forall>p. p_acceptor p = Listening \<longrightarrow> p_world p = w \<longrightarrow>
        (\<exists>n. fold (actor_turn S) (replicate n Acceptor) p = p\<lparr>p_acceptor := Stopped, p_world := w'\<rparr>))"

lemma stops_with_event:
  fixes S :: "('st, 'tc, 'w) setting"
  assumes "acceptor_select (s_net S) (a_listener (s_acceptor S)) (a_shutdown_sig (s_acceptor S)) w = Some (ev, w1)"
    and "if ev = ShutdownNotified then w' = w1
         else (\<exists>w2. after_event (s_net S) (s_io S) (s_acceptor S) ev w1 = Some w2 \<and> stops_with S w2 w')"
  shows "stops_with S w w'"
  unfolding stops_with_def
proof (intro allI impI)
  fix p :: "'w process"
  assume p: "p_acceptor p = Listening" "p_world p = w"
  show "\<exists>n. fold (actor_turn S) (replicate n Acceptor) p = p\<lparr>p_acceptor := Stopped, p_world := w'\<rparr>"
  proof (cases "ev = ShutdownNotified")
    case True
    then have "acceptor_turn S p = p\<lparr>p_acceptor := Stopped, p_world := w'\<rparr>"
      using p assms by (simp add: acceptor_turn_def)
    then show ?thesis by (intro exI[of _ 1]) simp
  next
    case False
    then obtain w2 where w2: "after_event (s_net S) (s_io S) (s_acceptor S) ev w1 = Some w2" "stops_with S w2 w'"
      using assms(2) by auto
    have turn: "acceptor_turn S p = p\<lparr>p_world := w2\<rparr>" using p assms(1) w2(1) False by (simp add: acceptor_turn_def)
    obtain n where "fold (actor_turn S) (replicate n Acceptor) (p\<lparr>p_world := w2\<rparr>) = p\<lparr>p_acceptor := Stopped, p_world := w'\<rparr>"
      using w2(2)[unfolded stops_with_def, rule_format, of "p\<lparr>p_world := w2\<rparr>"] p by auto
    then show ?thesis using turn by (intro exI[of _ "Suc n"]) simp
  qed
qed

lemma acceptor_loop_takes_turns: "loop_of S w = Some w' \<Longrightarrow> stops_with S w w'"
proof (induction rule: acceptor_loop_induct)
  case (Stop w w')
  then show ?case by (intro stops_with_event[OF Stop]) simp
next
  case (Event w ev w1 w2 w')
  then show ?case by (intro stops_with_event[OF Event(1)]) auto
qed

lemma acceptor_turns_run_loop:
  "p_acceptor p = Listening \<Longrightarrow> p' = fold (actor_turn S) (replicate n Acceptor) p \<Longrightarrow> p_acceptor p' = Stopped \<Longrightarrow>
   loop_of S (p_world p) = Some (p_world p')"
proof (induction n arbitrary: p)
  case (Suc n)
  show ?case
  proof (cases "p_acceptor (acceptor_turn S p)")
    case Listening
    show ?thesis
    proof (cases "acceptor_select (s_net S) (a_listener (s_acceptor S)) (a_shutdown_sig (s_acceptor S)) (p_world p)")
      case None
      then have "acceptor_turn S p = p" using Suc.prems(1) by (simp add: acceptor_turn_def)
      then show ?thesis using Suc by simp
    next
      case (Some evw)
      then show ?thesis
        using acceptor_turn_loop[OF Suc.prems(1), of S] Suc.IH[of "acceptor_turn S p"] Suc.prems(2,3) Listening by simp
    qed
  qed (use acceptor_turn_loop[OF Suc.prems(1), of S] Suc.prems acceptor_rests[of "acceptor_turn S p" S n] in simp_all)
qed simp

text \<open>
  Adequacy: the process is made of the code's tasks.  Connection task \<open>i\<close>, polled alone, ends with an
  exit and a world if and only if \<^verbatim>\<open>handle_connection\<close>, called with what the acceptor moved into the
  task, returns them; the acceptor, polled alone, stops with a world if and only if its loop returns it.
  A task whose function does not return never ends.
\<close>

lemma actors_alone_are_the_code:
  assumes "spawns S events" and "i < length (s_started S (p_world p))" and "p_tasks p i = Spawned"
    and "p_acceptor p = Listening"
  shows "(handle_connection (connection_of (s_lib S) (s_io S) (s_handoff S) (s_server S) (s_started S (p_world p) ! i))
        (p_world p) = Some (e, w') \<longleftrightarrow>
      (\<exists>n. fold (actor_turn S) (replicate n (Task i)) p = p\<lparr>p_tasks := (p_tasks p)(i := Ended e), p_world := w'\<rparr>)) \<and>
     (acceptor_loop (s_net S) (s_io S) (s_acceptor S) (p_world p) = Some w'' \<longleftrightarrow>
      (\<exists>n. fold (actor_turn S) (replicate n Acceptor) p = p\<lparr>p_acceptor := Stopped, p_world := w''\<rparr>))"
proof -
  have "p_acceptor (p\<lparr>p_acceptor := Stopped, p_world := w''\<rparr>) = Stopped" "p_world (p\<lparr>p_acceptor := Stopped, p_world := w''\<rparr>) = w''"
    by simp_all
  then have "loop_of S (p_world p) = Some w'' \<longleftrightarrow>
      (\<exists>n. fold (actor_turn S) (replicate n Acceptor) p = p\<lparr>p_acceptor := Stopped, p_world := w''\<rparr>)"
    using acceptor_loop_takes_turns[of S "p_world p" w''] acceptor_turns_run_loop[OF assms(4) _, of _ S] assms(4)
    unfolding stops_with_def by metis
  then show ?thesis using tasks_alone[OF assms(1-3)] by blast
qed

section \<open>What the acceptor has done\<close>

text \<open>
  The acceptor has taken the first events, and the tasks are those that were there and one for each of
  these events whose stream the gates let in.
\<close>

definition accepted_first ::
  "('st, 'tc, 'w) setting \<Rightarrow> ('w \<Rightarrow> acceptor_event list) \<Rightarrow> (nat \<Rightarrow> verdict) \<Rightarrow> 'w \<Rightarrow> 'w \<Rightarrow> bool" where
  "accepted_first S events verdict_on w0 w \<longleftrightarrow>
     (\<exists>k. events w = drop k (events w0) \<and>
          s_started S w = s_started S w0 @ connections_for verdict_on (take k (events w0)))"

lemma connections_for_append:
  "connections_for verdict_on (xs @ ys) = connections_for verdict_on xs @ connections_for verdict_on ys"
  by (simp add: connections_for_def List.map_filter_def)

lemma acceptor_turn_accepts:
  assumes "spawns S events" and "gates_decide (s_net S) (s_io S) (s_acceptor S) verdict_on"
    and "accepted_first S events verdict_on w0 (p_world p)"
  shows "accepted_first S events verdict_on w0 (p_world (acceptor_turn S p))"
proof (cases "p_acceptor p = Listening \<and> events (p_world p) \<noteq> []")
  case False
  then have "acceptor_turn S p = p"
    using event_queue_select_Nil[OF spawnsD(1)[OF assms(1)], of "p_world p"]
    by (auto simp: acceptor_turn_def split: acceptor_status.split)
  then show ?thesis using assms(3) by simp
next
  case True
  obtain k where k: "events (p_world p) = drop k (events w0)"
      "s_started S (p_world p) = s_started S w0 @ connections_for verdict_on (take k (events w0))"
    using assms(3) by (auto simp: accepted_first_def)
  obtain ev evs where ev: "events (p_world p) = ev # evs" using True by (cases "events (p_world p)") auto
  obtain w1 where w1: "acceptor_select (s_net S) (a_listener (s_acceptor S)) (a_shutdown_sig (s_acceptor S)) (p_world p) =
      Some (ev, w1)" "events w1 = evs"
    using event_queue_Cons[OF spawnsD(1)[OF assms(1)] ev] .
  have st1: "s_started S w1 = s_started S (p_world p)" using spawnsD(4)[OF assms(1) w1(1)] .
  have ks: "take (Suc k) (events w0) = take k (events w0) @ [ev]" "evs = drop (Suc k) (events w0)"
    using drop_Cons_step[of k "events w0" ev evs] k(1) ev by simp_all
  show ?thesis
  proof (cases "passes verdict_on ev")
    case passes: True
    then obtain w' w2 where w2: "after_event (s_net S) (s_io S) (s_acceptor S) ev w1 = Some w2" "events w2 = evs"
      using acceptor_goes_on[OF spawnsD(1)[OF assms(1)] assms(2) ev] w1(1) by auto
    have "s_started S w2 = s_started S w1 @ connections_for verdict_on [ev]"
      by (rule after_event_started[OF spawnsD(2,3)[OF assms(1)] assms(2) passes w2(1)])
    moreover have "acceptor_turn S p = p\<lparr>p_world := w2\<rparr>"
      using True w1(1) w2(1) passes by (auto simp: acceptor_turn_def passes_def)
    ultimately show ?thesis
      using k ks st1 w2(2) by (auto simp: accepted_first_def connections_for_append intro!: exI[of _ "Suc k"])
  next
    case False
    have "connections_for verdict_on [ev] = []"
      using False by (cases ev) (auto simp: passes_def connections_for_def List.map_filter_def)
    moreover have "admit (s_net S) (s_io S) (s_acceptor S) stream addr w1 = None" if "ev = Accepted stream addr" for stream addr
      using that False by (simp add: admit_stalls gates_decide_stalls[OF assms(2)] passes_def)
    then have "p_world (acceptor_turn S p) = w1"
      using True w1(1) False by (cases ev) (simp_all add: acceptor_turn_def passes_def after_event_def)
    ultimately show ?thesis
      using k ks st1 w1(2) by (auto simp: accepted_first_def connections_for_append intro!: exI[of _ "Suc k"])
  qed
qed

lemma task_turn_accepts:
  assumes "spawns S events" and "accepted_first S events verdict_on w0 (p_world p)"
  shows "accepted_first S events verdict_on w0 (p_world (task_turn S i p))"
proof -
  let ?c = "\<lambda>j. s_conns S (s_started S (p_world p) ! j)"
  obtain T w where t: "turn ?c i (p_tasks p, p_world p) = (T, w)" by fastforce
  have "(s_started S w, events w) = (s_started S (p_world p), events (p_world p))"
    using turn_stays_off(1)[OF spawnsD(5)[OF assms(1)] t] by simp
  then show ?thesis using assms(2) t by (simp add: task_turn_def Let_def accepted_first_def)
qed

lemma actor_turn_accepts:
  assumes "spawns S events" and "gates_decide (s_net S) (s_io S) (s_acceptor S) verdict_on"
    and "accepted_first S events verdict_on w0 (p_world p)"
  shows "accepted_first S events verdict_on w0 (p_world (actor_turn S act p))"
  using acceptor_turn_accepts[OF assms] task_turn_accepts[OF assms(1,3)] by (cases act) simp_all

section \<open>One connection in the process\<close>

text \<open>
  The stream of task \<open>i\<close> is its own: neither the acceptor nor a task for another stream touches what
  waits on it or what was written to it, and no later stream gets the same reference.
\<close>

abbreviation stream_of :: "socket_addr \<times> framed \<times> processor \<Rightarrow> framed" where
  "stream_of t \<equiv> fst (snd t)"

definition own_stream ::
  "('st, 'tc, 'w) setting \<Rightarrow> ('w \<Rightarrow> acceptor_event list) \<Rightarrow> (nat \<Rightarrow> verdict) \<Rightarrow> 'w \<Rightarrow> nat
     \<Rightarrow> ('w \<Rightarrow> bytes list) \<Rightarrow> ('w \<Rightarrow> bytes list) \<Rightarrow> bool" where
  "own_stream S events verdict_on w0 i ins outs \<longleftrightarrow>
     i < length (s_started S w0) \<and>
     distinct (map stream_of (s_started S w0 @ connections_for verdict_on (events w0))) \<and>
     accept_preserves (s_net S) (s_io S) (\<lambda>w. (ins w, outs w)) \<and>
     (\<forall>t w. untouched ins outs w (spawn_connection (s_net S) t w)) \<and>
     (\<forall>w ev w'. acceptor_select (s_net S) (a_listener (s_acceptor S)) (a_shutdown_sig (s_acceptor S)) w = Some (ev, w') \<longrightarrow>
        untouched ins outs w w') \<and>
     (\<forall>t. stream_of t \<noteq> stream_of (s_started S w0 ! i) \<longrightarrow> stays_off (s_conns S t) (\<lambda>w. (ins w, outs w)))"

lemma accepted_first_nth:
  assumes "accepted_first S events verdict_on w0 w" and "own_stream S events verdict_on w0 i ins outs"
  shows "i < length (s_started S w)" and "s_started S w ! i = s_started S w0 ! i"
    and "j < length (s_started S w) \<Longrightarrow> j \<noteq> i \<Longrightarrow> stream_of (s_started S w ! j) \<noteq> stream_of (s_started S w0 ! i)"
proof -
  obtain k where st: "s_started S w = s_started S w0 @ connections_for verdict_on (take k (events w0))"
    using assms(1) by (auto simp: accepted_first_def)
  have i: "i < length (s_started S w0)" and d: "distinct (map stream_of (s_started S w0 @ connections_for verdict_on (events w0)))"
    using assms(2) unfolding own_stream_def by blast+
  have "connections_for verdict_on (events w0) =
      connections_for verdict_on (take k (events w0)) @ connections_for verdict_on (drop k (events w0))"
    by (metis connections_for_append append_take_drop_id)
  then have "distinct (map stream_of (s_started S w))" using d st by auto
  moreover show "i < length (s_started S w)" "s_started S w ! i = s_started S w0 ! i"
    using st i by (simp_all add: nth_append)
  ultimately show "j < length (s_started S w) \<Longrightarrow> j \<noteq> i \<Longrightarrow>
      stream_of (s_started S w ! j) \<noteq> stream_of (s_started S w0 ! i)"
    by (metis length_map nth_eq_iff_index_eq nth_map)
qed

lemma admit_keeps_stream:
  assumes "own_stream S events verdict_on w0 i ins outs"
    and "after_event (s_net S) (s_io S) (s_acceptor S) ev w = Some w'"
  shows "ins w' = ins w \<and> outs w' = outs w"
proof -
  have pres: "accept_preserves (s_net S) (s_io S) (\<lambda>w. (ins w, outs w))"
    and spawn: "\<And>t w. ins (spawn_connection (s_net S) t w) = ins w \<and> outs (spawn_connection (s_net S) t w) = outs w"
    using assms(1) by (auto simp: own_stream_def untouched_def)
  show ?thesis
    using assms(2)
    by (auto simp: after_event_def admit_def spawn split: acceptor_event.splits outcome_splits
          dest!: accept_preservesD[OF pres] initial_accept_preserves[OF pres])
qed

lemma acceptor_turn_keeps:
  assumes "own_stream S events verdict_on w0 i ins outs"
  shows "ins (p_world (acceptor_turn S p)) = ins (p_world p) \<and> outs (p_world (acceptor_turn S p)) = outs (p_world p)"
    and "p_tasks (acceptor_turn S p) = p_tasks p"
proof -
  have sel: "acceptor_select (s_net S) (a_listener (s_acceptor S)) (a_shutdown_sig (s_acceptor S)) w = Some (ev, w') \<Longrightarrow>
      ins w' = ins w \<and> outs w' = outs w" for w ev w'
    using assms unfolding own_stream_def untouched_def by blast
  show "ins (p_world (acceptor_turn S p)) = ins (p_world p) \<and> outs (p_world (acceptor_turn S p)) = outs (p_world p)"
    by (auto simp: acceptor_turn_def split: acceptor_status.split option.split prod.split
          dest!: sel admit_keeps_stream[OF assms])
  show "p_tasks (acceptor_turn S p) = p_tasks p"
    by (auto simp: acceptor_turn_def split: acceptor_status.split option.split prod.split)
qed

lemma actor_turn_on_course:
  assumes "own_stream S events verdict_on w0 i ins outs" and "accepted_first S events verdict_on w0 (p_world p)"
    and "c = s_conns S (s_started S w0 ! i)"
    and "duplex c ins outs pre post" and "answering c ins outs (set ps) rep"
    and "on_course c ins outs pre post rep before ps n (p_tasks p i) (p_world p)"
  shows "on_course c ins outs pre post rep before ps (if act = Task i then Suc n else n)
     (p_tasks (actor_turn S act p) i) (p_world (actor_turn S act p))"
proof (cases act)
  case Acceptor
  then show ?thesis
    using acceptor_turn_keeps[OF assms(1), of p] on_course_kept[OF assms(6)] by simp
next
  case (Task j)
  note nth = accepted_first_nth[OF assms(2,1)]
  let ?ts = "s_started S (p_world p)"
  let ?c = "\<lambda>j. s_conns S (?ts ! j)"
  show ?thesis
  proof (cases "j < length ?ts")
    case True
    obtain T w where t: "turn ?c j (p_tasks p, p_world p) = (T, w)" by fastforce
    have ci: "?c i = c" using nth(2) assms(3) by simp
    have off: "stays_off (?c j) (\<lambda>w. (ins w, outs w))" if "j \<noteq> i"
      using nth(3)[OF True that] assms(1) unfolding own_stream_def by blast
    have "on_course (?c i) ins outs pre post rep before ps (if j = i then Suc n else n) (T i) w"
      by (rule on_course_turn[OF _ _ off _ t]) (use assms(4-6) ci in simp_all)
    then show ?thesis using ci True t Task by (simp add: task_turn_def Let_def)
  next
    case False
    then have "j \<noteq> i" using nth(1) by auto
    then show ?thesis using False Task assms(6) by (simp add: task_turn_def)
  qed
qed

lemma process_runs:
  assumes "spawns S events" and "gates_decide (s_net S) (s_io S) (s_acceptor S) verdict_on"
    and "own_stream S events verdict_on w0 i ins outs" and "c = s_conns S (s_started S w0 ! i)"
    and "duplex c ins outs pre post" and "answering c ins outs (set ps) rep"
  shows "accepted_first S events verdict_on w0 (p_world p) \<Longrightarrow>
     on_course c ins outs pre post rep before ps n (p_tasks p i) (p_world p) \<Longrightarrow>
     p' = fold (actor_turn S) sched p \<Longrightarrow>
     accepted_first S events verdict_on w0 (p_world p') \<and>
     on_course c ins outs pre post rep before ps (n + count_list sched (Task i)) (p_tasks p' i) (p_world p')"
proof (induction sched arbitrary: n p)
  case (Cons act sched)
  show ?case
    using Cons.IH[OF actor_turn_accepts[OF assms(1,2) Cons.prems(1)]
        actor_turn_on_course[OF assms(3) Cons.prems(1) assms(4-6) Cons.prems(2), of act]] Cons.prems(3)
    by (auto split: if_splits)
qed simp

text \<open>
  C4. The whole server, for every schedule of its acceptor and its connection tasks.  The tasks spawned are
  those of the streams that the gates let in, among the events taken so far and in their order.  A connection
  whose handlers answer, and which the scheduler polls often enough, gets every packet answered, in order, and
  ends because its peer is gone: whether the acceptor meanwhile accepts others, is kept waiting by a peer or
  has been stopped, and whatever becomes of the other connections.
\<close>

theorem server_process_serves:
  assumes "spawns S events" and "gates_decide (s_net S) (s_io S) (s_acceptor S) verdict_on"
    and "own_stream S events verdict_on (p_world p) i ins outs"
    and "c = connection_of (s_lib S) (s_io S) (s_handoff S) (s_server S) (s_started S (p_world p) ! i)"
    and "duplex c ins outs pre post"
    and "answering c ins outs (set (packets (c_lib c) (map pre (ins (p_world p))))) rep"
    and "p_tasks p i = Spawned"
    and "length (packets (c_lib c) (map pre (ins (p_world p)))) + 2 \<le> count_list sched (Task i)"
    and "p' = fold (actor_turn S) sched p"
  shows "p_tasks p' i = Ended PeerGone \<and>
     outs (p_world p') = outs (p_world p) @
       map (\<lambda>(m, q). post (rep m q)) (packets (c_lib c) (map pre (ins (p_world p)))) \<and>
     (\<exists>k. events (p_world p') = drop k (events (p_world p)) \<and>
          s_started S (p_world p') =
            s_started S (p_world p) @ connections_for verdict_on (take k (events (p_world p))))"
proof -
  let ?ps = "packets (c_lib c) (map pre (ins (p_world p)))"
  have "accepted_first S events verdict_on (p_world p) (p_world p)"
    by (auto simp: accepted_first_def intro: exI[of _ 0])
  moreover have "on_course c ins outs pre post rep (outs (p_world p)) ?ps 0 (p_tasks p i) (p_world p)"
    by (simp add: on_course_def assms(7))
  ultimately have run: "accepted_first S events verdict_on (p_world p) (p_world p')"
      "on_course c ins outs pre post rep (outs (p_world p)) ?ps (count_list sched (Task i)) (p_tasks p' i) (p_world p')"
    using process_runs[OF assms(1-6) _ _ assms(9)] by force+
  have "p_tasks p' i = Ended PeerGone \<and> outs (p_world p') = outs (p_world p) @ map (\<lambda>(m, q). post (rep m q)) ?ps"
    using run(2) assms(8) by (auto simp: on_course_def split: task.splits)
  then show ?thesis using run(1) by (simp add: accepted_first_def)
qed

section \<open>Example\<close>

text \<open>
  A server without routes on a world with a pair of queues per stream.  While it serves stream 7, the acceptor
  takes another stream and is then kept waiting by the peer of stream 66.
\<close>

record pworld = sworld +
  pw_in :: "framed \<Rightarrow> bytes list"
  pw_out :: "framed \<Rightarrow> bytes list"

definition streams_io :: "pworld conn_io" where
  "streams_io =
     \<lparr>framed_next = (\<lambda>f w. case pw_in w f of [] \<Rightarrow> (None, w) | x # xs \<Rightarrow> (Some (Ok x), w\<lparr>pw_in := (pw_in w)(f := xs)\<rparr>)),
      framed_send = (\<lambda>f b w. (Ok (), w\<lparr>pw_out := (pw_out w)(f := pw_out w f @ [b])\<rparr>)),
      framed_close = (\<lambda>f w. (Ok (), w)),
      framed_new = (\<lambda>t cd w. (t, w)),
      pre_process_traffic = (\<lambda>p b w. (b, w)),
      post_process_traffic = (\<lambda>p b w. (b, w)),
      processor_new = (\<lambda>w. (0, w)),
      processor_clone = (\<lambda>p w. (p, w))\<rparr>"

definition sample_server :: "(u64, u64, pworld) tf_server" where
  "sample_server =
     \<lparr>srv_router = router_new 0, srv_socket = 0, srv_shutdown_sig = 0, srv_processor = None, srv_codec = 0,
      srv_config = Some 0, srv_mode = SM_Tcp\<rparr>"

definition sample_setting :: "(u64, u64, pworld) setting" where
  "sample_setting =
     \<lparr>s_lib = sample_lib, s_net = sample_net, s_io = streams_io, s_handoff = quiet_handoff,
      s_server = sample_server, s_acceptor = sample_acceptor, s_started = sw_started\<rparr>"

definition sample_process :: "pworld process" where
  "sample_process =
     \<lparr>p_acceptor = Listening, p_tasks = \<lambda>i. Spawned,
      p_world = \<lparr>q_in = [], q_out = [], q_closed = False,
        sw_events = [Accepted 8 ''b'', Accepted 66 ''mute'', ShutdownNotified], sw_started = [(''a'', 7, 0)],
        pw_in = \<lambda>f. if f = 7 then [[9]] else [], pw_out = \<lambda>f. []\<rparr>\<rparr>"

lemma sample_setting_simps [simp]:
  "s_net sample_setting = sample_net" "s_io sample_setting = streams_io" "s_acceptor sample_setting = sample_acceptor"
  "s_started sample_setting = sw_started"
  "s_lib sample_setting = sample_lib" "s_handoff sample_setting = quiet_handoff" "s_server sample_setting = sample_server"
  by (simp_all add: sample_setting_def)

lemma streams_accept_preserves:
  "accept_preserves sample_net streams_io sw_started" "accept_preserves sample_net streams_io sw_events"
  "accept_preserves sample_net streams_io (\<lambda>w. (pw_in w f, pw_out w f))"
  by (simp_all add: accept_preserves_def kept_def kept_if_done_def sample_net_def streams_io_def)

lemma sample_connection_stays_off:
  assumes "\<And>xs w. v (w\<lparr>pw_in := (pw_in w)(f := xs)\<rparr>) = v w" and "\<And>xs w. v (w\<lparr>pw_out := (pw_out w)(f := xs)\<rparr>) = v w"
  shows "stays_off (connection_of sample_lib streams_io quiet_handoff sample_server (a, f, p)) v"
  using assms
  by (auto simp: stays_off_def kept_def connection_of_def streams_io_def sample_server_def routeless_serve split: list.split)

lemma sample_spawns: "spawns sample_setting sw_events"
proof -
  have "stays_off (connection_of sample_lib streams_io quiet_handoff sample_server t) (\<lambda>w. (sw_started w, sw_events w))" for t
    by (cases t) (simp add: sample_connection_stays_off)
  then show ?thesis
    using streams_accept_preserves(1,2)
    by (auto simp: spawns_def event_queue_def sample_net_def split: list.splits)
qed

lemma sample_process_gates: "gates_decide sample_net streams_io sample_acceptor sample_verdict"
  by (auto simp: gates_decide_def sample_verdict_def admitted.simps stalls.simps initial_accept_def sample_net_def
      sample_acceptor_def streams_io_def)

lemma sample_own_stream:
  "own_stream sample_setting sw_events sample_verdict (p_world sample_process) 0 (\<lambda>w. pw_in w 7) (\<lambda>w. pw_out w 7)"
proof -
  have "sw_started (p_world sample_process) = [(''a'', 7, 0)]"
    "sw_events (p_world sample_process) = [Accepted 8 ''b'', Accepted 66 ''mute'', ShutdownNotified]"
    by (simp_all add: sample_process_def)
  moreover have "stays_off (connection_of sample_lib streams_io quiet_handoff sample_server t)
      (\<lambda>w. (pw_in w 7, pw_out w 7))" if "stream_of t \<noteq> 7" for t
    using that by (cases t) (simp add: sample_connection_stays_off)
  ultimately show ?thesis
    using streams_accept_preserves(3)
    by (auto simp: own_stream_def untouched_def sample_verdict_def connections_for_def List.map_filter_def sample_net_def
          split: list.splits)
qed

theorem server_process_serves_witness:
  "p_tasks (fold (actor_turn sample_setting) [Acceptor, Task 0, Task 0, Acceptor, Task 1, Task 0] sample_process) 0 =
     Ended PeerGone \<and>
   pw_out (p_world (fold (actor_turn sample_setting) [Acceptor, Task 0, Task 0, Acceptor, Task 1, Task 0] sample_process)) 7 =
     [[6]]"
proof -
  let ?sched = "[Acceptor, Task 0, Task 0, Acceptor, Task 1, Task 0]"
  let ?c = "connection_of sample_lib streams_io quiet_handoff sample_server (''a'', 7, 0)"
  have c: "?c = s_conns sample_setting (s_started sample_setting (p_world sample_process) ! 0)"
    by (simp add: sample_process_def)
  have dx: "duplex ?c (\<lambda>w. pw_in w 7) (\<lambda>w. pw_out w 7) (\<lambda>b. b) (\<lambda>b. b)"
    by (auto simp: duplex_def fifo_stream_def untouched_def connection_of_def streams_io_def split: list.split)
  have ps: "packets (c_lib ?c) (map (\<lambda>b. b) (pw_in (p_world sample_process) 7)) = [([9], [])]"
    by (simp add: connection_of_def wants_payload_def sample_process_def)
  have ans: "answering ?c (\<lambda>w. pw_in w 7) (\<lambda>w. pw_out w 7)
      (set (packets (c_lib ?c) (map (\<lambda>b. b) (pw_in (p_world sample_process) 7)))) (\<lambda>m p. [6])"
    unfolding ps by (simp add: answering_def connection_of_def sample_server_def serve_packet_def untouched_def)
  have gates: "gates_decide (s_net sample_setting) (s_io sample_setting) (s_acceptor sample_setting) sample_verdict"
    using sample_process_gates by simp
  show ?thesis
    using server_process_serves[OF sample_spawns gates sample_own_stream c dx ans _ _ refl, of ?sched] unfolding ps
    by (simp add: sample_process_def)
qed

end
