(* ===== verification/Server_Stop.thy ===== *)
theory Server_Stop
  imports Server
begin

text \<open>
  The stop signal.  \<^verbatim>\<open>send_stop\<close> wakes the tasks that wait for the signal at that moment and
  leaves nothing behind for later ones.  The acceptor waits for it only while it selects; while it sets up an
  accepted stream it does not.  Here an acceptor that is polled, calls of \<open>send_stop\<close> and steps of
  other tasks are interleaved in any order.
\<close>

section \<open>The acceptor between its awaits\<close>

text \<open>
  The acceptor is suspended in its \<^verbatim>\<open>select!\<close> or in the set-up of a stream, or its task has ended.
  \<open>register\<close> is what a poll of a select without a ready event does: the acceptor is from then on among
  those who wait for the signal.
\<close>

datatype phase = Selecting | SettingUp nat socket_addr | Finished

definition poll_acceptor ::
  "'w server_net \<Rightarrow> 'w conn_io \<Rightarrow> acceptor \<Rightarrow> ('w \<Rightarrow> 'w) \<Rightarrow> phase \<times> 'w \<Rightarrow> phase \<times> 'w" where
  "poll_acceptor N IO a register st =
     (case st of
        (Selecting, w) \<Rightarrow>
          (case acceptor_select N (a_listener a) (a_shutdown_sig a) w of
             None \<Rightarrow> (Selecting, register w)
           | Some (Accepted stream addr, w1) \<Rightarrow> (SettingUp stream addr, w1)
           | Some (AcceptFailed e, w1) \<Rightarrow> (Selecting, w1)
           | Some (ShutdownNotified, w1) \<Rightarrow> (Finished, w1))
      | (SettingUp stream addr, w) \<Rightarrow>
          (case admit N IO a stream addr w of
             None \<Rightarrow> (SettingUp stream addr, w)
           | Some w1 \<Rightarrow> (Selecting, w1))
      | (Finished, w) \<Rightarrow> (Finished, w))"

text \<open>What is left of the loop in each phase.\<close>

definition rest_of_loop :: "'w server_net \<Rightarrow> 'w conn_io \<Rightarrow> acceptor \<Rightarrow> phase \<times> 'w \<Rightarrow> 'w option" where
  "rest_of_loop N IO a st =
     (case st of
        (Selecting, w) \<Rightarrow> acceptor_loop N IO a w
      | (SettingUp stream addr, w) \<Rightarrow> Option.bind (admit N IO a stream addr w) (acceptor_loop N IO a)
      | (Finished, w) \<Rightarrow> Some w)"

lemma poll_rest_of_loop:
  assumes "event_queue N IO a events" and "\<And>w. events (register w) = events w"
  shows "rest_of_loop N IO a (poll_acceptor N IO a register st) = rest_of_loop N IO a st"
proof -
  have idle: "acceptor_loop N IO a w = None" "acceptor_loop N IO a (register w) = None"
    if "acceptor_select N (a_listener a) (a_shutdown_sig a) w = None" for w
  proof -
    have "events w = []" by (cases "events w") (auto elim: event_queue_Cons[OF assms(1)] simp: that)
    then show "acceptor_loop N IO a w = None" "acceptor_loop N IO a (register w) = None"
      by (simp_all add: event_queue_Nil[OF assms(1)] assms(2))
  qed
  have sel: "rest_of_loop N IO a (poll_acceptor N IO a register (Selecting, w)) = rest_of_loop N IO a (Selecting, w)" for w
  proof (cases "acceptor_select N (a_listener a) (a_shutdown_sig a) w")
    case (Some evw)
    then show ?thesis
      by (cases evw; cases "fst evw")
         (simp_all add: poll_acceptor_def rest_of_loop_def acceptor_loop.simps[of N IO a w])
  qed (simp add: poll_acceptor_def rest_of_loop_def idle)
  obtain ph w where st: "st = (ph, w)" by (cases st)
  show ?thesis
    by (cases ph) (simp_all add: st sel, simp_all add: poll_acceptor_def rest_of_loop_def split: option.split)
qed

lemma polls_rest_of_loop:
  assumes "event_queue N IO a events" and "\<And>w. events (register w) = events w"
  shows "rest_of_loop N IO a ((poll_acceptor N IO a register ^^ n) st) = rest_of_loop N IO a st"
  by (induction n) (simp_all add: poll_rest_of_loop[OF assms])

lemma acceptor_loop_polled:
  assumes "acceptor_loop N IO a w = Some w'"
  shows "\<exists>n. (poll_acceptor N IO a register ^^ n) (Selecting, w) = (Finished, w')"
  using assms
proof (induction rule: acceptor_loop_induct)
  case (Stop w w')
  then show ?case by (intro exI[of _ 1]) (simp add: poll_acceptor_def)
next
  case (Event w ev w1 w2 w')
  then obtain n where n: "(poll_acceptor N IO a register ^^ n) (Selecting, w2) = (Finished, w')" by blast
  have "\<exists>m. (poll_acceptor N IO a register ^^ m) (Selecting, w) = (Selecting, w2)"
  proof (cases ev)
    case (Accepted stream addr)
    then show ?thesis using Event(1,3)
      by (intro exI[of _ 2]) (simp add: numeral_2_eq_2 poll_acceptor_def after_event_def)
  next
    case (AcceptFailed e)
    then show ?thesis using Event(1,3) by (intro exI[of _ 1]) (simp add: poll_acceptor_def after_event_def)
  qed (use Event(2) in simp)
  then obtain m where "(poll_acceptor N IO a register ^^ m) (Selecting, w) = (Selecting, w2)" ..
  then show ?case using n by (intro exI[of _ "n + m"]) (simp add: funpow_add)
qed

text \<open>Polled alone, the acceptor is its loop.\<close>

lemma polls_are_acceptor_loop:
  assumes "event_queue N IO a events" and "\<And>w. events (register w) = events w"
  shows "acceptor_loop N IO a w = Some w' \<longleftrightarrow> (\<exists>n. (poll_acceptor N IO a register ^^ n) (Selecting, w) = (Finished, w'))"
proof
  assume "\<exists>n. (poll_acceptor N IO a register ^^ n) (Selecting, w) = (Finished, w')"
  then obtain n where "(poll_acceptor N IO a register ^^ n) (Selecting, w) = (Finished, w')" ..
  then show "acceptor_loop N IO a w = Some w'"
    using polls_rest_of_loop[where n = n and register = register and st = "(Selecting, w)", OF assms] by (simp add: rest_of_loop_def)
qed (rule acceptor_loop_polled)

section \<open>The signal\<close>

text \<open>
  Moves: the scheduler polls the acceptor, somebody calls \<^verbatim>\<open>send_stop\<close> on the server, or another task
  changes the world.
\<close>

datatype 'w stop_move = Poll | Stop | Other "'w \<Rightarrow> 'w"

primrec stop_step ::
  "'w server_net \<Rightarrow> 'w conn_io \<Rightarrow> acceptor \<Rightarrow> ('w \<Rightarrow> 'w) \<Rightarrow> ('st, 'tc, 'w) tf_server \<Rightarrow> 'w stop_move \<Rightarrow> phase \<times> 'w \<Rightarrow> phase \<times> 'w" where
  "stop_step N IO a register sv Poll st = poll_acceptor N IO a register st"
| "stop_step N IO a register sv Stop st = (fst st, send_stop N sv (snd st))"
| "stop_step N IO a register sv (Other f) st = (fst st, f (snd st))"

text \<open>
  What is assumed of the signal.  \<open>events\<close> are the events that are ready for the acceptor's select,
  \<open>waiter w\<close> says that somebody waits for the signal.  A call without a waiter wakes nobody and stores
  nothing.  Once a stream arrived, the select no longer waits for the signal.  A select that is polled
  without a ready event waits for it.  When the acceptor waits and nothing else is ready, the call is what
  wakes it.
\<close>

definition notify_laws ::
  "'w server_net \<Rightarrow> 'w conn_io \<Rightarrow> acceptor \<Rightarrow> ('w \<Rightarrow> 'w) \<Rightarrow> ('w \<Rightarrow> acceptor_event list) \<Rightarrow> ('w \<Rightarrow> bool) \<Rightarrow> bool" where
  "notify_laws N IO a register events waiter \<longleftrightarrow>
     event_queue N IO a events \<and>
     (\<forall>w. events (register w) = events w \<and> waiter (register w)) \<and>
     (\<forall>w stream addr w'. acceptor_select N (a_listener a) (a_shutdown_sig a) w = Some (Accepted stream addr, w') \<longrightarrow> \<not> waiter w') \<and>
     (\<forall>w. \<not> waiter w \<longrightarrow>
        \<not> waiter (notify_waiters N (a_shutdown_sig a) w) \<and> events (notify_waiters N (a_shutdown_sig a) w) = events w) \<and>
     (\<forall>w. waiter w \<and> events w = [] \<longrightarrow> events (notify_waiters N (a_shutdown_sig a) w) = [ShutdownNotified])"

lemma notify_lawsD:
  assumes "notify_laws N IO a register events waiter"
  shows "event_queue N IO a events" and "events (register w) = events w" and "waiter (register w)"
    and "acceptor_select N (a_listener a) (a_shutdown_sig a) w = Some (Accepted stream addr, w') \<Longrightarrow> \<not> waiter w'"
    and "\<not> waiter w \<Longrightarrow> \<not> waiter (notify_waiters N (a_shutdown_sig a) w)"
    and "\<not> waiter w \<Longrightarrow> events (notify_waiters N (a_shutdown_sig a) w) = events w"
    and "waiter w \<Longrightarrow> events w = [] \<Longrightarrow> events (notify_waiters N (a_shutdown_sig a) w) = [ShutdownNotified]"
  using assms unfolding notify_laws_def by blast+

text \<open>
  A schedule whose calls of \<open>send_stop\<close> all fall into the set-up of a stream or come while nobody waits
  (before the acceptor's first poll, say); the other tasks neither wait for the signal nor send it.
\<close>

primrec stops_unheard ::
  "'w server_net \<Rightarrow> 'w conn_io \<Rightarrow> acceptor \<Rightarrow> ('w \<Rightarrow> 'w) \<Rightarrow> ('st, 'tc, 'w) tf_server
     \<Rightarrow> ('w \<Rightarrow> acceptor_event list) \<Rightarrow> ('w \<Rightarrow> bool) \<Rightarrow> 'w stop_move list \<Rightarrow> phase \<times> 'w \<Rightarrow> bool" where
  "stops_unheard N IO a register sv events waiter [] st \<longleftrightarrow> True"
| "stops_unheard N IO a register sv events waiter (m # ms) st \<longleftrightarrow>
     (case m of
        Poll \<Rightarrow> True
      | Stop \<Rightarrow> (\<exists>stream addr. fst st = SettingUp stream addr) \<or> \<not> waiter (snd st)
      | Other f \<Rightarrow> (\<forall>w. waiter (f w) = waiter w \<and>
          (ShutdownNotified \<in> set (events (f w)) \<longleftrightarrow> ShutdownNotified \<in> set (events w)))) \<and>
     stops_unheard N IO a register sv events waiter ms (stop_step N IO a register sv m st)"

text \<open>The acceptor has not been stopped: no stop among its events, and nobody waits while it sets up a stream.\<close>

definition unstopped :: "('w \<Rightarrow> acceptor_event list) \<Rightarrow> ('w \<Rightarrow> bool) \<Rightarrow> phase \<times> 'w \<Rightarrow> bool" where
  "unstopped events waiter st \<longleftrightarrow>
     ShutdownNotified \<notin> set (events (snd st)) \<and>
     (case fst st of Selecting \<Rightarrow> True | SettingUp stream addr \<Rightarrow> \<not> waiter (snd st) | Finished \<Rightarrow> False)"

lemma poll_unstopped:
  assumes "notify_laws N IO a register events waiter" and "unstopped events waiter st"
  shows "unstopped events waiter (poll_acceptor N IO a register st)"
proof -
  obtain ph w where st: "st = (ph, w)" by (cases st)
  show ?thesis
  proof (cases ph)
    case Selecting
    show ?thesis
    proof (cases "events w")
      case Nil
      then show ?thesis
        using event_queue_select_Nil[OF notify_lawsD(1)[OF assms(1)], of w] notify_lawsD(2)[OF assms(1)] assms(2) st Selecting
        by (simp add: poll_acceptor_def unstopped_def)
    next
      case (Cons ev evs)
      obtain w1 where w1: "acceptor_select N (a_listener a) (a_shutdown_sig a) w = Some (ev, w1)" "events w1 = evs"
        using event_queue_Cons[OF notify_lawsD(1)[OF assms(1)] Cons] .
      then show ?thesis
        using assms(2) st Selecting Cons notify_lawsD(4)[OF assms(1), of w]
        by (cases ev) (auto simp: poll_acceptor_def unstopped_def)
    qed
  next
    case (SettingUp stream addr)
    then show ?thesis
      using assms(2) st admit_keeps_events[OF notify_lawsD(1)[OF assms(1)], of stream addr w]
      by (auto simp: poll_acceptor_def unstopped_def split: option.split)
  qed (use assms(2) st in \<open>simp add: unstopped_def\<close>)
qed

lemma missed_stops:
  assumes "notify_laws N IO a register events waiter" and "srv_shutdown_sig sv = a_shutdown_sig a"
  shows "stops_unheard N IO a register sv events waiter ms st \<Longrightarrow> unstopped events waiter st \<Longrightarrow>
     unstopped events waiter (fold (stop_step N IO a register sv) ms st)"
proof (induction ms arbitrary: st)
  case (Cons m ms)
  have "unstopped events waiter (stop_step N IO a register sv m st)"
  proof (cases m)
    case Stop
    then show ?thesis
      using Cons.prems assms(2) notify_lawsD(5,6)[OF assms(1), of "snd st"]
      by (auto simp: unstopped_def send_stop_def split: phase.splits)
  qed (use Cons.prems poll_unstopped[OF assms(1)] in \<open>auto simp: unstopped_def split: phase.splits\<close>)
  then show ?case using Cons by simp
qed simp

text \<open>
  C12. When \<^verbatim>\<open>send_stop\<close> works, for the acceptor and the server that \<^verbatim>\<open>start\<close> gives.  Called
  after the acceptor was polled with nothing ready, it ends the acceptor at its next poll.  Called before the
  acceptor's first poll or while it sets up a stream, it is lost: however often this happens and however the
  acceptor and the other tasks are scheduled, the acceptor has not ended and no stop is left for it to see.
\<close>

theorem stop_heard_only_in_select:
  assumes "notify_laws N IO a register events waiter" and "server_start N IO sv0 w0 = ((a, sv), w1)"
  shows "(events w = [] \<longrightarrow>
        fst (fold (stop_step N IO a register sv) [Poll, Stop, Poll] (Selecting, w)) = Finished) \<and>
     (ShutdownNotified \<notin> set (events w) \<and> stops_unheard N IO a register sv events waiter ms (Selecting, w) \<longrightarrow>
        (case fold (stop_step N IO a register sv) ms (Selecting, w) of
           (ph, w') \<Rightarrow> ph \<noteq> Finished \<and> ShutdownNotified \<notin> set (events w')))"
proof (intro conjI impI)
  have sig: "srv_shutdown_sig sv = a_shutdown_sig a"
    using assms(2) by (auto simp: server_start_def split: prod.splits option.splits)
  {
    assume w: "events w = []"
    then have pend: "poll_acceptor N IO a register (Selecting, w) = (Selecting, register w)"
      using event_queue_select_Nil[OF notify_lawsD(1)[OF assms(1)]] by (simp add: poll_acceptor_def)
    have "events (notify_waiters N (a_shutdown_sig a) (register w)) = [ShutdownNotified]"
      using notify_lawsD(2,3,7)[OF assms(1)] w by simp
    then obtain w' where "acceptor_select N (a_listener a) (a_shutdown_sig a)
        (notify_waiters N (a_shutdown_sig a) (register w)) = Some (ShutdownNotified, w')"
      using event_queue_Cons[OF notify_lawsD(1)[OF assms(1)]] by blast
    then show "fst (fold (stop_step N IO a register sv) [Poll, Stop, Poll] (Selecting, w)) = Finished"
      by (simp add: pend) (simp add: send_stop_def sig poll_acceptor_def)
  }
  assume "ShutdownNotified \<notin> set (events w) \<and> stops_unheard N IO a register sv events waiter ms (Selecting, w)"
  then have "unstopped events waiter (fold (stop_step N IO a register sv) ms (Selecting, w))"
    by (intro missed_stops[OF assms(1) sig]) (simp_all add: unstopped_def)
  then show "case fold (stop_step N IO a register sv) ms (Selecting, w) of
      (ph, w') \<Rightarrow> ph \<noteq> Finished \<and> ShutdownNotified \<notin> set (events w')"
    by (auto simp: unstopped_def split: phase.splits)
qed

section \<open>Example\<close>

text \<open>A signal that remembers whether the acceptor waits.\<close>

record stop_world = sworld +
  sg_waiter :: bool

definition signal_net :: "stop_world server_net" where
  "signal_net = sample_net
     \<lparr>notify_waiters := (\<lambda>n w. if sg_waiter w then w\<lparr>sw_events := sw_events w @ [ShutdownNotified], sg_waiter := False\<rparr> else w),
      acceptor_select := (\<lambda>l n w. case sw_events w of
         [] \<Rightarrow> None | ev # evs \<Rightarrow> Some (ev, w\<lparr>sw_events := evs, sg_waiter := False\<rparr>))\<rparr>"

definition sample_register :: "stop_world \<Rightarrow> stop_world" where
  "sample_register w = w\<lparr>sg_waiter := True\<rparr>"

definition idle_world :: stop_world where
  "idle_world = \<lparr>q_in = [], q_out = [], q_closed = False, sw_events = [], sw_started = [], sg_waiter = False\<rparr>"

definition signal_server :: "(u64, u64, stop_world) tf_server" where
  "signal_server =
     \<lparr>srv_router = router_new 0, srv_socket = 0, srv_shutdown_sig = 0, srv_processor = Some 0, srv_codec = 0,
      srv_config = Some 0, srv_mode = SM_Tcp\<rparr>"

lemma sample_notify_laws: "notify_laws signal_net queue_io sample_acceptor sample_register sw_events sg_waiter"
  by (auto simp: notify_laws_def event_queue_def accept_preserves_def kept_def kept_if_done_def signal_net_def sample_net_def
      sample_register_def split: list.splits)

lemma signal_server_starts:
  "server_start signal_net queue_io signal_server idle_world = ((sample_acceptor, signal_server\<lparr>srv_processor := None\<rparr>), idle_world)"
  by (simp add: server_start_def signal_net_def sample_net_def sample_acceptor_def signal_server_def)

text \<open>A stop before the first poll, then a stream arrives, and another stop while it is set up.\<close>

abbreviation unheard_schedule :: "stop_world stop_move list" where
  "unheard_schedule \<equiv> [Stop, Other (\<lambda>w. w\<lparr>sw_events := sw_events w @ [Accepted 7 ''a'']\<rparr>), Poll, Stop, Poll, Poll]"

theorem stop_heard_only_in_select_witness:
  "fst (fold (stop_step signal_net queue_io sample_acceptor sample_register (signal_server\<lparr>srv_processor := None\<rparr>))
      [Poll, Stop, Poll] (Selecting, idle_world)) = Finished \<and>
   fst (fold (stop_step signal_net queue_io sample_acceptor sample_register (signal_server\<lparr>srv_processor := None\<rparr>))
      unheard_schedule (Selecting, idle_world)) \<noteq> Finished"
proof -
  let ?sv = "signal_server\<lparr>srv_processor := None\<rparr>"
  note lost = stop_heard_only_in_select[OF sample_notify_laws signal_server_starts, of idle_world]
  have "sw_events idle_world = []" by (simp add: idle_world_def)
  moreover have "stops_unheard signal_net queue_io sample_acceptor sample_register ?sv sw_events sg_waiter unheard_schedule
      (Selecting, idle_world)"
    by (simp add: poll_acceptor_def send_stop_def idle_world_def signal_net_def sample_net_def signal_server_def)
  ultimately show ?thesis using lost[of unheard_schedule] by (auto split: prod.splits)
qed

end
