(* ===== verification/Target_Router.thy ===== *)
theory Target_Router
  imports Handler Sample_Lib
begin

text \<open>
  \<^verbatim>\<open>src/client/target_router.rs\<close>: the client's table of handler ids, filled on demand
  from the server, with the errors of the client and \<^verbatim>\<open>wait_for_data\<close> of
  \<^verbatim>\<open>src/client/mod.rs\<close> that it uses.  The locale \<open>route_source\<close> is what the
  request path of the client relies on: a known name is answered from the table without
  traffic, a successful request makes the name known, a failed one changes nothing.
\<close>

section \<open>Definitions\<close>

datatype client_error =
    CE_Io io_error
  | CE_Tls string
  | CE_Codec io_error
  | CE_Router string
  | CE_ChannelClosed
  | CE_Protocol string
  | CE_Setup string

datatype router_error =
    RE_Io io_error
  | RE_Protocol string
  | RE_Codec string
  | RE_ConnectionClosed

text \<open>The conversions \<^verbatim>\<open>From<io::Error>\<close> that the operator \<^verbatim>\<open>?\<close> applies.\<close>

definition client_error_from :: "io_error \<Rightarrow> client_error" where
  "client_error_from e = CE_Io e"

definition router_error_from :: "io_error \<Rightarrow> router_error" where
  "router_error_from e = RE_Io e"

definition wait_for_data :: "'w conn_io \<Rightarrow> framed \<Rightarrow> 'w \<Rightarrow> (bytes, client_error) result \<times> 'w" where
  "wait_for_data IO socket w =
     (case framed_next IO socket w of
        (Some (Ok data), w1) \<Rightarrow> (Ok data, w1)
      | (Some (Err e), w1) \<Rightarrow> (Err (CE_Codec e), w1)
      | (None, w1) \<Rightarrow> (Err (CE_Protocol ''Connection closed''), w1))"

record target_router =
  known_routes :: "(string, u64) hash_map"

definition target_router_new :: target_router where
  "target_router_new = \<lparr>known_routes = []\<rparr>"

definition lookup_route :: "target_router \<Rightarrow> string \<Rightarrow> u64 option" where
  "lookup_route tr name = hm_get (=) (known_routes tr) name"

definition request_route_from_server ::
  "('st, 'tc) s_type_lib \<Rightarrow> 'w conn_io \<Rightarrow> string \<Rightarrow> framed \<Rightarrow> processor \<Rightarrow> 'w
     \<Rightarrow> (u64, router_error) result \<times> 'w" where
  "request_route_from_server L IO name stream processor w =
     (case to_bytes_HandlerMetaReq L \<lparr>hmr_s_type = ST_HandlerMetaReq, handler_name = name\<rparr> of
        None \<Rightarrow> (Err (RE_Protocol ''serialization failed''), w)
      | Some serialized \<Rightarrow>
          (case post_process_traffic IO processor serialized w of (processed, w1) \<Rightarrow>
             (case framed_send IO stream processed w1 of
                (Err e, w2) \<Rightarrow> (Err (router_error_from e), w2)
              | (Ok _, w2) \<Rightarrow>
                  (case wait_for_data IO stream w2 of
                     (Err _, w3) \<Rightarrow> (Err RE_ConnectionClosed, w3)
                   | (Ok response, w3) \<Rightarrow>
                       (case pre_process_traffic IO processor response w3 of (response', w4) \<Rightarrow>
                          (case access_HandlerMetaAns L response' of
                             Err e \<Rightarrow> (Err (RE_Protocol e), w4)
                           | Ok meta_ans \<Rightarrow> (Ok (hma_id meta_ans), w4)))))))"

definition request_route ::
  "('st, 'tc) s_type_lib \<Rightarrow> 'w conn_io \<Rightarrow> string \<Rightarrow> framed \<Rightarrow> processor
     \<Rightarrow> target_router \<Rightarrow> 'w \<Rightarrow> (u64, router_error) result \<times> target_router \<times> 'w" where
  "request_route L IO name stream processor tr w =
     (case lookup_route tr name of
        Some rid \<Rightarrow> (Ok rid, tr, w)
      | None \<Rightarrow>
          (case request_route_from_server L IO name stream processor w of
             (Err e, w1) \<Rightarrow> (Err e, tr, w1)
           | (Ok rid, w1) \<Rightarrow>
               (Ok rid, tr\<lparr>known_routes := hm_insert (=) (known_routes tr) name rid\<rparr>, w1)))"

section \<open>The contract of the table\<close>

locale route_source =
  fixes known :: "'t \<Rightarrow> string \<Rightarrow> u64 option"
    and ask :: "string \<Rightarrow> 'w \<Rightarrow> (u64, 'e) result \<times> 'w"
    and request :: "string \<Rightarrow> 't \<Rightarrow> 'w \<Rightarrow> (u64, 'e) result \<times> 't \<times> 'w"
  assumes request_known: "known t n = Some i \<Longrightarrow> request n t w = (Ok i, t, w)"
    and request_fail: "known t n = None \<Longrightarrow> ask n w = (Err e, w1) \<Longrightarrow> request n t w = (Err e, t, w1)"
    and request_learn: "known t n = None \<Longrightarrow> ask n w = (Ok i, w1) \<Longrightarrow>
      \<exists>t'. request n t w = (Ok i, t', w1) \<and> (\<forall>m. known t' m = (if m = n then Some i else known t m))"
begin

lemma request_cases:
  obtains (hit) i where "known t n = Some i" "request n t w = (Ok i, t, w)"
  | (miss) e w1 where "known t n = None" "ask n w = (Err e, w1)" "request n t w = (Err e, t, w1)"
  | (learn) i t' w1 where "known t n = None" "ask n w = (Ok i, w1)" "request n t w = (Ok i, t', w1)"
      "\<forall>m. known t' m = (if m = n then Some i else known t m)"
proof (cases "known t n")
  case (Some i)
  then show thesis using request_known hit by blast
next
  case None
  then show thesis
    by (cases "ask n w"; cases "fst (ask n w)")
       (auto dest: request_learn[OF None] request_fail[OF None] intro: miss learn)
qed

lemma request_monotone:
  "request n t w = (r, t', w') \<Longrightarrow> known t m = Some i \<Longrightarrow> known t' m = Some i"
  by (cases rule: request_cases[where t = t and n = n and w = w]) auto

lemma request_ok_known: "request n t w = (Ok i, t', w') \<Longrightarrow> known t' n = Some i"
  by (cases rule: request_cases[where t = t and n = n and w = w]) auto

lemma request_again:
  "request n t w = (Ok i, t', w') \<Longrightarrow> request n t' w'' = (Ok i, t', w'')"
  by (rule request_known) (rule request_ok_known)

lemma request_err_same: "request n t w = (Err e, t', w') \<Longrightarrow> t' = t"
  by (cases rule: request_cases[where t = t and n = n and w = w]) auto

end

interpretation target: route_source lookup_route
  "\<lambda>name. request_route_from_server L IO name stream processor"
  "\<lambda>name. request_route L IO name stream processor"
  by unfold_locales
     (auto simp: request_route_def lookup_route_def std_map.get_ins)

text \<open>
  C26. The client's route table: a name already in the table is answered from it with no
  traffic at all; a successful request leaves the name in the table with the returned id,
  so asking again returns the same id without traffic; a failed request leaves the table
  as it was; and no request ever changes the id of a name already known.
\<close>

theorem request_route_caches:
  assumes "request_route L IO name stream processor tr w = (r, tr', w')"
  shows "(case lookup_route tr name of
       Some i \<Rightarrow> r = Ok i \<and> tr' = tr \<and> w' = w
     | None \<Rightarrow> request_route_from_server L IO name stream processor w = (r, w')) \<and>
   (case r of
       Ok i \<Rightarrow> lookup_route tr' name = Some i \<and>
         (\<forall>w''. request_route L IO name stream processor tr' w'' = (Ok i, tr', w''))
     | Err e \<Rightarrow> tr' = tr) \<and>
   (\<forall>m. m \<noteq> name \<or> lookup_route tr m \<noteq> None \<longrightarrow> lookup_route tr' m = lookup_route tr m)"
proof (cases rule: target.request_cases[where t = tr and n = name and w = w and L = L and IO = IO
      and stream = stream and processor = processor])
  case (hit i)
  then show ?thesis using assms by (simp add: target.request_known)
next
  case (miss e w1)
  then show ?thesis using assms by simp
next
  case (learn i t' w1)
  then show ?thesis
    using assms by (auto simp: target.request_known)
qed

theorem request_route_caches_witness:
  "request_route sample_lib queue_io ''A'' 0 0 target_router_new
       \<lparr>q_in = [3 # bits64 7], q_out = [], q_closed = False\<rparr> =
     (Ok 7, \<lparr>known_routes = [(''A'', 7)]\<rparr>, \<lparr>q_in = [], q_out = [2 # as_bytes ''A''], q_closed = False\<rparr>) \<and>
   lookup_route \<lparr>known_routes = [(''A'', 7)]\<rparr> ''A'' = Some 7"
proof -
  have "request_route sample_lib queue_io ''A'' 0 0 target_router_new
       \<lparr>q_in = [3 # bits64 7], q_out = [], q_closed = False\<rparr> =
     (Ok 7, \<lparr>known_routes = [(''A'', 7)]\<rparr>, \<lparr>q_in = [], q_out = [2 # as_bytes ''A''], q_closed = False\<rparr>)"
    by (simp add: request_route_def request_route_from_server_def lookup_route_def
          target_router_new_def wait_for_data_def)
  then show ?thesis
    using request_route_caches[of sample_lib queue_io "''A''" 0 0 target_router_new
        "\<lparr>q_in = [3 # bits64 7], q_out = [], q_closed = False\<rparr>"] by auto
qed

end
