(* ===== verification/Client.thy ===== *)
theory Client
  imports Target_Router
begin

text \<open>
  \<^verbatim>\<open>src/client/mod.rs\<close>: connecting, queueing requests, and the task that works the
  queue one request at a time.  That every request is settled is shown in \<open>Awaits\<close>.  The features \<^verbatim>\<open>tls\<close> and \<^verbatim>\<open>websocket\<close> are
  on.  \<open>spawn_client\<close> is \<^verbatim>\<open>tokio::spawn\<close>, and on \<^verbatim>\<open>wasm32\<close>
  \<^verbatim>\<open>spawn_local\<close>; the source writes the body of the task twice, once for each.  A
  \<^verbatim>\<open>oneshot::Sender\<close> that goes out of scope is dropped, which its receiver observes; the model
  makes these drops explicit.
\<close>

section \<open>Data\<close>

datatype client_mode = CM_Tcp "nat option" | CM_WebSocket string

record handler_info =
  hi_id :: "u64 option"
  hi_named :: "string option"

definition handler_info_new_named :: "string \<Rightarrow> handler_info" where
  "handler_info_new_named name = \<lparr>hi_id = None, hi_named = Some name\<rparr>"

definition handler_info_new_id :: "u64 \<Rightarrow> handler_info" where
  "handler_info_new_id i = \<lparr>hi_id = Some i, hi_named = None\<rparr>"

definition handler_info_id :: "handler_info \<Rightarrow> u64 option" where
  "handler_info_id h = hi_id h"

definition handler_info_named :: "handler_info \<Rightarrow> string option" where
  "handler_info_named h = hi_named h"

record 'st data_request =
  dr_handler_info :: handler_info
  dr_data :: bytes
  dr_s_type :: 'st

record 'st client_request =
  req :: "'st data_request"
  consumer :: sender

record client_connect =
  cc_tx :: sender

section \<open>External operations of the client\<close>

text \<open>
  The \<^verbatim>\<open>Debug\<close> text of a \<^verbatim>\<open>RouterError\<close>; the response channels; the request
  queue (\<^verbatim>\<open>tokio::sync::mpsc\<close>); sockets, TLS and WebSocket connectors, the codec's
  \<^verbatim>\<open>initial_setup\<close>; and \<^verbatim>\<open>spawn\<close>.  \<^verbatim>\<open>mpsc::channel\<close> panics on
  capacity zero, so it returns a \<open>run\<close>.
\<close>

record ('st, 'w) client_io =
  fmt_router_error :: "router_error \<Rightarrow> string"
  consumer_send :: "sender \<Rightarrow> bytes \<Rightarrow> 'w \<Rightarrow> (unit, bytes) result \<times> 'w"
  consumer_drop :: "sender \<Rightarrow> 'w \<Rightarrow> 'w"
  mpsc_channel :: "nat \<Rightarrow> 'w \<Rightarrow> (sender \<times> receiver) run \<times> 'w"
  mpsc_send :: "sender \<Rightarrow> 'st client_request \<Rightarrow> 'w \<Rightarrow> (unit, 'st client_request) result \<times> 'w"
  mpsc_recv :: "receiver \<Rightarrow> 'w \<Rightarrow> 'st client_request option \<times> 'w"
  spawn_client :: "framed \<times> processor \<times> target_router \<times> receiver \<Rightarrow> 'w \<Rightarrow> 'w"

record 'w client_net =
  tcp_connect :: "string \<Rightarrow> 'w \<Rightarrow> (nat, io_error) result \<times> 'w"
  set_nodelay :: "nat \<Rightarrow> 'w \<Rightarrow> (unit, io_error) result \<times> 'w"
  server_name_of :: "string \<Rightarrow> nat option"
  tls_connect :: "nat \<Rightarrow> nat \<Rightarrow> nat \<Rightarrow> 'w \<Rightarrow> (nat, string) result \<times> 'w"
  transport_tls_client :: "nat \<Rightarrow> transport"
  transport_plain :: "nat \<Rightarrow> transport"
  transport_connect :: "string \<Rightarrow> 'w \<Rightarrow> (transport, string) result \<times> 'w"
  initial_setup :: "codec \<Rightarrow> transport \<Rightarrow> 'w \<Rightarrow> bool \<times> 'w"

section \<open>Connecting\<close>

definition connect ::
  "'w client_net \<Rightarrow> string \<Rightarrow> string \<Rightarrow> client_mode \<Rightarrow> 'w \<Rightarrow> (transport, client_error) result \<times> 'w" where
  "connect N server_name connection_dest mode w =
     (case mode of
        CM_Tcp client_config \<Rightarrow>
          (case tcp_connect N connection_dest w of
             (Err e, w1) \<Rightarrow> (Err (client_error_from e), w1)
           | (Ok socket, w1) \<Rightarrow>
               (case set_nodelay N socket w1 of
                  (Err e, w2) \<Rightarrow> (Err (client_error_from e), w2)
                | (Ok _, w2) \<Rightarrow>
                    (case client_config of
                       Some cfg \<Rightarrow>
                         (case server_name_of N server_name of
                            None \<Rightarrow> (Err (CE_Tls ''Invalid server name''), w2)
                          | Some domain \<Rightarrow>
                              (case tls_connect N cfg domain socket w2 of
                                 (Err e, w3) \<Rightarrow> (Err (CE_Tls e), w3)
                               | (Ok tls, w3) \<Rightarrow> (Ok (transport_tls_client N tls), w3)))
                     | None \<Rightarrow> (Ok (transport_plain N socket), w2))))
      | CM_WebSocket url \<Rightarrow>
          (case transport_connect N url w of
             (Err e, w1) \<Rightarrow> (Err (CE_Tls e), w1)
           | (Ok t, w1) \<Rightarrow> (Ok t, w1)))"

definition connection_main ::
  "'w conn_io \<Rightarrow> ('st, 'w) client_io \<Rightarrow> framed \<Rightarrow> processor option \<Rightarrow> receiver \<Rightarrow> 'w \<Rightarrow> 'w" where
  "connection_main IO K socket processor rx w =
     (case (case processor of Some p \<Rightarrow> (p, w) | None \<Rightarrow> processor_new IO w) of
        (p, w1) \<Rightarrow> spawn_client K (socket, p, target_router_new, rx) w1)"

definition client_connect_new ::
  "'w client_net \<Rightarrow> 'w conn_io \<Rightarrow> ('st, 'w) client_io \<Rightarrow> string \<Rightarrow> string \<Rightarrow> processor option \<Rightarrow> codec
     \<Rightarrow> client_mode \<Rightarrow> nat \<Rightarrow> ('w, (client_connect, client_error) result) future" where
  "client_connect_new N IO K server_name connection_dest processor cd mode max_request_in_time w =
     (case connect N server_name connection_dest mode w of
        (Err e, w1) \<Rightarrow> (Returned (Err e), w1)
      | (Ok transport, w1) \<Rightarrow>
          (case initial_setup N cd transport w1 of (ok, w2) \<Rightarrow>
             (if \<not> ok then (Returned (Err (CE_Setup ''codec initial_setup failed'')), w2)
              else
                (case framed_new IO transport cd w2 of (framed, w3) \<Rightarrow>
                   (case mpsc_channel K max_request_in_time w3 of
                      (Panicked, w4) \<Rightarrow> (Panicked, w4)
                    | (Returned (tx, rx), w4) \<Rightarrow>
                        (Returned (Ok \<lparr>cc_tx = tx\<rparr>), connection_main IO K framed processor rx w4))))))"

definition dispatch_request ::
  "('st, 'w) client_io \<Rightarrow> client_connect \<Rightarrow> 'st client_request \<Rightarrow> 'w
     \<Rightarrow> (unit, client_error) result \<times> 'w" where
  "dispatch_request K cc request w =
     (case mpsc_send K (cc_tx cc) request w of
        (r, w1) \<Rightarrow> (map_err (\<lambda>_. CE_ChannelClosed) r, w1))"

section \<open>Working the queue\<close>

text \<open>The id of the addressed handler: given, or asked from the server by name.\<close>

definition resolve_handler ::
  "('st, 'tc) s_type_lib \<Rightarrow> 'w conn_io \<Rightarrow> ('st, 'w) client_io \<Rightarrow> framed \<Rightarrow> processor \<Rightarrow> handler_info
     \<Rightarrow> target_router \<Rightarrow> 'w \<Rightarrow> (u64, client_error) result \<times> target_router \<times> 'w" where
  "resolve_handler L IO K socket processor info tr w =
     (case handler_info_id info of
        Some i \<Rightarrow> (Ok i, tr, w)
      | None \<Rightarrow>
          (case ok_or (CE_Protocol ''Missing handler name'') (hi_named info) of
             Err e \<Rightarrow> (Err e, tr, w)
           | Ok name \<Rightarrow>
               (case request_route L IO name socket processor tr w of
                  (r, tr1, w1) \<Rightarrow> (map_err (\<lambda>e. CE_Router (fmt_router_error K e)) r, tr1, w1))))"

definition packet_meta_of :: "('st, 'tc) s_type_lib \<Rightarrow> 'st data_request \<Rightarrow> u64 \<Rightarrow> packet_meta" where
  "packet_meta_of L dr hid =
     \<lparr>pm_s_type = ST_PacketMeta,
      s_type_req = get_serialize_function L (dr_s_type dr) (dr_s_type dr),
      pm_handler_id = hid,
      has_payload = (dr_data dr \<noteq> [])\<rparr>"

text \<open>Send the two frames of a request and wait for the reply.\<close>

definition exchange ::
  "'w conn_io \<Rightarrow> framed \<Rightarrow> processor \<Rightarrow> bytes \<Rightarrow> bytes \<Rightarrow> 'w \<Rightarrow> (bytes, client_error) result \<times> 'w" where
  "exchange IO socket processor meta_vec data w =
     (case post_process_traffic IO processor meta_vec w of (meta_bytes, w1) \<Rightarrow>
        (case post_process_traffic IO processor data w1 of (payload, w2) \<Rightarrow>
           (case framed_send IO socket meta_bytes w2 of
              (Err e, w3) \<Rightarrow> (Err (client_error_from e), w3)
            | (Ok _, w3) \<Rightarrow>
                (case framed_send IO socket payload w3 of
                   (Err e, w4) \<Rightarrow> (Err (client_error_from e), w4)
                 | (Ok _, w4) \<Rightarrow>
                     (case wait_for_data IO socket w4 of
                        (Err e, w5) \<Rightarrow> (Err e, w5)
                      | (Ok response, w5) \<Rightarrow>
                          (case pre_process_traffic IO processor response w5 of
                             (response', w6) \<Rightarrow> (Ok response', w6)))))))"

definition process_request ::
  "('st, 'tc) s_type_lib \<Rightarrow> 'w conn_io \<Rightarrow> ('st, 'w) client_io \<Rightarrow> framed \<Rightarrow> processor
     \<Rightarrow> 'st client_request \<Rightarrow> target_router \<Rightarrow> 'w \<Rightarrow> (unit, client_error) result \<times> target_router \<times> 'w" where
  "process_request L IO K socket processor request tr w =
     (case resolve_handler L IO K socket processor (dr_handler_info (req request)) tr w of
        (Err e, tr1, w1) \<Rightarrow> (Err e, tr1, consumer_drop K (consumer request) w1)
      | (Ok hid, tr1, w1) \<Rightarrow>
          (case to_bytes_PacketMeta L (packet_meta_of L (req request) hid) of
             None \<Rightarrow> (Err (CE_Protocol ''PacketMeta serialization failed''), tr1,
                      consumer_drop K (consumer request) w1)
           | Some meta_vec \<Rightarrow>
               (case exchange IO socket processor meta_vec (dr_data (req request)) w1 of
                  (Err e, w2) \<Rightarrow> (Err e, tr1, consumer_drop K (consumer request) w2)
                | (Ok response, w2) \<Rightarrow>
                    (case consumer_send K (consumer request) response w2 of
                       (_, w3) \<Rightarrow> (Ok (), tr1, w3)))))"

text \<open>
  The body of the spawned task.  It ends when all senders of the queue are gone, which may
  never happen.  A failed request is logged and the next one is taken.
\<close>

partial_function (option) client_task ::
  "('st, 'tc) s_type_lib \<Rightarrow> 'w conn_io \<Rightarrow> ('st, 'w) client_io \<Rightarrow> framed \<Rightarrow> processor \<Rightarrow> receiver
     \<Rightarrow> target_router \<Rightarrow> 'w \<Rightarrow> (target_router \<times> 'w) option" where
  "client_task L IO K socket processor rx tr w =
     (case mpsc_recv K rx w of
        (None, w1) \<Rightarrow> Some (tr, w1)
      | (Some request, w1) \<Rightarrow>
          (case process_request L IO K socket processor request tr w1 of
             (_, tr', w2) \<Rightarrow> client_task L IO K socket processor rx tr' w2))"

section \<open>What working a request leaves alone\<close>

text \<open>
  A view of the world that the stream and the processor of the client do not change.  The
  request path up to the settling of the consumer only uses these operations.
\<close>

definition io_preserves :: "'w conn_io \<Rightarrow> framed \<Rightarrow> processor \<Rightarrow> ('w \<Rightarrow> 'v) \<Rightarrow> bool" where
  "io_preserves IO socket processor v \<longleftrightarrow>
     (\<forall>w. v (snd (framed_next IO socket w)) = v w) \<and>
     (\<forall>b w. v (snd (framed_send IO socket b w)) = v w) \<and>
     (\<forall>b w. v (snd (pre_process_traffic IO processor b w)) = v w) \<and>
     (\<forall>b w. v (snd (post_process_traffic IO processor b w)) = v w)"

lemma io_preservesD:
  assumes "io_preserves IO socket processor v"
  shows "framed_next IO socket w = (x, w') \<Longrightarrow> v w' = v w"
    and "framed_send IO socket b w = (r, w') \<Longrightarrow> v w' = v w"
    and "pre_process_traffic IO processor b w = (b', w') \<Longrightarrow> v w' = v w"
    and "post_process_traffic IO processor b w = (b', w') \<Longrightarrow> v w' = v w"
  using assms unfolding io_preserves_def by (metis snd_conv)+

lemma wait_for_data_preserves:
  assumes "io_preserves IO socket processor v" and "wait_for_data IO socket w = (r, w')"
  shows "v w' = v w"
  using assms(2) by (auto simp: wait_for_data_def split: outcome_splits dest: io_preservesD[OF assms(1)])

lemma exchange_preserves:
  assumes "io_preserves IO socket processor v" and "exchange IO socket processor m d w = (r, w')"
  shows "v w' = v w"
  using assms(2)
  by (auto simp: exchange_def split: outcome_splits
        dest!: io_preservesD[OF assms(1)] wait_for_data_preserves[OF assms(1)])

lemma request_route_from_server_preserves:
  assumes "io_preserves IO socket processor v"
    and "request_route_from_server L IO name socket processor w = (r, w')"
  shows "v w' = v w"
  using assms(2)
  by (auto simp: request_route_from_server_def split: outcome_splits
        dest!: io_preservesD[OF assms(1)] wait_for_data_preserves[OF assms(1)])

lemma resolve_handler_preserves:
  assumes "io_preserves IO socket processor v"
    and "resolve_handler L IO K socket processor info tr w = (r, tr', w')"
  shows "v w' = v w"
  using assms(2)
  by (auto simp: resolve_handler_def request_route_def split: outcome_splits
        dest!: request_route_from_server_preserves[OF assms(1)])

lemma process_request_preserves:
  assumes "io_preserves IO socket processor v" and "\<And>s b. kept v (consumer_send K s b)" and "\<And>s w. v (consumer_drop K s w) = v w"
    and "process_request L IO K socket processor request tr w = (r, tr', w')"
  shows "v w' = v w"
  using assms(4)
  by (auto simp: process_request_def assms(3) split: outcome_splits
        dest!: resolve_handler_preserves[OF assms(1)] exchange_preserves[OF assms(1)] keptD[OF assms(2)])

section \<open>Traffic of one request\<close>

lemma exchange_fifo:
  assumes "fifo_stream IO socket processor ins outs pre post"
  shows "\<exists>r w'. exchange IO socket processor m d w = (r, w') \<and> outs w' = outs w @ [post m, post d] \<and>
     (case ins w of
        [] \<Rightarrow> r = Err (CE_Protocol ''Connection closed'') \<and> ins w' = []
      | x # xs \<Rightarrow> r = Ok (pre x) \<and> ins w' = xs)"
proof -
  note fifo = fifo_streamE[OF assms]
  obtain w1 where 1: "post_process_traffic IO processor m w = (post m, w1)" "ins w1 = ins w" "outs w1 = outs w"
    using fifo(6) by blast
  obtain w2 where 2: "post_process_traffic IO processor d w1 = (post d, w2)" "ins w2 = ins w1" "outs w2 = outs w1"
    using fifo(6) by blast
  obtain w3 where 3: "framed_send IO socket (post m) w2 = (Ok (), w3)" "ins w3 = ins w2" "outs w3 = outs w2 @ [post m]"
    using fifo(3) by blast
  obtain w4 where 4: "framed_send IO socket (post d) w3 = (Ok (), w4)" "ins w4 = ins w3" "outs w4 = outs w3 @ [post d]"
    using fifo(3) by blast
  note sent = 1(1,3) 2(1,3) 3(1,3) 4(1,3)
  have ins4: "ins w4 = ins w"
    by (simp add: 1 2 3 4)
  show ?thesis
  proof (cases "ins w")
    case Nil
    then obtain w5 where "framed_next IO socket w4 = (None, w5)" "ins w5 = []" "outs w5 = outs w4"
      using fifo(1)[of w4] ins4 by auto
    then show ?thesis
      using sent Nil by (simp add: exchange_def wait_for_data_def)
  next
    case (Cons x xs)
    then obtain w5 where 5: "framed_next IO socket w4 = (Some (Ok x), w5)" "ins w5 = xs" "outs w5 = outs w4"
      using fifo(2)[of w4] ins4 by auto
    obtain w6 where "pre_process_traffic IO processor x w5 = (pre x, w6)" "ins w6 = ins w5" "outs w6 = outs w5"
      using fifo(5) by blast
    then show ?thesis
      using sent Cons 5 by (simp add: exchange_def wait_for_data_def)
  qed
qed

section \<open>Examples\<close>

text \<open>A network and a stream on which everything succeeds and nothing arrives.\<close>

definition ready_net :: "'w client_net" where
  "ready_net =
     \<lparr>tcp_connect = \<lambda>s w. (Ok 0, w), set_nodelay = \<lambda>s w. (Ok (), w), server_name_of = \<lambda>s. None,
      tls_connect = \<lambda>c d s w. (Ok 0, w), transport_tls_client = \<lambda>t. t, transport_plain = \<lambda>t. t,
      transport_connect = \<lambda>u w. (Ok 0, w), initial_setup = \<lambda>c t w. (True, w)\<rparr>"

definition ready_io :: "'w conn_io" where
  "ready_io =
     \<lparr>framed_next = \<lambda>f w. (None, w), framed_send = \<lambda>f b w. (Ok (), w), framed_close = \<lambda>f w. (Ok (), w),
      framed_new = \<lambda>t c w. (0, w), pre_process_traffic = \<lambda>p b w. (b, w), post_process_traffic = \<lambda>p b w. (b, w),
      processor_new = \<lambda>w. (0, w), processor_clone = \<lambda>p w. (p, w)\<rparr>"

record cworld = qworld +
  cw_queue :: "u64 client_request list"
  cw_log :: "(sender \<times> bytes option) list"

definition sample_client_io :: "(u64, 'a cworld_scheme) client_io" where
  "sample_client_io =
     \<lparr>fmt_router_error = (\<lambda>e. ''router error''),
      consumer_send = (\<lambda>s b w. (Ok (), w\<lparr>cw_log := cw_log w @ [(s, Some b)]\<rparr>)),
      consumer_drop = (\<lambda>s w. w\<lparr>cw_log := cw_log w @ [(s, None)]\<rparr>),
      mpsc_channel = (\<lambda>n w. (if n = 0 then Panicked else Returned (0, 0), w)),
      mpsc_send = (\<lambda>s q w. (Ok (), w\<lparr>cw_queue := cw_queue w @ [q]\<rparr>)),
      mpsc_recv = (\<lambda>rx w. case cw_queue w of
         [] \<Rightarrow> (None, w) | q # qs \<Rightarrow> (Some q, w\<lparr>cw_queue := qs\<rparr>)),
      spawn_client = (\<lambda>t w. w)\<rparr>"

definition sample_request :: "nat \<Rightarrow> bytes \<Rightarrow> u64 client_request" where
  "sample_request s d =
     \<lparr>req = \<lparr>dr_handler_info = handler_info_new_id 0, dr_data = d, dr_s_type = 0\<rparr>, consumer = s\<rparr>"

definition sample_cworld :: "bytes list \<Rightarrow> u64 client_request list \<Rightarrow> cworld" where
  "sample_cworld ins qs =
     \<lparr>q_in = ins, q_out = [], q_closed = False, cw_queue = qs, cw_log = []\<rparr>"

end
