(* ===== verification/Protocol.thy ===== *)
theory Protocol
  imports Connection Client
begin

text \<open>
  Client and server together.  Each side is the code of its own theory; they are joined by
  what they write and read: the frames the client writes are the frames the server reads,
  and the frames the server writes are the frames the client reads.  The theorems say
  which reply each caller gets.
\<close>

section \<open>What the client writes\<close>

definition meta_of :: "('st, 'tc) s_type_lib \<Rightarrow> 'st client_request \<Rightarrow> u64 \<Rightarrow> bytes" where
  "meta_of L q i = (case to_bytes_PacketMeta L (packet_meta_of L (req q) i) of Some b \<Rightarrow> b | None \<Rightarrow> [])"

text \<open>
  The handler id of a request when the client knows it without asking: given in the request,
  or cached for the name in the request.
\<close>

definition resolved :: "target_router \<Rightarrow> 'st client_request \<Rightarrow> u64 option" where
  "resolved tr q =
     (case hi_id (dr_handler_info (req q)) of
        Some i \<Rightarrow> Some i
      | None \<Rightarrow> Option.bind (hi_named (dr_handler_info (req q))) (lookup_route tr))"

definition known :: "target_router \<Rightarrow> 'st client_request \<Rightarrow> bool" where
  "known tr q \<longleftrightarrow> resolved tr q \<noteq> None"

definition id_of :: "target_router \<Rightarrow> 'st client_request \<Rightarrow> u64" where
  "id_of tr q = (case resolved tr q of Some i \<Rightarrow> i | None \<Rightarrow> 0)"

text \<open>The two frames of a request with a known handler id.\<close>

definition request_frames ::
  "('st, 'tc) s_type_lib \<Rightarrow> target_router \<Rightarrow> 'st client_request \<Rightarrow> bytes list" where
  "request_frames L tr q = [meta_of L q (id_of tr q), dr_data (req q)]"

lemma meta_of_access:
  assumes "wire_laws L"
  shows "to_bytes_PacketMeta L (packet_meta_of L (req q) i) = Some (meta_of L q i)"
    and "access_PacketMeta L (meta_of L q i) = Ok (packet_meta_of L (req q) i)"
proof -
  obtain b where "to_bytes_PacketMeta L (packet_meta_of L (req q) i) = Some b"
      and "access_PacketMeta L b = Ok (packet_meta_of L (req q) i)"
    by (rule wire_PacketMetaE[OF assms, of "packet_meta_of L (req q) i"])
       (simp_all add: packet_meta_of_def)
  then show "to_bytes_PacketMeta L (packet_meta_of L (req q) i) = Some (meta_of L q i)"
    and "access_PacketMeta L (meta_of L q i) = Ok (packet_meta_of L (req q) i)"
    by (simp_all add: meta_of_def)
qed

lemma wants_payload_meta:
  "wire_laws L \<Longrightarrow> wants_payload L (meta_of L q i) \<longleftrightarrow> dr_data (req q) \<noteq> []"
  by (simp add: wants_payload_def meta_of_access) (simp add: packet_meta_of_def)

lemma wants_payload_empty: "wire_laws L \<Longrightarrow> \<not> wants_payload L []"
  by (auto simp: wants_payload_def elim: wire_empty)

text \<open>
  How the server reads the client's frames: a request with data is one packet; a request
  without data is two, because the client sends its empty payload as a frame of its own
  and the server, told that there is no payload, takes that frame for the next packet.
\<close>

definition server_packets ::
  "('st, 'tc) s_type_lib \<Rightarrow> target_router \<Rightarrow> 'st client_request \<Rightarrow> (bytes \<times> bytes) list" where
  "server_packets L tr q =
     (if dr_data (req q) = [] then [(meta_of L q (id_of tr q), []), ([], [])]
      else [(meta_of L q (id_of tr q), dr_data (req q))])"

lemma packets_requests:
  assumes "wire_laws L"
  shows "packets L (concat (map (request_frames L tr) qs)) = concat (map (server_packets L tr) qs)"
proof (induction qs)
  case Nil
  show ?case by simp
next
  case (Cons q qs)
  show ?case
  proof (cases "dr_data (req q) = []")
    case True
    then show ?thesis
      using Cons wants_payload_meta[OF assms, of q] wants_payload_empty[OF assms]
      by (simp add: request_frames_def server_packets_def)
  next
    case False
    then show ?thesis
      using Cons wants_payload_meta[OF assms, of q]
      by (simp add: request_frames_def server_packets_def)
  qed
qed

section \<open>What the callers get\<close>

text \<open>
  A client world: a queue-like stream, a closed queue of requests, and a log of what was
  given to the consumers.
\<close>

definition client_world ::
  "'w conn_io \<Rightarrow> ('st, 'w) client_io \<Rightarrow> framed \<Rightarrow> processor \<Rightarrow> receiver \<Rightarrow> ('w \<Rightarrow> bytes list)
     \<Rightarrow> ('w \<Rightarrow> bytes list) \<Rightarrow> (bytes \<Rightarrow> bytes) \<Rightarrow> (bytes \<Rightarrow> bytes) \<Rightarrow> ('w \<Rightarrow> 'st client_request list)
     \<Rightarrow> ('w \<Rightarrow> (sender \<times> bytes option) list) \<Rightarrow> bool" where
  "client_world IO K socket processor rx ins outs pre post queue log \<longleftrightarrow>
     fifo_stream IO socket processor ins outs pre post \<and>
     io_preserves IO socket processor (\<lambda>w. (queue w, log w)) \<and>
     (\<forall>s b w. untouched ins outs w (snd (consumer_send K s b w)) \<and>
        queue (snd (consumer_send K s b w)) = queue w \<and>
        log (snd (consumer_send K s b w)) = log w @ [(s, Some b)]) \<and>
     (\<forall>s w. untouched ins outs w (consumer_drop K s w) \<and>
        queue (consumer_drop K s w) = queue w \<and> log (consumer_drop K s w) = log w @ [(s, None)]) \<and>
     (\<forall>w. queue w = [] \<longrightarrow>
        (\<exists>w'. mpsc_recv K rx w = (None, w') \<and> untouched ins outs w w' \<and> queue w' = [] \<and> log w' = log w)) \<and>
     (\<forall>w q qs. queue w = q # qs \<longrightarrow>
        (\<exists>w'. mpsc_recv K rx w = (Some q, w') \<and> untouched ins outs w w' \<and> queue w' = qs \<and> log w' = log w))"

fun match_replies :: "'st client_request list \<Rightarrow> bytes list \<Rightarrow> (sender \<times> bytes option) list" where
  "match_replies [] rs = []"
| "match_replies (q # qs) [] = (consumer q, None) # match_replies qs []"
| "match_replies (q # qs) (r # rs) = (consumer q, Some r) # match_replies qs rs"

lemma client_worldD:
  assumes "client_world IO K socket processor rx ins outs pre post queue log"
  shows "fifo_stream IO socket processor ins outs pre post"
    and "io_preserves IO socket processor (\<lambda>w. (queue w, log w))"
    and "consumer_send K s b w = (r, w') \<Longrightarrow>
      ins w' = ins w \<and> outs w' = outs w \<and> queue w' = queue w \<and> log w' = log w @ [(s, Some b)]"
    and "ins (consumer_drop K s w) = ins w \<and> outs (consumer_drop K s w) = outs w \<and>
      queue (consumer_drop K s w) = queue w \<and> log (consumer_drop K s w) = log w @ [(s, None)]"
    and "queue w = [] \<Longrightarrow> \<exists>w'. mpsc_recv K rx w = (None, w') \<and> ins w' = ins w \<and> outs w' = outs w \<and>
      queue w' = [] \<and> log w' = log w"
    and "queue w = q # qs \<Longrightarrow> \<exists>w'. mpsc_recv K rx w = (Some q, w') \<and> ins w' = ins w \<and>
      outs w' = outs w \<and> queue w' = qs \<and> log w' = log w"
  using assms unfolding client_world_def untouched_def by (blast, blast, metis snd_conv, blast+)

lemma process_request_known:
  assumes "client_world IO K socket processor rx ins outs pre post queue log" and "wire_laws L"
    and "known tr q"
  shows "\<exists>r w'. process_request L IO K socket processor q tr w = (r, tr, w') \<and>
     outs w' = outs w @ map post (request_frames L tr q) \<and> queue w' = queue w \<and> ins w' = tl (ins w) \<and>
     log w' = log w @ [(consumer q, case ins w of [] \<Rightarrow> None | x # _ \<Rightarrow> Some (pre x))]"
proof -
  note world = client_worldD[OF assms(1)]
  let ?m = "meta_of L q (id_of tr q)" and ?d = "dr_data (req q)"
  obtain r w1 where ex: "exchange IO socket processor ?m ?d w = (r, w1)"
      "outs w1 = outs w @ [post ?m, post ?d]"
      and r: "case ins w of [] \<Rightarrow> r = Err (CE_Protocol ''Connection closed'') \<and> ins w1 = []
        | x # xs \<Rightarrow> r = Ok (pre x) \<and> ins w1 = xs"
    using exchange_fifo[OF world(1)] by metis
  have kept: "queue w1 = queue w" "log w1 = log w"
    using exchange_preserves[OF world(2) ex(1)] by simp_all
  have resolve: "resolve_handler L IO K socket processor (dr_handler_info (req q)) tr w = (Ok (id_of tr q), tr, w)"
    using assms(3)
    by (cases "hi_named (dr_handler_info (req q))")
       (auto simp: resolve_handler_def request_route_def handler_info_id_def id_of_def known_def
          resolved_def split: option.splits)
  note start = resolve meta_of_access(1)[OF assms(2)] ex(1)
  show ?thesis
  proof (cases "ins w")
    case Nil
    then show ?thesis
      using r ex(2) kept world(4)[of "consumer q" w1]
      by (simp add: process_request_def start request_frames_def)
  next
    case (Cons x xs)
    obtain v w2 where "consumer_send K (consumer q) (pre x) w1 = (v, w2)"
      by (cases "consumer_send K (consumer q) (pre x) w1")
    then show ?thesis
      using r ex(2) kept Cons world(3)[of "consumer q" "pre x" w1 v w2]
      by (simp add: process_request_def start request_frames_def)
  qed
qed

lemma client_task_known:
  assumes "client_world IO K socket processor rx ins outs pre post queue log" and "wire_laws L"
  shows "queue w = qs \<Longrightarrow> \<forall>q \<in> set qs. known tr q \<Longrightarrow>
     \<exists>w'. client_task L IO K socket processor rx tr w = Some (tr, w') \<and>
       outs w' = outs w @ map post (concat (map (request_frames L tr) qs)) \<and>
       log w' = log w @ match_replies qs (map pre (ins w))"
proof (induction qs arbitrary: w)
  case Nil
  then obtain w' where "mpsc_recv K rx w = (None, w')" "outs w' = outs w" "log w' = log w"
    using client_worldD(5)[OF assms(1)] by blast
  then show ?case by (simp add: client_task.simps)
next
  case (Cons q qs)
  then obtain w1 where 1: "mpsc_recv K rx w = (Some q, w1)" "ins w1 = ins w" "outs w1 = outs w"
      "queue w1 = qs" "log w1 = log w"
    using client_worldD(6)[OF assms(1)] by blast
  obtain r w2 where 2: "process_request L IO K socket processor q tr w1 = (r, tr, w2)"
      "outs w2 = outs w1 @ map post (request_frames L tr q)" "queue w2 = queue w1" "ins w2 = tl (ins w1)"
      "log w2 = log w1 @ [(consumer q, case ins w1 of [] \<Rightarrow> None | x # _ \<Rightarrow> Some (pre x))]"
    using process_request_known[OF assms, of tr q w1] Cons.prems(2) by auto
  have "client_task L IO K socket processor rx tr w = client_task L IO K socket processor rx tr w2"
    by (subst client_task.simps) (simp add: 1 2)
  moreover obtain w' where "client_task L IO K socket processor rx tr w2 = Some (tr, w')"
      "outs w' = outs w2 @ map post (concat (map (request_frames L tr) qs))"
      "log w' = log w2 @ match_replies qs (map pre (ins w2))"
    using Cons.IH[of w2] 1 2 Cons.prems(2) by auto
  ultimately show ?case
    using 1 2 by (cases "ins w") auto
qed

section \<open>End to end\<close>

text \<open>
  A client and a connection of the server that speak the same protocol over a reliable
  link: the same message formats, and processors on the two sides that undo each other.
\<close>

definition linked ::
  "('st, 'tc) s_type_lib \<Rightarrow> ('st, 'tc, 's) connection \<Rightarrow> (bytes \<Rightarrow> bytes) \<Rightarrow> (bytes \<Rightarrow> bytes)
     \<Rightarrow> (bytes \<Rightarrow> bytes) \<Rightarrow> (bytes \<Rightarrow> bytes) \<Rightarrow> bool" where
  "linked L c cpre cpost spre spost \<longleftrightarrow>
     wire_laws L \<and> c_lib c = L \<and> (\<forall>b. spre (cpost b) = b) \<and> (\<forall>b. cpre (spost b) = b)"

definition replies_to ::
  "('st, 'tc) s_type_lib \<Rightarrow> target_router \<Rightarrow> (bytes \<Rightarrow> bytes \<Rightarrow> bytes) \<Rightarrow> 'st client_request list \<Rightarrow> bytes list" where
  "replies_to L tr rep qs = concat (map (\<lambda>q. map (\<lambda>(m, p). rep m p) (server_packets L tr q)) qs)"

lemma closed_loop:
  assumes "client_world IO K socket processor rx ins outs cpre cpost queue log"
    and "duplex c sins souts spre spost" and "answering c sins souts (set (packets L (map spre (sins s)))) rep"
    and "linked L c cpre cpost spre spost"
    and "\<forall>q \<in> set (queue w). known tr q"
    and "sins s = map cpost (concat (map (request_frames L tr) (queue w)))" and "souts s = []"
    and "handle_connection c s = Some (e, s')" and "ins w = souts s'"
  shows "e = PeerGone \<and> (\<exists>w'. client_task L IO K socket processor rx tr w = Some (tr, w') \<and>
     outs w' = outs w @ sins s \<and> log w' = log w @ match_replies (queue w) (replies_to L tr rep (queue w)))"
proof -
  have wire: "wire_laws L" and lib: "c_lib c = L"
    and undo: "spre \<circ> cpost = id" "cpre \<circ> spost = id"
    using assms(4) by (auto simp: linked_def)
  have read: "packets (c_lib c) (map spre (sins s)) = concat (map (server_packets L tr) (queue w))"
    using packets_requests[OF wire, of tr "queue w"] by (simp add: assms(6) undo lib)
  have server: "e = PeerGone"
      "souts s' = map (\<lambda>(m, p). spost (rep m p)) (concat (map (server_packets L tr) (queue w)))"
    using handle_connection_replies[OF assms(2), of s rep] assms(3,7,8) read lib by simp_all
  obtain w' where w': "client_task L IO K socket processor rx tr w = Some (tr, w')"
      "outs w' = outs w @ map cpost (concat (map (request_frames L tr) (queue w)))"
      "log w' = log w @ match_replies (queue w) (map cpre (ins w))"
    using client_task_known[OF assms(1) wire refl assms(5)] by blast
  have "map cpre (souts s') = replies_to L tr rep (queue w)"
    using undo(2) unfolding server(2) replies_to_def
    by (simp add: map_concat comp_def fun_eq_iff case_prod_unfold)
  then show ?thesis
    using server(1) w' assms(6,9) by simp
qed

lemma match_replies_map: "match_replies qs (map f qs) = map (\<lambda>q. (consumer q, Some (f q))) qs"
  by (induction qs) auto

lemma replies_to_full:
  "\<forall>q \<in> set qs. dr_data (req q) \<noteq> [] \<Longrightarrow>
     replies_to L tr rep qs = map (\<lambda>q. rep (meta_of L q (id_of tr q)) (dr_data (req q))) qs"
  by (induction qs) (auto simp: replies_to_def server_packets_def)

text \<open>
  End to end: when the client knows the handler id of every queued request (it is given,
  or cached for the handler's name), every request has some data, and the
  link is reliable, each caller gets exactly the server's reply to its own request, in
  order, and the client writes exactly the frames the server has read.
\<close>

theorem each_caller_gets_its_reply:
  assumes "client_world IO K socket processor rx ins outs cpre cpost queue log"
    and "duplex c sins souts spre spost" and "answering c sins souts (set (packets L (map spre (sins s)))) rep"
    and "linked L c cpre cpost spre spost"
    and "\<forall>q \<in> set (queue w). known tr q" and "\<forall>q \<in> set (queue w). dr_data (req q) \<noteq> []"
    and "sins s = map cpost (concat (map (request_frames L tr) (queue w)))" and "souts s = []"
    and "handle_connection c s = Some (e, s')" and "ins w = souts s'"
  shows "e = PeerGone \<and> (\<exists>w'. client_task L IO K socket processor rx tr w = Some (tr, w') \<and>
     outs w' = outs w @ sins s \<and>
     log w' = log w @ map (\<lambda>q. (consumer q, Some (rep (meta_of L q (id_of tr q)) (dr_data (req q))))) (queue w))"
  using closed_loop[OF assms(1-5,7-10)] replies_to_full[OF assms(6), of L tr rep]
  by (simp add: match_replies_map)

lemma match_replies_zip:
  "length qs \<le> length rs \<Longrightarrow> match_replies qs rs = map (\<lambda>(q, r). (consumer q, Some r)) (zip qs rs)"
  by (induction qs rs rule: match_replies.induct) auto

lemma match_replies_append:
  "length qs = length rs \<Longrightarrow> match_replies (qs @ qs') (rs @ rs') = match_replies qs rs @ match_replies qs' rs'"
  by (induction qs rs rule: list_induct2) auto

lemma replies_to_append [simp]: "replies_to L tr rep (qs @ qs') = replies_to L tr rep qs @ replies_to L tr rep qs'"
  by (simp add: replies_to_def)

lemma empty_packet_reply:
  assumes "answering c sins souts P rep" and "linked L c cpre cpost spre spost" and "([], []) \<in> P"
  shows "to_bytes_ServerError L (ServerError (MalformedMetaInfo None)) = Some (rep [] [])"
proof -
  obtain e1 e2 where empty: "access_PacketMeta L [] = Err e1" "access_HandlerMetaReq L [] = Err e2"
    using assms(2) wire_empty[of L] unfolding linked_def by metis
  obtain res w w1 where "serve_packet (c_lib c) (c_router c) [] [] (c_addr c, None) w = (Returned (res, None), w1)"
      "(case res of Ok b \<Rightarrow> Some b | Err e \<Rightarrow> to_bytes_ServerError (c_lib c) e) = Some (rep [] [])"
    using answeringD[OF assms(1,3)] by metis
  then show ?thesis using assms(2) empty by (auto simp: serve_packet_def linked_def)
qed

text \<open>
  C9. A request without data puts the two sides out of step for good.  The client writes its empty
  payload as a frame, the server was told there is none and answers that frame as a packet
  of its own with \<^verbatim>\<open>MalformedMetaInfo\<close>.  The callers before it and its own caller get
  their replies; the next caller is handed that error, and every later one the reply to the request
  before its own.
\<close>

theorem empty_request_shifts_replies:
  assumes "client_world IO K socket processor rx ins outs cpre cpost queue log"
    and "duplex c sins souts spre spost" and "answering c sins souts (set (packets L (map spre (sins s)))) rep"
    and "linked L c cpre cpost spre spost"
    and "queue w = qs @ q0 # qs'" and "\<forall>q \<in> set (queue w). known tr q"
    and "dr_data (req q0) = []" and "\<forall>q \<in> set (qs @ qs'). dr_data (req q) \<noteq> []"
    and "sins s = map cpost (concat (map (request_frames L tr) (queue w)))" and "souts s = []"
    and "handle_connection c s = Some (e, s')" and "ins w = souts s'"
    and "own = (\<lambda>q. rep (meta_of L q (id_of tr q)) (dr_data (req q)))"
  shows "to_bytes_ServerError L (ServerError (MalformedMetaInfo None)) = Some (rep [] []) \<and>
    (\<exists>w'. client_task L IO K socket processor rx tr w = Some (tr, w') \<and>
       log w' = log w @ map (\<lambda>q. (consumer q, Some (own q))) (qs @ [q0]) @
         map (\<lambda>(q, r). (consumer q, Some r)) (zip qs' (rep [] [] # map own qs')))"
proof -
  have wire: "wire_laws L" and undo: "spre \<circ> cpost = id"
    using assms(4) by (auto simp: linked_def)
  have "([], []) \<in> set (packets L (map spre (sins s)))"
    using packets_requests[OF wire, of tr "queue w"] assms(5,7) by (simp add: assms(9) undo server_packets_def)
  then have "to_bytes_ServerError L (ServerError (MalformedMetaInfo None)) = Some (rep [] [])"
    by (rule empty_packet_reply[OF assms(3,4)])
  moreover have "replies_to L tr rep [q0] = [own q0, rep [] []]"
    using assms(7) by (simp add: replies_to_def server_packets_def assms(13))
  then have "replies_to L tr rep (queue w) = map own (qs @ [q0]) @ (rep [] [] # map own qs')"
    using replies_to_append[of L tr rep "qs @ [q0]" qs'] replies_to_full[of qs L tr rep] replies_to_full[of qs' L tr rep]
      assms(8) by (simp add: assms(5,13))
  then have "match_replies (queue w) (replies_to L tr rep (queue w)) =
      map (\<lambda>q. (consumer q, Some (own q))) (qs @ [q0]) @ map (\<lambda>(q, r). (consumer q, Some r)) (zip qs' (rep [] [] # map own qs'))"
    using match_replies_append[of "qs @ [q0]" "map own (qs @ [q0])" qs' "rep [] [] # map own qs'"]
      match_replies_map[of "qs @ [q0]" own] match_replies_zip[of qs' "rep [] [] # map own qs'"]
    by (simp add: assms(5))
  ultimately show ?thesis
    using closed_loop[OF assms(1-4,6,9-12)] by auto
qed

section \<open>A link that ends early\<close>

lemma match_replies_short:
  "length rs \<le> length qs \<Longrightarrow> match_replies qs rs =
     map (\<lambda>(q, r). (consumer q, Some r)) (zip qs rs) @ map (\<lambda>q. (consumer q, None)) (drop (length rs) qs)"
proof (induction qs rs rule: match_replies.induct)
  case (2 q qs)
  then show ?case by (cases qs) simp_all
qed auto

text \<open>
  C10. A link that ends in the middle of a session: when the server's frames stop after the first replies,
  the callers of the first requests get them, in order, every later caller is told by a dropped channel
  (none waits for ever), and the client's task still works its queue to the end.
\<close>

theorem early_end_tells_the_rest:
  assumes "client_world IO K socket processor rx ins outs pre post queue log" and "wire_laws L"
    and "\<forall>q \<in> set (queue w). known tr q" and "length (ins w) \<le> length (queue w)"
  shows "\<exists>w'. client_task L IO K socket processor rx tr w = Some (tr, w') \<and>
     log w' = log w @ map (\<lambda>(q, x). (consumer q, Some (pre x))) (zip (queue w) (ins w)) @
       map (\<lambda>q. (consumer q, None)) (drop (length (ins w)) (queue w))"
  using client_task_known[OF assms(1,2) refl assms(3)] match_replies_short[of "map pre (ins w)" "queue w"] assms(4)
  by (auto simp: zip_map2 case_prod_unfold comp_def)

section \<open>Named handlers, end to end\<close>

lemma request_route_from_server_fifo:
  assumes "fifo_stream IO socket processor ins outs pre post" and "ins w = x # xs"
    and "to_bytes_HandlerMetaReq L \<lparr>hmr_s_type = ST_HandlerMetaReq, handler_name = nm\<rparr> = Some b"
    and "access_HandlerMetaAns L (pre x) = Ok a"
  shows "\<exists>w'. request_route_from_server L IO nm socket processor w = (Ok (hma_id a), w') \<and>
     ins w' = xs \<and> outs w' = outs w @ [post b]"
proof -
  note fifo = fifo_streamE[OF assms(1)]
  obtain w1 where 1: "post_process_traffic IO processor b w = (post b, w1)" "ins w1 = ins w" "outs w1 = outs w"
    using fifo(6) by blast
  obtain w2 where 2: "framed_send IO socket (post b) w1 = (Ok (), w2)" "ins w2 = ins w1" "outs w2 = outs w1 @ [post b]"
    using fifo(3) by blast
  obtain w3 where 3: "framed_next IO socket w2 = (Some (Ok x), w3)" "ins w3 = xs" "outs w3 = outs w2"
    using fifo(2)[of w2 x xs] 1 2 assms(2) by auto
  obtain w4 where "pre_process_traffic IO processor x w3 = (pre x, w4)" "ins w4 = ins w3" "outs w4 = outs w3"
    using fifo(5) by blast
  then show ?thesis
    using 1 2 3 assms(3,4) by (simp add: request_route_from_server_def wait_for_data_def)
qed

lemma name_request_bytes:
  assumes "wire_laws L"
    and "to_bytes_HandlerMetaReq L \<lparr>hmr_s_type = ST_HandlerMetaReq, handler_name = nm\<rparr> = Some b"
  shows "access_HandlerMetaReq L b = Ok \<lparr>hmr_s_type = ST_HandlerMetaReq, handler_name = nm\<rparr>"
    and "\<exists>e. access_PacketMeta L b = Err e" and "\<not> wants_payload L b"
proof -
  obtain e where b: "access_HandlerMetaReq L b = Ok \<lparr>hmr_s_type = ST_HandlerMetaReq, handler_name = nm\<rparr>"
      "access_PacketMeta L b = Err e"
    using wire_HandlerMetaReqE[OF assms(1)] assms(2)
    by (metis handler_meta_req.select_convs(1) option.inject)
  then show "access_HandlerMetaReq L b = Ok \<lparr>hmr_s_type = ST_HandlerMetaReq, handler_name = nm\<rparr>"
    and "\<exists>e. access_PacketMeta L b = Err e" and "\<not> wants_payload L b"
    by (simp_all add: wants_payload_def)
qed

lemma name_reply:
  assumes "answering c sins souts P rep" and "c_lib c = L" and "c_router c = build_router L u regs"
    and "wire_laws L" and "spec_name 0 regs nm = Some i"
    and "to_bytes_HandlerMetaReq L \<lparr>hmr_s_type = ST_HandlerMetaReq, handler_name = nm\<rparr> = Some b"
    and "(b, []) \<in> P"
  shows "access_HandlerMetaAns L (rep b []) = Ok \<lparr>hma_s_type = ST_HandlerMetaAns, hma_id = i\<rparr>"
proof -
  obtain e where b: "access_HandlerMetaReq L b = Ok \<lparr>hmr_s_type = ST_HandlerMetaReq, handler_name = nm\<rparr>"
      "access_PacketMeta L b = Err e"
    using name_request_bytes[OF assms(4,6)] by blast
  obtain ans where ans: "to_bytes_HandlerMetaAns L \<lparr>hma_s_type = ST_HandlerMetaAns, hma_id = i\<rparr> = Some ans"
      "access_HandlerMetaAns L ans = Ok \<lparr>hma_s_type = ST_HandlerMetaAns, hma_id = i\<rparr>"
    using wire_HandlerMetaAnsE[OF assms(4)] by (metis handler_meta_ans.select_convs(1))
  have "serve_packet (c_lib c) (c_router c) b [] (c_addr c, None) w = (Returned (Ok ans, None), w)" for w
    by (simp add: serve_packet_def assms(2,3) b names_build_router assms(5) ans)
  moreover obtain res w w1 where
      "serve_packet (c_lib c) (c_router c) b [] (c_addr c, None) w = (Returned (res, None), w1)"
      "(case res of Ok b \<Rightarrow> Some b | Err e \<Rightarrow> to_bytes_ServerError (c_lib c) e) = Some (rep b [])"
    using answeringD[OF assms(1,7)] by metis
  ultimately show ?thesis
    using ans(2) by auto
qed

lemma process_request_learns:
  assumes "client_world IO K socket processor rx ins outs pre post queue log" and "wire_laws L"
    and "dr_handler_info (req q) = handler_info_new_named nm" and "lookup_route tr nm = None"
    and "to_bytes_HandlerMetaReq L \<lparr>hmr_s_type = ST_HandlerMetaReq, handler_name = nm\<rparr> = Some b"
    and "ins w = x # y # ys" and "access_HandlerMetaAns L (pre x) = Ok a"
  shows "\<exists>tr' w'. process_request L IO K socket processor q tr w = (Ok (), tr', w') \<and>
     lookup_route tr' nm = Some (hma_id a) \<and> ins w' = ys \<and> queue w' = queue w \<and>
     outs w' = outs w @ map post [b, meta_of L q (hma_id a), dr_data (req q)] \<and>
     log w' = log w @ [(consumer q, Some (pre y))]"
proof -
  note world = client_worldD[OF assms(1)]
  let ?tr = "tr\<lparr>known_routes := hm_insert (=) (known_routes tr) nm (hma_id a)\<rparr>"
  let ?m = "meta_of L q (hma_id a)"
  obtain w1 where 1: "request_route_from_server L IO nm socket processor w = (Ok (hma_id a), w1)"
      "ins w1 = y # ys" "outs w1 = outs w @ [post b]"
    using request_route_from_server_fifo[OF world(1) assms(6,5,7)] by blast
  have resolve: "resolve_handler L IO K socket processor (dr_handler_info (req q)) tr w = (Ok (hma_id a), ?tr, w1)"
    by (simp add: resolve_handler_def handler_info_id_def handler_info_new_named_def assms(3,4)
          request_route_def 1)
  obtain w2 where 2: "exchange IO socket processor ?m (dr_data (req q)) w1 = (Ok (pre y), w2)"
      "outs w2 = outs w1 @ [post ?m, post (dr_data (req q))]" "ins w2 = ys"
    using exchange_fifo[OF world(1), of ?m "dr_data (req q)" w1] 1(2) by auto
  obtain v w3 where 3: "consumer_send K (consumer q) (pre y) w2 = (v, w3)"
    by (cases "consumer_send K (consumer q) (pre y) w2")
  have kept: "log w2 = log w \<and> queue w2 = queue w"
    using exchange_preserves[OF world(2) 2(1)] resolve_handler_preserves[OF world(2) resolve] by simp
  have "process_request L IO K socket processor q tr w = (Ok (), ?tr, w3)"
    by (simp add: process_request_def resolve meta_of_access(1)[OF assms(2)] 2(1) 3)
  then show ?thesis
    using world(3)[OF 3] 1 2 kept by (simp add: lookup_route_def std_map.get_ins)
qed

text \<open>
  A queue of requests that all name the same handler: what the client does once it has
  learnt the id with the first of them.
\<close>

definition named_frames ::
  "('st, 'tc) s_type_lib \<Rightarrow> u64 \<Rightarrow> 'st client_request \<Rightarrow> bytes list" where
  "named_frames L i q = [meta_of L q i, dr_data (req q)]"

definition names_handler :: "string \<Rightarrow> 'st client_request \<Rightarrow> bool" where
  "names_handler nm q \<longleftrightarrow> dr_handler_info (req q) = handler_info_new_named nm"

lemma known_named:
  assumes "names_handler nm q" and "lookup_route tr nm = Some i"
  shows "known tr q" and "id_of tr q = i"
  using assms by (simp_all add: names_handler_def known_def id_of_def resolved_def handler_info_new_named_def)

lemma packets_named:
  assumes "wire_laws L" and "\<not> wants_payload L b" and "\<forall>q \<in> set qs. dr_data (req q) \<noteq> []"
  shows "packets L (b # concat (map (named_frames L i) qs)) =
     (b, []) # map (\<lambda>q. (meta_of L q i, dr_data (req q))) qs"
proof -
  have "packets L (concat (map (named_frames L i) qs)) = map (\<lambda>q. (meta_of L q i, dr_data (req q))) qs"
    using assms(3) by (induction qs) (simp_all add: named_frames_def wants_payload_meta[OF assms(1)])
  then show ?thesis using assms(2) by simp
qed

lemma client_task_named:
  assumes "client_world IO K socket processor rx ins outs pre post queue log" and "wire_laws L"
    and "queue w = q # qs" and "\<forall>q' \<in> set (q # qs). names_handler nm q'" and "lookup_route tr nm = None"
    and "to_bytes_HandlerMetaReq L \<lparr>hmr_s_type = ST_HandlerMetaReq, handler_name = nm\<rparr> = Some b"
    and "map pre (ins w) = x # map f (q # qs)" and "access_HandlerMetaAns L x = Ok a"
  shows "\<exists>tr' w'. client_task L IO K socket processor rx tr w = Some (tr', w') \<and>
     lookup_route tr' nm = Some (hma_id a) \<and>
     outs w' = outs w @ map post (b # concat (map (named_frames L (hma_id a)) (q # qs))) \<and>
     log w' = log w @ map (\<lambda>q'. (consumer q', Some (f q'))) (q # qs)"
proof -
  obtain x0 y0 ys where ins: "ins w = x0 # y0 # ys" "pre x0 = x" "pre y0 = f q" "map pre ys = map f qs"
    using assms(7) by (cases "ins w"; cases "tl (ins w)") auto
  obtain w1 where 1: "mpsc_recv K rx w = (Some q, w1)" "ins w1 = ins w" "outs w1 = outs w"
      "queue w1 = qs" "log w1 = log w"
    using client_worldD(6)[OF assms(1,3)] by blast
  obtain tr' w2 where 2: "process_request L IO K socket processor q tr w1 = (Ok (), tr', w2)"
      "lookup_route tr' nm = Some (hma_id a)" "ins w2 = ys" "queue w2 = qs"
      "outs w2 = outs w @ map post [b, meta_of L q (hma_id a), dr_data (req q)]"
      "log w2 = log w @ [(consumer q, Some (f q))]"
    using process_request_learns[OF assms(1,2) _ assms(5,6), of q w1 x0 y0 ys a] assms(4,8) ins 1
    by (auto simp: names_handler_def)
  have "\<forall>q' \<in> set qs. known tr' q'" and ids: "\<And>q'. q' \<in> set qs \<Longrightarrow> id_of tr' q' = hma_id a"
    using known_named[OF _ 2(2)] assms(4) by auto
  then obtain w' where 3: "client_task L IO K socket processor rx tr' w2 = Some (tr', w')"
      "outs w' = outs w2 @ map post (concat (map (request_frames L tr') qs))"
      "log w' = log w2 @ match_replies qs (map pre (ins w2))"
    using client_task_known[OF assms(1,2) 2(4)] by blast
  have "client_task L IO K socket processor rx tr w = client_task L IO K socket processor rx tr' w2"
    by (subst client_task.simps) (simp add: 1 2)
  moreover have "concat (map (request_frames L tr') qs) = concat (map (named_frames L (hma_id a)) qs)"
    using ids by (intro arg_cong[of _ _ concat] map_cong) (simp_all add: request_frames_def named_frames_def)
  ultimately show ?thesis
    using 2 3 ins(4) by (simp add: match_replies_map) (simp add: named_frames_def)
qed

lemma named_requests:
  assumes "client_world IO K socket processor rx ins outs cpre cpost queue log"
    and "duplex c sins souts spre spost" and "answering c sins souts (set (packets L (map spre (sins s)))) rep"
    and "linked L c cpre cpost spre spost"
    and "c_router c = build_router L u regs" and "spec_name 0 regs nm = Some i"
    and "queue w = q # qs" and "\<forall>q' \<in> set (queue w). names_handler nm q'"
    and "\<forall>q' \<in> set (queue w). dr_data (req q') \<noteq> []" and "lookup_route tr nm = None"
    and "to_bytes_HandlerMetaReq L \<lparr>hmr_s_type = ST_HandlerMetaReq, handler_name = nm\<rparr> = Some b"
    and "sins s = map cpost (b # concat (map (named_frames L i) (queue w)))" and "souts s = []"
    and "handle_connection c s = Some (e, s')" and "ins w = souts s'"
  shows "\<exists>tr' w'. client_task L IO K socket processor rx tr w = Some (tr', w') \<and>
     lookup_route tr' nm = Some i \<and> outs w' = outs w @ sins s \<and>
     log w' = log w @ map (\<lambda>q'. (consumer q', Some (rep (meta_of L q' i) (dr_data (req q'))))) (queue w)"
proof -
  have wire: "wire_laws L" and lib: "c_lib c = L" and undo: "spre \<circ> cpost = id" "cpre \<circ> spost = id"
    using assms(4) by (auto simp: linked_def)
  note quiet = name_request_bytes(3)[OF wire assms(11)]
  have "map spre (sins s) = b # concat (map (named_frames L i) (queue w))"
    by (simp only: assms(12) map_map undo list.map_id)
  then have read: "packets L (map spre (sins s)) =
      (b, []) # map (\<lambda>q. (meta_of L q i, dr_data (req q))) (queue w)"
    using packets_named[OF wire quiet assms(9)] by simp
  then have reply: "access_HandlerMetaAns L (rep b []) = Ok \<lparr>hma_s_type = ST_HandlerMetaAns, hma_id = i\<rparr>"
    by (intro name_reply[OF assms(3) lib assms(5) wire assms(6,11)]) simp
  have "ins w = map spost (rep b [] # map (\<lambda>q. rep (meta_of L q i) (dr_data (req q))) (queue w))"
    using handle_connection_replies[OF assms(2), of s rep] assms(3,13-15) read lib by simp
  then have "map cpre (ins w) = rep b [] # map (\<lambda>q. rep (meta_of L q i) (dr_data (req q))) (q # qs)"
    by (simp only: map_map undo list.map_id assms(7))
  from client_task_named[OF assms(1) wire assms(7) _ assms(10,11) this reply] show ?thesis
    using assms(7,8,12) by simp
qed

text \<open>
  C8. Requests addressed by name, to a handler the client does not know yet: the client
  asks the server once, learns the id of the latest registration with that name, sends all
  the requests under that id, and every caller gets the server's reply to its own request.
  Serving such a request, of a structure type the registration accepts, is running the
  registration's own handler on the request's data.
\<close>

theorem named_requests_end_to_end:
  assumes "client_world IO K socket processor rx ins outs cpre cpost queue log"
    and "duplex c sins souts spre spost" and "answering c sins souts (set (packets L (map spre (sins s)))) rep"
    and "linked L c cpre cpost spre spost"
    and "c_router c = build_router L u regs" and "key_laws L" and "user_type_laws L"
    and "length regs \<le> 2 ^ 64" and "j < length regs" and "regs ! j = (rt, nm, s_tys)"
    and "\<forall>k. j < k \<and> k < length regs \<longrightarrow> fst (snd (regs ! k)) \<noteq> nm"
    and "queue w = q # qs" and "\<forall>q' \<in> set (queue w). names_handler nm q'"
    and "\<forall>q' \<in> set (queue w). dr_data (req q') \<noteq> []"
    and "\<forall>q' \<in> set (queue w). dr_s_type (req q') \<in> set s_tys" and "lookup_route tr nm = None"
    and "to_bytes_HandlerMetaReq L \<lparr>hmr_s_type = ST_HandlerMetaReq, handler_name = nm\<rparr> = Some b"
    and "sins s = map cpost (b # concat (map (named_frames L (of_nat j)) (queue w)))" and "souts s = []"
    and "handle_connection c s = Some (e, s')" and "ins w = souts s'"
  shows "(\<forall>q' \<in> set (queue w). \<forall>data addr tx v.
       serve_packet L (c_router c) (meta_of L q' (of_nat j)) data (addr, tx) v =
         run_handler rt addr tx (dr_s_type (req q')) data v) \<and>
   (\<exists>tr' w'. client_task L IO K socket processor rx tr w = Some (tr', w') \<and>
     lookup_route tr' nm = Some (of_nat j) \<and> outs w' = outs w @ sins s \<and>
     log w' = log w @
       map (\<lambda>q'. (consumer q', Some (rep (meta_of L q' (of_nat j)) (dr_data (req q'))))) (queue w))"
proof -
  have wire: "wire_laws L" using assms(4) by (simp add: linked_def)
  have "serve_packet L (c_router c) (meta_of L q' (of_nat j)) data (addr, tx) v =
      run_handler rt addr tx (dr_s_type (req q')) data v" if "q' \<in> set (queue w)" for q' data addr tx v
    unfolding assms(5)
    using that assms(7,15) spec_route_own_type[OF assms(9,8,10), of "dr_s_type (req q')" L]
    by (intro serve_packet_Call[OF assms(6,8)])
       (simp add: dispatch_of_def meta_of_access(2)[OF wire] user_type_laws_def packet_meta_of_def)
  then show ?thesis
    using named_requests[OF assms(1-5) spec_name_is_latest[OF assms(9-11)] assms(12-14,16-21)] by blast
qed

section \<open>Examples\<close>

lemma sample_client_world:
  "client_world queue_io sample_client_io 0 0 0 q_in q_out (\<lambda>b. b) (\<lambda>b. b) cw_queue cw_log"
  by (auto simp: client_world_def queue_fifo untouched_def io_preserves_def sample_client_io_def
        split: list.splits)

lemma sample_linked: "linked sample_lib (sample_conn regs) (\<lambda>b. b) (\<lambda>b. b) (\<lambda>b. b) (\<lambda>b. b)"
  by (simp add: linked_def sample_wire_laws)

lemma sample_rep_echo:
  assumes "dr_s_type (req q) = 0"
  shows "sample_rep (meta_of sample_lib q 0) d = d"
  using meta_of_access(2)[OF sample_wire_laws, of q 0] assms
  by (simp add: sample_rep_def dispatch_of_def packet_meta_of_def spec_route_def)

lemma sample_request_simps [simp]:
  "known tr (sample_request n d)" "id_of tr (sample_request n d) = 0" "dr_data (req (sample_request n d)) = d"
  "dr_s_type (req (sample_request n d)) = 0" "consumer (sample_request n d) = n"
  by (simp_all add: known_def id_of_def resolved_def sample_request_def handler_info_new_id_def)

lemma sample_server_run:
  obtains s' where "handle_connection (sample_conn echo_regs) \<lparr>q_in = fs, q_out = [], q_closed = False\<rparr> =
      Some (PeerGone, s')"
    and "q_out s' = map (\<lambda>(m, p). sample_rep m p) (packets sample_lib fs)"
  using handle_connection_replies[OF sample_duplex sample_answering,
      of "\<lparr>q_in = fs, q_out = [], q_closed = False\<rparr>"] by auto

abbreviation two_requests :: "bytes \<Rightarrow> bytes \<Rightarrow> u64 client_request list" where
  "two_requests a b \<equiv> [sample_request 4 a, sample_request 5 b]"

theorem each_caller_gets_its_reply_witness:
  "\<exists>w'. client_task sample_lib queue_io sample_client_io 0 0 0 target_router_new
       (sample_cworld [[1], [2]] (two_requests [1] [2])) = Some (target_router_new, w') \<and>
     cw_log w' = [(4, Some [1]), (5, Some [2])]"
proof -
  let ?fs = "concat (map (request_frames sample_lib target_router_new) (two_requests [1] [2]))"
  let ?w = "sample_cworld [[1], [2]] (two_requests [1] [2])"
  obtain s' where s': "handle_connection (sample_conn echo_regs) \<lparr>q_in = ?fs, q_out = [], q_closed = False\<rparr> =
      Some (PeerGone, s')" "q_out s' = map (\<lambda>(m, p). sample_rep m p) (packets sample_lib ?fs)"
    using sample_server_run[of ?fs] by metis
  have "q_in ?w = q_out s'"
    unfolding s'(2) packets_requests[OF sample_wire_laws]
    by (simp add: server_packets_def sample_rep_echo sample_cworld_def)
  then show ?thesis
    using each_caller_gets_its_reply[OF sample_client_world sample_duplex sample_answering sample_linked
        _ _ _ _ s'(1), of ?w target_router_new]
    by (auto simp: sample_cworld_def sample_rep_echo)
qed

theorem empty_request_shifts_replies_witness:
  "\<exists>w'. client_task sample_lib queue_io sample_client_io 0 0 0 target_router_new
       (sample_cworld [[], [6], [2]] (two_requests [] [2])) = Some (target_router_new, w') \<and>
     cw_log w' = [(4, Some []), (5, Some [6])]"
proof -
  let ?fs = "concat (map (request_frames sample_lib target_router_new) (two_requests [] [2]))"
  let ?w = "sample_cworld [[], [6], [2]] (two_requests [] [2])"
  obtain s' where s': "handle_connection (sample_conn echo_regs) \<lparr>q_in = ?fs, q_out = [], q_closed = False\<rparr> =
      Some (PeerGone, s')" "q_out s' = map (\<lambda>(m, p). sample_rep m p) (packets sample_lib ?fs)"
    using sample_server_run[of ?fs] by metis
  have bad: "sample_rep [] [] = [6]"
    by (simp add: sample_rep_def dispatch_of_def)
  have "q_in ?w = q_out s'"
    unfolding s'(2) packets_requests[OF sample_wire_laws]
    by (simp add: server_packets_def sample_rep_echo sample_cworld_def bad)
  then show ?thesis
    using empty_request_shifts_replies[OF sample_client_world sample_duplex sample_answering sample_linked
        _ _ _ _ _ _ s'(1) _ refl, of ?w "[]" "sample_request 4 []" "[sample_request 5 [2]]" target_router_new]
    by (simp add: sample_cworld_def sample_rep_echo bad)
qed

theorem early_end_tells_the_rest_witness:
  "\<exists>w'. client_task sample_lib queue_io sample_client_io 0 0 0 target_router_new
       (sample_cworld [[1]] (two_requests [1] [2])) = Some (target_router_new, w') \<and>
     cw_log w' = [(4, Some [1]), (5, None)]"
  using early_end_tells_the_rest[OF sample_client_world sample_wire_laws,
      of "sample_cworld [[1]] (two_requests [1] [2])" target_router_new]
  by (simp add: sample_cworld_def)

definition sample_named :: "u64 client_request" where
  "sample_named =
     \<lparr>req = \<lparr>dr_handler_info = handler_info_new_named ''ECHO'', dr_data = [7], dr_s_type = 0\<rparr>, consumer = 9\<rparr>"

lemma sample_named_simps [simp]:
  "dr_handler_info (req sample_named) = handler_info_new_named ''ECHO''" "dr_data (req sample_named) = [7]"
  "dr_s_type (req sample_named) = 0" "consumer sample_named = 9"
  by (simp_all add: sample_named_def)

theorem named_requests_end_to_end_witness:
  "\<exists>tr' w'. client_task sample_lib queue_io sample_client_io 0 0 0 target_router_new
       (sample_cworld [3 # bits64 0, [7], [7]] [sample_named, sample_named]) = Some (tr', w') \<and>
     lookup_route tr' ''ECHO'' = Some 0 \<and> cw_log w' = [(9, Some [7]), (9, Some [7])]"
proof -
  let ?b = "2 # as_bytes ''ECHO''" and ?m = "meta_of sample_lib sample_named 0"
  let ?w = "sample_cworld [3 # bits64 0, [7], [7]] [sample_named, sample_named]"
  let ?fs = "[?b, ?m, [7], ?m, [7]]"
  obtain s' where s': "handle_connection (sample_conn echo_regs) \<lparr>q_in = ?fs, q_out = [], q_closed = False\<rparr> =
      Some (PeerGone, s')" "q_out s' = map (\<lambda>(m, p). sample_rep m p) (packets sample_lib ?fs)"
    using sample_server_run[of ?fs] by metis
  have echo: "sample_rep ?m [7] = [7]"
    by (rule sample_rep_echo) simp
  have ans: "sample_rep ?b [] = 3 # bits64 0" "\<not> wants_payload sample_lib ?b"
    by (simp_all add: sample_rep_def dispatch_of_def wants_payload_def)
  have "q_in ?w = q_out s'"
    using wants_payload_meta[OF sample_wire_laws, of sample_named 0]
    by (simp add: s'(2) echo ans sample_cworld_def)
  moreover have "\<forall>k. 0 < k \<and> k < length echo_regs \<longrightarrow> fst (snd (echo_regs ! k)) \<noteq> ''ECHO''" by auto
  ultimately show ?thesis
    using named_requests_end_to_end[OF sample_client_world sample_duplex sample_answering sample_linked
        sample_conn_simps(5) sample_key_laws sample_user_type_laws _ _ _ _ _ _ _ _ _ _ _ _ s'(1), of 0 sample_echo "''ECHO''" "[0]"
        ?w sample_named "[sample_named]" target_router_new ?b]
    by (auto simp: echo sample_cworld_def lookup_route_def target_router_new_def named_frames_def names_handler_def)
qed

end
