(* ===== verification/Session.thy ===== *)
theory Session
  imports Protocol
begin

text \<open>
  Client and server running at the same time.  The state of a session holds the client's side, the
  server's side with the two directions of the link, and a schedule.  The client's code runs on
  stream operations that first let others take turns: before each operation of the client the moves of
  one entry of the schedule are made, each an iteration of the server's loop or a step of some other task
  of the server's process, and while the client waits for a frame
  the server runs until there is one.  An iteration of the server runs only when a complete packet
  has arrived, otherwise its read is still waiting.  The theorems hold for every schedule whose other
  tasks leave the link alone.
\<close>

section \<open>Sessions\<close>

datatype 's move = ServerTurn | OtherTask "'s \<Rightarrow> 's"

record ('w, 's) session =
  sn_client :: 'w
  sn_server :: 's
  sn_tx :: "sender option"
  sn_exit :: "conn_exit option"
  sn_got :: nat
  sn_turns :: "'s move list list"

text \<open>
  The server's end: its connection and channel, the frames that wait to be read and those written,
  how a frame is read, and the arrival of a frame.
\<close>

record ('st, 'tc, 's) server_end =
  se_conn :: "('st, 'tc, 's) connection"
  se_rx :: receiver
  se_ins :: "'s \<Rightarrow> bytes list"
  se_outs :: "'s \<Rightarrow> bytes list"
  se_pre :: "bytes \<Rightarrow> bytes"
  se_deliver :: "bytes \<Rightarrow> 's \<Rightarrow> 's"

definition packet_waiting :: "('st, 'tc, 's) server_end \<Rightarrow> 's \<Rightarrow> bool" where
  "packet_waiting se s \<longleftrightarrow> packets (c_lib (se_conn se)) (map (se_pre se) (se_ins se s)) \<noteq> []"

definition server_turn :: "('st, 'tc, 's) server_end \<Rightarrow> ('w, 's) session \<Rightarrow> ('w, 's) session" where
  "server_turn se j =
     (if sn_exit j = None \<and> packet_waiting se (sn_server j) then
        (case conn_iter (se_conn se) (se_rx se) (sn_tx j) (sn_server j) of
           (Continue tx, s) \<Rightarrow> j\<lparr>sn_tx := tx, sn_server := s\<rparr>
         | (Exit e, s) \<Rightarrow> j\<lparr>sn_exit := Some e, sn_server := s\<rparr>)
      else j)"

primrec make_move :: "('st, 'tc, 's) server_end \<Rightarrow> 's move \<Rightarrow> ('w, 's) session \<Rightarrow> ('w, 's) session" where
  "make_move se ServerTurn j = server_turn se j"
| "make_move se (OtherTask f) j = j\<lparr>sn_server := f (sn_server j)\<rparr>"

definition frame_for_client :: "('st, 'tc, 's) server_end \<Rightarrow> ('w, 's) session \<Rightarrow> bool" where
  "frame_for_client se j \<longleftrightarrow> sn_got j < length (se_outs se (sn_server j))"

text \<open>The moves of the next entry of the schedule; an exhausted schedule has none.\<close>

definition take_turn :: "('st, 'tc, 's) server_end \<Rightarrow> ('w, 's) session \<Rightarrow> ('w, 's) session" where
  "take_turn se j =
     (case sn_turns j of
        [] \<Rightarrow> j
      | ms # mss \<Rightarrow> fold (make_move se) ms (j\<lparr>sn_turns := mss\<rparr>))"

text \<open>
  Waiting for a frame.  The frames that have arrived bound the number of iterations the server can
  make before it has to wait itself; a wait that would never end is an end of the stream here.
\<close>

fun await_frame :: "('st, 'tc, 's) server_end \<Rightarrow> nat \<Rightarrow> ('w, 's) session \<Rightarrow> ('w, 's) session" where
  "await_frame se 0 j = j"
| "await_frame se (Suc n) j = (if frame_for_client se j then j else await_frame se n (server_turn se j))"

definition client_next ::
  "('st, 'tc, 's) server_end \<Rightarrow> ('w, 's) session \<Rightarrow> (bytes, io_error) result option \<times> ('w, 's) session" where
  "client_next se j =
     (let j1 = take_turn se j;
          j2 = await_frame se (length (se_ins se (sn_server j1))) j1
      in if frame_for_client se j2
         then (Some (Ok (se_outs se (sn_server j2) ! sn_got j2)), j2\<lparr>sn_got := Suc (sn_got j2)\<rparr>)
         else (None, j2))"

definition client_send ::
  "('st, 'tc, 's) server_end \<Rightarrow> bytes \<Rightarrow> ('w, 's) session \<Rightarrow> (unit, io_error) result \<times> ('w, 's) session" where
  "client_send se b j =
     (let j1 = take_turn se j in (Ok (), j1\<lparr>sn_server := se_deliver se b (sn_server j1)\<rparr>))"

definition on_client :: "('w \<Rightarrow> 'a \<times> 'w) \<Rightarrow> ('w, 's) session \<Rightarrow> 'a \<times> ('w, 's) session" where
  "on_client f j = (case f (sn_client j) of (x, w) \<Rightarrow> (x, j\<lparr>sn_client := w\<rparr>))"

definition session_io :: "('st, 'tc, 's) server_end \<Rightarrow> 'w conn_io \<Rightarrow> ('w, 's) session conn_io" where
  "session_io se IO =
     \<lparr>framed_next = (\<lambda>f. client_next se), framed_send = (\<lambda>f. client_send se),
      framed_close = (\<lambda>f. on_client (framed_close IO f)), framed_new = (\<lambda>t cd. on_client (framed_new IO t cd)),
      pre_process_traffic = (\<lambda>p b. on_client (pre_process_traffic IO p b)),
      post_process_traffic = (\<lambda>p b. on_client (post_process_traffic IO p b)),
      processor_new = on_client (processor_new IO),
      processor_clone = (\<lambda>p. on_client (processor_clone IO p))\<rparr>"

definition session_client ::
  "('st, 'tc, 's) server_end \<Rightarrow> ('st, 'w) client_io \<Rightarrow> ('st, ('w, 's) session) client_io" where
  "session_client se K =
     \<lparr>fmt_router_error = fmt_router_error K,
      consumer_send = (\<lambda>s b. on_client (consumer_send K s b)),
      consumer_drop = (\<lambda>s j. j\<lparr>sn_client := consumer_drop K s (sn_client j)\<rparr>),
      mpsc_channel = (\<lambda>n. on_client (mpsc_channel K n)),
      mpsc_send = (\<lambda>s q. on_client (mpsc_send K s q)),
      mpsc_recv = (\<lambda>rx j. on_client (mpsc_recv K rx) (take_turn se j)),
      spawn_client = (\<lambda>t j. j\<lparr>sn_client := spawn_client K t (sn_client j)\<rparr>)\<rparr>"

lemma session_io_simps [simp]:
  "framed_next (session_io se IO) f j = client_next se j"
  "framed_send (session_io se IO) f b j = client_send se b j"
  "pre_process_traffic (session_io se IO) p b j = on_client (pre_process_traffic IO p b) j"
  "post_process_traffic (session_io se IO) p b j = on_client (post_process_traffic IO p b) j"
  by (simp_all add: session_io_def)

lemma session_client_simps [simp]:
  "fmt_router_error (session_client se K) e = fmt_router_error K e"
  "consumer_send (session_client se K) s b j = on_client (consumer_send K s b) j"
  "consumer_drop (session_client se K) s j = j\<lparr>sn_client := consumer_drop K s (sn_client j)\<rparr>"
  "mpsc_recv (session_client se K) rx j = on_client (mpsc_recv K rx) (take_turn se j)"
  by (simp_all add: session_client_def)

lemma on_client_eq: "f (sn_client j) = (x, w) \<Longrightarrow> on_client f j = (x, j\<lparr>sn_client := w\<rparr>)"
  by (simp add: on_client_def)

section \<open>What is assumed of the two sides\<close>

text \<open>
  The server's side: a queue-like stream whose handlers answer the packets of \<open>P\<close> with
  \<open>rep\<close>, to which arriving frames are appended.
\<close>

definition session_server ::
  "('st, 'tc, 's) server_end \<Rightarrow> (bytes \<Rightarrow> bytes) \<Rightarrow> (bytes \<times> bytes) set \<Rightarrow> (bytes \<Rightarrow> bytes \<Rightarrow> bytes) \<Rightarrow> bool" where
  "session_server se spost P rep \<longleftrightarrow>
     duplex (se_conn se) (se_ins se) (se_outs se) (se_pre se) spost \<and>
     answering (se_conn se) (se_ins se) (se_outs se) P rep \<and>
     (\<forall>b s. se_ins se (se_deliver se b s) = se_ins se s @ [b] \<and>
            se_outs se (se_deliver se b s) = se_outs se s)"

text \<open>
  The client's side: processors that compute \<open>cpre\<close> and \<open>cpost\<close>, a closed queue of
  requests, and a log of what was given to the consumers.
\<close>

definition session_client_side ::
  "'w conn_io \<Rightarrow> ('st, 'w) client_io \<Rightarrow> processor \<Rightarrow> receiver \<Rightarrow> (bytes \<Rightarrow> bytes) \<Rightarrow> (bytes \<Rightarrow> bytes)
     \<Rightarrow> ('w \<Rightarrow> 'st client_request list) \<Rightarrow> ('w \<Rightarrow> (sender \<times> bytes option) list) \<Rightarrow> bool" where
  "session_client_side IO K processor rx cpre cpost queue log \<longleftrightarrow>
     (\<forall>b w. \<exists>w'. pre_process_traffic IO processor b w = (cpre b, w') \<and> untouched queue log w w') \<and>
     (\<forall>b w. \<exists>w'. post_process_traffic IO processor b w = (cpost b, w') \<and> untouched queue log w w') \<and>
     (\<forall>s b w. \<exists>r w'. consumer_send K s b w = (r, w') \<and> queue w' = queue w \<and> log w' = log w @ [(s, Some b)]) \<and>
     (\<forall>s w. queue (consumer_drop K s w) = queue w \<and> log (consumer_drop K s w) = log w @ [(s, None)]) \<and>
     (\<forall>w. queue w = [] \<longrightarrow> (\<exists>w'. mpsc_recv K rx w = (None, w') \<and> untouched queue log w w')) \<and>
     (\<forall>w q qs. queue w = q # qs \<longrightarrow>
        (\<exists>w'. mpsc_recv K rx w = (Some q, w') \<and> queue w' = qs \<and> log w' = log w))"

lemma client_sideE:
  assumes "session_client_side IO K processor rx cpre cpost queue log"
  shows "\<exists>w'. pre_process_traffic IO processor b w = (cpre b, w') \<and> queue w' = queue w \<and> log w' = log w"
    and "\<exists>w'. post_process_traffic IO processor b w = (cpost b, w') \<and> queue w' = queue w \<and> log w' = log w"
    and "\<exists>r w'. consumer_send K s b w = (r, w') \<and> queue w' = queue w \<and> log w' = log w @ [(s, Some b)]"
    and "queue (consumer_drop K s w) = queue w \<and> log (consumer_drop K s w) = log w @ [(s, None)]"
    and "queue w = [] \<Longrightarrow> \<exists>w'. mpsc_recv K rx w = (None, w') \<and> queue w' = [] \<and> log w' = log w"
    and "queue w = q # qs \<Longrightarrow> \<exists>w'. mpsc_recv K rx w = (Some q, w') \<and> queue w' = qs \<and> log w' = log w"
  using assms unfolding session_client_side_def untouched_def by metis+

text \<open>Other tasks that leave the link alone.\<close>

definition polite :: "('st, 'tc, 's) server_end \<Rightarrow> 's move list list \<Rightarrow> bool" where
  "polite se mss \<longleftrightarrow>
     (\<forall>ms \<in> set mss. \<forall>f. OtherTask f \<in> set ms \<longrightarrow> (\<forall>s. untouched (se_ins se) (se_outs se) s (f s)))"

section \<open>The server's turns\<close>

text \<open>
  The state between two requests: the server runs, has read everything and the client has taken
  every reply.  \<open>waiting fs\<close>: the same, but the frames \<open>fs\<close> have been sent and no
  reply has been written yet.
\<close>

definition waiting :: "('st, 'tc, 's) server_end \<Rightarrow> bytes list \<Rightarrow> ('w, 's) session \<Rightarrow> bool" where
  "waiting se fs j \<longleftrightarrow>
     polite se (sn_turns j) \<and> sn_exit j = None \<and> sn_tx j \<noteq> None \<and> se_ins se (sn_server j) = fs \<and>
     sn_got j = length (se_outs se (sn_server j))"

text \<open>The reply \<open>r\<close> has been written and everything sent has been read.\<close>

definition replied :: "('st, 'tc, 's) server_end \<Rightarrow> bytes \<Rightarrow> ('w, 's) session \<Rightarrow> bool" where
  "replied se r j \<longleftrightarrow>
     polite se (sn_turns j) \<and> sn_exit j = None \<and> sn_tx j \<noteq> None \<and> se_ins se (sn_server j) = [] \<and>
     (\<exists>rs. se_outs se (sn_server j) = rs @ [r] \<and> sn_got j = length rs)"

text \<open>The frames of one packet.\<close>

definition one_packet :: "('st, 'tc, 's) server_end \<Rightarrow> bytes list \<Rightarrow> bytes \<Rightarrow> bytes \<Rightarrow> bool" where
  "one_packet se fs m p \<longleftrightarrow>
     (\<exists>x. fs = [x] \<and> se_pre se x = m \<and> p = [] \<and> \<not> wants_payload (c_lib (se_conn se)) m) \<or>
     (\<exists>x y. fs = [x, y] \<and> se_pre se x = m \<and> se_pre se y = p \<and> wants_payload (c_lib (se_conn se)) m)"

lemma one_packet_packets:
  "one_packet se fs m p \<Longrightarrow> packets (c_lib (se_conn se)) (map (se_pre se) fs) = [(m, p)]"
  by (auto simp: one_packet_def)

lemma packet_waiting_Nil: "se_ins se s = [] \<Longrightarrow> \<not> packet_waiting se s"
  by (simp add: packet_waiting_def)

lemma server_turn_starved: "\<not> packet_waiting se (sn_server j) \<Longrightarrow> server_turn se j = j"
  by (simp add: server_turn_def)

lemma server_turn_replies:
  assumes "session_server se spost P rep" and "one_packet se fs m p" and "(m, p) \<in> P" and "waiting se fs j"
  shows "replied se (spost (rep m p)) (server_turn se j)"
proof -
  let ?s = "sn_server j"
  obtain tx where j: "sn_exit j = None" "sn_tx j = Some tx" "se_ins se ?s = fs"
      "sn_got j = length (se_outs se ?s)" "polite se (sn_turns j)"
    using assms(4) by (auto simp: waiting_def)
  have srv: "duplex (se_conn se) (se_ins se) (se_outs se) (se_pre se) spost"
      "answering (se_conn se) (se_ins se) (se_outs se) P rep"
    using assms(1) by (simp_all add: session_server_def)
  note pk = one_packet_packets[OF assms(2)]
  obtain s' where s': "conn_iter (se_conn se) (se_rx se) (Some tx) ?s = (Continue (Some tx), s')"
      "se_outs se s' = se_outs se ?s @ [spost (rep m p)]"
      "se_ins se s' = (if wants_payload (c_lib (se_conn se)) (se_pre se (hd fs)) then tl (tl fs) else tl fs)"
    using duplex_iter_packet[OF srv _ assms(3), of ?s "[]" "se_rx se" tx] pk j(3) by metis
  have empty: "se_ins se s' = []" using s'(3) assms(2) by (auto simp: one_packet_def)
  have "packet_waiting se ?s" by (simp add: packet_waiting_def j(3) pk)
  then have "server_turn se j = j\<lparr>sn_tx := Some tx, sn_server := s'\<rparr>"
    by (simp add: server_turn_def j(1,2) s'(1))
  then show ?thesis
    using j(1,4,5) s'(2) empty by (simp add: replied_def)
qed

lemma server_turn_replied: "replied se r j \<Longrightarrow> replied se r (server_turn se j)"
  using server_turn_starved[OF packet_waiting_Nil, of se j] by (simp add: replied_def)

lemma server_turn_keeps [simp]:
  "sn_client (server_turn se j) = sn_client j" "sn_turns (server_turn se j) = sn_turns j"
  by (simp_all add: server_turn_def split: prod.split conn_ctl.split)

lemma make_move_client [simp]: "sn_client (make_move se m j) = sn_client j"
  by (cases m) simp_all

lemma moves_client [simp]: "sn_client (fold (make_move se) ms j) = sn_client j"
  by (induction ms arbitrary: j) simp_all

lemma take_turn_client [simp]: "sn_client (take_turn se j) = sn_client j"
  by (simp add: take_turn_def split: list.split)

lemma waiting_client [simp]: "waiting se fs (j\<lparr>sn_client := w\<rparr>) = waiting se fs j"
  by (simp add: waiting_def)

text \<open>A step of another task changes neither state.\<close>

lemma other_task:
  assumes "\<forall>s. untouched (se_ins se) (se_outs se) s (f s)"
  shows "waiting se fs (make_move se (OtherTask f) j) = waiting se fs j"
    and "replied se r (make_move se (OtherTask f) j) = replied se r j"
  using assms by (simp_all add: waiting_def replied_def untouched_def)

text \<open>An invariant of every single move that makes up an entry is an invariant of the turn.\<close>

lemma take_turn_keeps:
  assumes "I j" and "polite se (sn_turns j)" and "\<And>mss. polite se mss \<Longrightarrow> I (j\<lparr>sn_turns := mss\<rparr>)"
    and "\<And>j. I j \<Longrightarrow> I (server_turn se j)"
    and "\<And>f j. \<forall>s. untouched (se_ins se) (se_outs se) s (f s) \<Longrightarrow> I j \<Longrightarrow> I (make_move se (OtherTask f) j)"
  shows "I (take_turn se j)"
proof (cases "sn_turns j")
  case (Cons ms mss)
  have "\<forall>f. OtherTask f \<in> set ms \<longrightarrow> (\<forall>s. untouched (se_ins se) (se_outs se) s (f s))"
    using assms(2) Cons by (simp add: polite_def)
  then have "I j' \<Longrightarrow> I (fold (make_move se) ms j')" for j'
  proof (induction ms arbitrary: j')
    case (Cons m ms)
    then show ?case using assms(4,5) by (cases m) auto
  qed simp
  moreover have "polite se mss" using assms(2) Cons by (simp add: polite_def)
  ultimately show ?thesis using assms(3)[of mss] Cons by (simp add: take_turn_def)
qed (use assms(1) in \<open>simp add: take_turn_def\<close>)

lemma take_turn_starved:
  assumes "waiting se fs j" and "packets (c_lib (se_conn se)) (map (se_pre se) fs) = []"
  shows "waiting se fs (take_turn se j)"
proof (rule take_turn_keeps[of "waiting se fs"])
  show "waiting se fs j" and "polite se (sn_turns j)" using assms(1) by (simp_all add: waiting_def)
  show "waiting se fs (j\<lparr>sn_turns := mss\<rparr>)" if "polite se mss" for mss
    using assms(1) that by (simp add: waiting_def)
  show "waiting se fs (server_turn se j)" if "waiting se fs j" for j :: "('d, 'c) session"
    using that assms(2) server_turn_starved[of se j] by (simp add: waiting_def packet_waiting_def)
qed (simp add: other_task del: make_move.simps)

lemma take_turn_packet:
  assumes "session_server se spost P rep" and "one_packet se fs m p" and "(m, p) \<in> P" and "waiting se fs j"
  shows "waiting se fs (take_turn se j) \<or> replied se (spost (rep m p)) (take_turn se j)"
proof (rule take_turn_keeps[of "\<lambda>j. waiting se fs j \<or> replied se (spost (rep m p)) j"])
  show "waiting se fs j \<or> replied se (spost (rep m p)) j" and "polite se (sn_turns j)"
    using assms(4) by (simp_all add: waiting_def)
  show "waiting se fs (j\<lparr>sn_turns := mss\<rparr>) \<or> replied se (spost (rep m p)) (j\<lparr>sn_turns := mss\<rparr>)"
    if "polite se mss" for mss
    using assms(4) that by (simp add: waiting_def)
  show "waiting se fs (server_turn se j) \<or> replied se (spost (rep m p)) (server_turn se j)"
    if "waiting se fs j \<or> replied se (spost (rep m p)) j" for j :: "('d, 'c) session"
    using that server_turn_replies[OF assms(1-3)] server_turn_replied by blast
qed (simp add: other_task del: make_move.simps)

lemma client_send_waiting:
  assumes "session_server se spost P rep" and "waiting se fs j"
    and "packets (c_lib (se_conn se)) (map (se_pre se) fs) = []"
  shows "\<exists>j'. client_send se b j = (Ok (), j') \<and> waiting se (fs @ [b]) j' \<and> sn_client j' = sn_client j"
proof -
  let ?j = "take_turn se j"
  have "waiting se fs ?j" by (rule take_turn_starved[OF assms(2,3)])
  then have "waiting se (fs @ [b]) (?j\<lparr>sn_server := se_deliver se b (sn_server ?j)\<rparr>)"
    using assms(1) by (simp add: waiting_def session_server_def)
  then show ?thesis by (simp add: client_send_def Let_def)
qed

lemma await_frame_packet:
  assumes "session_server se spost P rep" and "one_packet se fs m p" and "(m, p) \<in> P"
    and "waiting se fs j \<or> replied se (spost (rep m p)) j" and "n = length (se_ins se (sn_server j))"
  shows "\<exists>j'. await_frame se n j = j' \<and> replied se (spost (rep m p)) j' \<and> sn_client j' = sn_client j"
  using assms(4)
proof
  assume w: "waiting se fs j"
  then obtain k where n: "n = Suc k"
    using assms(2,5) by (auto simp: waiting_def one_packet_def)
  obtain j' where j': "server_turn se j = j'" "replied se (spost (rep m p)) j'" "sn_client j' = sn_client j"
    using server_turn_replies[OF assms(1-3) w] by auto
  have none: "\<not> frame_for_client se j" and "frame_for_client se j'"
    using w j'(2) by (auto simp: frame_for_client_def waiting_def replied_def)
  then have "await_frame se k j' = j'" by (cases k) simp_all
  then show ?thesis using j' none n by simp
next
  assume r: "replied se (spost (rep m p)) j"
  then have "frame_for_client se j" by (auto simp: frame_for_client_def replied_def)
  then have "await_frame se n j = j" by (cases n) simp_all
  then show ?thesis using r by simp
qed

lemma client_next_replies:
  assumes "session_server se spost P rep" and "one_packet se fs m p" and "(m, p) \<in> P" and "waiting se fs j"
  shows "\<exists>j'. client_next se j = (Some (Ok (spost (rep m p))), j') \<and> waiting se [] j' \<and>
     sn_client j' = sn_client j"
proof -
  let ?j = "take_turn se j"
  obtain j' where j': "await_frame se (length (se_ins se (sn_server ?j))) ?j = j'"
      "replied se (spost (rep m p)) j'" "sn_client j' = sn_client ?j"
    using await_frame_packet[OF assms(1-3) take_turn_packet[OF assms] refl] by blast
  then obtain rs where rs: "se_outs se (sn_server j') = rs @ [spost (rep m p)]" "sn_got j' = length rs"
    by (auto simp: replied_def)
  then have "client_next se j = (Some (Ok (spost (rep m p))), j'\<lparr>sn_got := Suc (sn_got j')\<rparr>)"
    by (simp add: client_next_def Let_def j'(1) frame_for_client_def)
  moreover have "waiting se [] (j'\<lparr>sn_got := Suc (sn_got j')\<rparr>)"
    using j'(2) rs by (simp add: waiting_def replied_def)
  ultimately show ?thesis using j'(3) by simp
qed

section \<open>One request\<close>

lemma exchange_session:
  assumes "session_server se spost P rep" and "session_client_side IO K processor rx cpre cpost queue log"
    and "linked L (se_conn se) cpre cpost (se_pre se) spost"
    and "waiting se [] j" and "wants_payload L m" and "(m, d) \<in> P"
  shows "\<exists>j'. exchange (session_io se IO) socket processor m d j = (Ok (rep m d), j') \<and> waiting se [] j' \<and>
     queue (sn_client j') = queue (sn_client j) \<and> log (sn_client j') = log (sn_client j)"
proof -
  note side = client_sideE[OF assms(2)]
  have lib: "c_lib (se_conn se) = L" and undo: "\<And>b. se_pre se (cpost b) = b" "\<And>b. cpre (spost b) = b"
    using assms(3) by (simp_all add: linked_def)
  obtain w1 where w1: "post_process_traffic IO processor m (sn_client j) = (cpost m, w1)"
      "queue w1 = queue (sn_client j)" "log w1 = log (sn_client j)"
    using side(2) by blast
  obtain w2 where w2: "post_process_traffic IO processor d w1 = (cpost d, w2)" "queue w2 = queue w1" "log w2 = log w1"
    using side(2) by blast
  let ?j2 = "j\<lparr>sn_client := w1\<rparr>\<lparr>sn_client := w2\<rparr>"
  obtain j3 where j3: "client_send se (cpost m) ?j2 = (Ok (), j3)" "waiting se [cpost m] j3" "sn_client j3 = w2"
    using client_send_waiting[OF assms(1), of "[]" ?j2 "cpost m"] assms(4) by auto
  obtain j4 where j4: "client_send se (cpost d) j3 = (Ok (), j4)" "waiting se [cpost m, cpost d] j4" "sn_client j4 = w2"
    using client_send_waiting[OF assms(1) j3(2), of "cpost d"] j3(3) assms(5) lib undo by auto
  have "one_packet se [cpost m, cpost d] m d"
    using assms(5) lib undo by (simp add: one_packet_def)
  then obtain j5 where j5: "client_next se j4 = (Some (Ok (spost (rep m d))), j5)" "waiting se [] j5" "sn_client j5 = w2"
    using client_next_replies[OF assms(1) _ assms(6) j4(2)] j4(3) by auto
  obtain w6 where w6: "pre_process_traffic IO processor (spost (rep m d)) w2 = (rep m d, w6)"
      "queue w6 = queue w2" "log w6 = log w2"
    using side(1)[of "spost (rep m d)" w2] undo by auto
  show ?thesis
    using w1 w2 j3 j4 j5 w6
    by (simp add: exchange_def on_client_def wait_for_data_def)
qed

lemma ask_session:
  assumes "session_server se spost P rep" and "session_client_side IO K processor rx cpre cpost queue log"
    and "linked L (se_conn se) cpre cpost (se_pre se) spost"
    and "waiting se [] j" and "to_bytes_HandlerMetaReq L \<lparr>hmr_s_type = ST_HandlerMetaReq, handler_name = nm\<rparr> = Some b"
    and "(b, []) \<in> P"
  shows "\<exists>j'. request_route_from_server L (session_io se IO) nm socket processor j =
       (case access_HandlerMetaAns L (rep b []) of Ok a \<Rightarrow> Ok (hma_id a) | Err e \<Rightarrow> Err (RE_Protocol e), j') \<and>
     waiting se [] j' \<and> queue (sn_client j') = queue (sn_client j) \<and> log (sn_client j') = log (sn_client j)"
proof -
  note side = client_sideE[OF assms(2)]
  have wire: "wire_laws L" and lib: "c_lib (se_conn se) = L"
    and undo: "\<And>b. se_pre se (cpost b) = b" "\<And>b. cpre (spost b) = b"
    using assms(3) by (simp_all add: linked_def)
  obtain w1 where w1: "post_process_traffic IO processor b (sn_client j) = (cpost b, w1)"
      "queue w1 = queue (sn_client j)" "log w1 = log (sn_client j)"
    using side(2) by blast
  obtain j2 where j2: "client_send se (cpost b) (j\<lparr>sn_client := w1\<rparr>) = (Ok (), j2)" "waiting se [cpost b] j2"
      "sn_client j2 = w1"
    using client_send_waiting[OF assms(1), of "[]" "j\<lparr>sn_client := w1\<rparr>" "cpost b"] assms(4) by auto
  have "one_packet se [cpost b] b []"
    using name_request_bytes(3)[OF wire assms(5)] lib undo by (simp add: one_packet_def)
  then obtain j3 where j3: "client_next se j2 = (Some (Ok (spost (rep b []))), j3)" "waiting se [] j3" "sn_client j3 = w1"
    using client_next_replies[OF assms(1) _ assms(6) j2(2)] j2(3) by auto
  obtain w4 where "pre_process_traffic IO processor (spost (rep b [])) w1 = (rep b [], w4)"
      "queue w4 = queue w1" "log w4 = log w1"
    using side(1)[of "spost (rep b [])" w1] undo by auto
  then show ?thesis
    using w1 j2 j3 assms(5)
    by (simp add: request_route_from_server_def on_client_def wait_for_data_def split: result.split)
qed

text \<open>
  The handler a request is meant for: the id it carries, or that of the latest registration with the
  name it carries.
\<close>

definition intended :: "('st, 'w) registration list \<Rightarrow> 'st client_request \<Rightarrow> u64 option" where
  "intended regs q =
     (case hi_id (dr_handler_info (req q)) of
        Some i \<Rightarrow> Some i
      | None \<Rightarrow> Option.bind (hi_named (dr_handler_info (req q))) (spec_name 0 regs))"

text \<open>The client's table holds only what the server would answer.\<close>

definition table_agrees :: "('st, 'w) registration list \<Rightarrow> target_router \<Rightarrow> bool" where
  "table_agrees regs tr \<longleftrightarrow> (\<forall>nm i. lookup_route tr nm = Some i \<longrightarrow> spec_name 0 regs nm = Some i)"

text \<open>The server's router and the packets its handlers are known to answer.\<close>

definition session_router ::
  "('st, 'tc) s_type_lib \<Rightarrow> ('st, 'tc, 's) server_end \<Rightarrow> ('st, 's) registration list \<Rightarrow> (bytes \<times> bytes) set
     \<Rightarrow> 'st client_request list \<Rightarrow> bool" where
  "session_router L se regs P qs \<longleftrightarrow>
     (\<exists>u. c_router (se_conn se) = build_router L u regs) \<and>
     (\<forall>nm b. to_bytes_HandlerMetaReq L \<lparr>hmr_s_type = ST_HandlerMetaReq, handler_name = nm\<rparr> = Some b \<longrightarrow> (b, []) \<in> P) \<and>
     (\<forall>q \<in> set qs. \<forall>i. intended regs q = Some i \<longrightarrow> (meta_of L q i, dr_data (req q)) \<in> P)"

lemma unknown_name_reply:
  assumes "answering c sins souts P rep" and "c_lib c = L" and "c_router c = build_router L u regs"
    and "wire_laws L" and "spec_name 0 regs nm = None"
    and "to_bytes_HandlerMetaReq L \<lparr>hmr_s_type = ST_HandlerMetaReq, handler_name = nm\<rparr> = Some b"
    and "(b, []) \<in> P"
  shows "\<exists>e. access_HandlerMetaAns L (rep b []) = Err e"
proof -
  obtain e where b: "access_HandlerMetaReq L b = Ok \<lparr>hmr_s_type = ST_HandlerMetaReq, handler_name = nm\<rparr>"
      "access_PacketMeta L b = Err e"
    using name_request_bytes[OF assms(4,6)] by blast
  obtain eb x where eb: "to_bytes_ServerError L (ServerError (NoSuchHandler None)) = Some eb"
      "access_HandlerMetaAns L eb = Err x"
    by (rule wire_ServerErrorE[OF assms(4)])
  have "serve_packet (c_lib c) (c_router c) b [] (c_addr c, None) w =
      (Returned (Err (ServerError (NoSuchHandler None)), None), w)" for w
    by (simp add: serve_packet_def assms(2,3) b names_build_router assms(5))
  moreover obtain res w w1 where
      "serve_packet (c_lib c) (c_router c) b [] (c_addr c, None) w = (Returned (res, None), w1)"
      "(case res of Ok b \<Rightarrow> Some b | Err e \<Rightarrow> to_bytes_ServerError (c_lib c) e) = Some (rep b [])"
    using answeringD[OF assms(1,7)] by metis
  ultimately show ?thesis
    using eb assms(2) by auto
qed

lemma ask_answer:
  assumes "session_server se spost P rep" and "linked L (se_conn se) cpre cpost (se_pre se) spost"
    and "session_router L se regs P qs"
    and "to_bytes_HandlerMetaReq L \<lparr>hmr_s_type = ST_HandlerMetaReq, handler_name = nm\<rparr> = Some b"
  shows "case spec_name 0 regs nm of
     Some i \<Rightarrow> access_HandlerMetaAns L (rep b []) = Ok \<lparr>hma_s_type = ST_HandlerMetaAns, hma_id = i\<rparr>
   | None \<Rightarrow> \<exists>e. access_HandlerMetaAns L (rep b []) = Err e"
proof -
  obtain u where router: "c_router (se_conn se) = build_router L u regs" and b: "(b, []) \<in> P"
    using assms(3,4) by (auto simp: session_router_def)
  have ans: "answering (se_conn se) (se_ins se) (se_outs se) P rep" and wire: "wire_laws L"
    and lib: "c_lib (se_conn se) = L"
    using assms(1,2) by (simp_all add: session_server_def linked_def)
  show ?thesis
    using name_reply[OF ans lib router wire _ assms(4) b] unknown_name_reply[OF ans lib router wire _ assms(4) b]
    by (simp split: option.split)
qed

lemma resolve_session:
  assumes "session_server se spost P rep" and "session_client_side IO K processor rx cpre cpost queue log"
    and "linked L (se_conn se) cpre cpost (se_pre se) spost" and "session_router L se regs P qs"
    and "waiting se [] j" and "table_agrees regs tr"
  shows "\<exists>r tr' j'. resolve_handler L (session_io se IO) (session_client se K) socket processor
       (dr_handler_info (req q)) tr j = (r, tr', j') \<and>
     (case intended regs q of Some i \<Rightarrow> r = Ok i | None \<Rightarrow> \<exists>e. r = Err e) \<and> table_agrees regs tr' \<and>
     waiting se [] j' \<and> queue (sn_client j') = queue (sn_client j) \<and> log (sn_client j') = log (sn_client j)"
proof -
  let ?h = "dr_handler_info (req q)"
  consider i where "hi_id ?h = Some i" | "hi_id ?h = None" "hi_named ?h = None"
    | nm i where "hi_id ?h = None" "hi_named ?h = Some nm" "lookup_route tr nm = Some i"
    | nm where "hi_id ?h = None" "hi_named ?h = Some nm" "lookup_route tr nm = None"
    by (cases "hi_id ?h"; cases "hi_named ?h") auto
  then show ?thesis
  proof cases
    case (3 nm i)
    then have "spec_name 0 regs nm = Some i" using assms(6) by (simp add: table_agrees_def)
    then show ?thesis
      using 3 assms(5,6) by (simp add: resolve_handler_def request_route_def handler_info_id_def intended_def)
  next
    case (4 nm)
    have wire: "wire_laws L" using assms(3) by (simp add: linked_def)
    obtain b where b: "to_bytes_HandlerMetaReq L \<lparr>hmr_s_type = ST_HandlerMetaReq, handler_name = nm\<rparr> = Some b"
      using wire_HandlerMetaReqE[OF wire] by (metis handler_meta_req.select_convs(1))
    then have "(b, []) \<in> P" using assms(4) by (simp add: session_router_def)
    from ask_session[OF assms(1-3,5) b this, of socket] obtain j' where j':
        "request_route_from_server L (session_io se IO) nm socket processor j =
           (case access_HandlerMetaAns L (rep b []) of Ok a \<Rightarrow> Ok (hma_id a) | Err e \<Rightarrow> Err (RE_Protocol e), j')"
        "waiting se [] j'" "queue (sn_client j') = queue (sn_client j)" "log (sn_client j') = log (sn_client j)"
      by blast
    then show ?thesis
      using 4 assms(6) ask_answer[OF assms(1,3,4) b]
      by (cases "spec_name 0 regs nm")
         (auto simp: resolve_handler_def request_route_def handler_info_id_def intended_def
            table_agrees_def lookup_route_def std_map.get_ins split: if_splits)
  qed (use assms(5,6) in \<open>simp_all add: resolve_handler_def handler_info_id_def intended_def\<close>)
qed

lemma process_request_session:
  assumes "session_server se spost P rep" and "session_client_side IO K processor rx cpre cpost queue log"
    and "linked L (se_conn se) cpre cpost (se_pre se) spost" and "session_router L se regs P qs"
    and "waiting se [] j" and "table_agrees regs tr" and "q \<in> set qs" and "dr_data (req q) \<noteq> []"
  shows "\<exists>r tr' j'. process_request L (session_io se IO) (session_client se K) socket processor q tr j = (r, tr', j') \<and>
     table_agrees regs tr' \<and> waiting se [] j' \<and> queue (sn_client j') = queue (sn_client j) \<and>
     log (sn_client j') = log (sn_client j) @
       [(consumer q, map_option (\<lambda>i. rep (meta_of L q i) (dr_data (req q))) (intended regs q))]"
proof -
  note side = client_sideE[OF assms(2)]
  have wire: "wire_laws L" using assms(3) by (simp add: linked_def)
  obtain r tr' j1 where 1: "resolve_handler L (session_io se IO) (session_client se K) socket processor
        (dr_handler_info (req q)) tr j = (r, tr', j1)"
      "case intended regs q of Some i \<Rightarrow> r = Ok i | None \<Rightarrow> \<exists>e. r = Err e" "table_agrees regs tr'"
      "waiting se [] j1" "queue (sn_client j1) = queue (sn_client j)" "log (sn_client j1) = log (sn_client j)"
    using resolve_session[OF assms(1-6)] by blast
  show ?thesis
  proof (cases "intended regs q")
    case None
    then show ?thesis
      using 1 side(4)[of "consumer q" "sn_client j1"] by (auto simp: process_request_def)
  next
    case (Some i)
    have "(meta_of L q i, dr_data (req q)) \<in> P" using assms(4,7) Some by (simp add: session_router_def)
    moreover have "wants_payload L (meta_of L q i)" using assms(8) by (simp add: wants_payload_meta[OF wire])
    ultimately obtain j2 where 2: "exchange (session_io se IO) socket processor (meta_of L q i) (dr_data (req q)) j1 =
          (Ok (rep (meta_of L q i) (dr_data (req q))), j2)"
        "waiting se [] j2" "queue (sn_client j2) = queue (sn_client j1)" "log (sn_client j2) = log (sn_client j1)"
      using exchange_session[OF assms(1-3) 1(4)] by blast
    obtain v w3 where "consumer_send K (consumer q) (rep (meta_of L q i) (dr_data (req q))) (sn_client j2) = (v, w3)"
        "queue w3 = queue (sn_client j2)"
        "log w3 = log (sn_client j2) @ [(consumer q, Some (rep (meta_of L q i) (dr_data (req q))))]"
      using side(3) by blast
    then show ?thesis
      using 1 2 Some meta_of_access(1)[OF wire, of q i] by (simp add: process_request_def on_client_def)
  qed
qed

section \<open>The whole queue\<close>

text \<open>What each caller is owed.\<close>

definition owed ::
  "('st, 'tc) s_type_lib \<Rightarrow> ('st, 'w) registration list \<Rightarrow> (bytes \<Rightarrow> bytes \<Rightarrow> bytes) \<Rightarrow> 'st client_request
     \<Rightarrow> sender \<times> bytes option" where
  "owed L regs rep q =
     (consumer q, map_option (\<lambda>i. rep (meta_of L q i) (dr_data (req q))) (intended regs q))"

lemma client_task_session:
  assumes "session_server se spost P rep" and "session_client_side IO K processor rx cpre cpost queue log"
    and "linked L (se_conn se) cpre cpost (se_pre se) spost" and "session_router L se regs P qs"
    and "\<forall>q \<in> set qs. dr_data (req q) \<noteq> []"
  shows "queue (sn_client j) = qs' \<Longrightarrow> set qs' \<subseteq> set qs \<Longrightarrow> waiting se [] j \<Longrightarrow> table_agrees regs tr \<Longrightarrow>
     \<exists>tr' j'. client_task L (session_io se IO) (session_client se K) socket processor rx tr j = Some (tr', j') \<and>
       waiting se [] j' \<and> table_agrees regs tr' \<and>
       log (sn_client j') = log (sn_client j) @ map (owed L regs rep) qs'"
proof (induction qs' arbitrary: j tr)
  case Nil
  then obtain w' where "mpsc_recv K rx (sn_client j) = (None, w')" "log w' = log (sn_client j)"
    using client_sideE(5)[OF assms(2)] by blast
  then show ?case
    using Nil.prems take_turn_starved[OF Nil.prems(3)] by (simp add: client_task.simps on_client_def)
next
  case (Cons q qs')
  let ?j1 = "take_turn se j"
  obtain w1 where w1: "mpsc_recv K rx (sn_client j) = (Some q, w1)" "queue w1 = qs'" "log w1 = log (sn_client j)"
    using client_sideE(6)[OF assms(2) Cons.prems(1)] by blast
  let ?j2 = "?j1\<lparr>sn_client := w1\<rparr>"
  have "waiting se [] ?j2" using take_turn_starved[OF Cons.prems(3)] by simp
  from process_request_session[OF assms(1-4) this Cons.prems(4), of q socket] obtain r tr' j3 where 3:
      "process_request L (session_io se IO) (session_client se K) socket processor q tr ?j2 = (r, tr', j3)"
      "table_agrees regs tr'" "waiting se [] j3" "queue (sn_client j3) = qs'"
      "log (sn_client j3) = log (sn_client j) @ [owed L regs rep q]"
    using Cons.prems(2) assms(5) w1 by (auto simp: owed_def)
  have "client_task L (session_io se IO) (session_client se K) socket processor rx tr j =
      client_task L (session_io se IO) (session_client se K) socket processor rx tr' j3"
    by (subst client_task.simps) (simp add: on_client_def w1 3)
  then show ?case
    using Cons.IH[OF 3(4) _ 3(3,2)] Cons.prems(2) 3(5) by simp
qed

text \<open>
  The start of a session: the connection task has made its channel, nothing has been sent yet, and the
  client's table is empty.
\<close>

definition session_start ::
  "('st, 'tc, 's) server_end \<Rightarrow> sender \<Rightarrow> 'w \<Rightarrow> 's \<Rightarrow> 's move list list \<Rightarrow> ('w, 's) session" where
  "session_start se tx w s turns =
     \<lparr>sn_client = w, sn_server = s, sn_tx = Some tx, sn_exit = None,
      sn_got = length (se_outs se s), sn_turns = turns\<rparr>"

lemma session_answers:
  assumes "session_server se spost P rep" and "session_client_side IO K processor rx cpre cpost queue log"
    and "linked L (se_conn se) cpre cpost (se_pre se) spost" and "session_router L se regs P (queue w)"
    and "\<forall>q \<in> set (queue w). dr_data (req q) \<noteq> []"
    and "oneshot_channel (c_handoff (se_conn se)) s0 = ((tx, se_rx se), s)" and "se_ins se s0 = []"
    and "polite se turns"
  shows "\<exists>tr' j'. client_task L (session_io se IO) (session_client se K) socket processor rx target_router_new
       (session_start se tx w s turns) = Some (tr', j') \<and>
     log (sn_client j') = log w @
       map (owed L regs rep) (queue w) \<and>
     sn_exit j' = None \<and> se_ins se (sn_server j') = [] \<and> sn_got j' = length (se_outs se (sn_server j'))"
proof -
  have "untouched (se_ins se) (se_outs se) s0 s"
    using assms(1,6) unfolding session_server_def duplex_def by (metis snd_conv)
  then have "waiting se [] (session_start se tx w s turns)"
    using assms(7,8) by (simp add: waiting_def session_start_def untouched_def)
  moreover have "table_agrees regs target_router_new"
    by (simp add: table_agrees_def lookup_route_def target_router_new_def)
  ultimately obtain tr' j' where
      "client_task L (session_io se IO) (session_client se K) socket processor rx target_router_new
         (session_start se tx w s turns) = Some (tr', j')"
      "waiting se [] j'" "log (sn_client j') = log w @ map (owed L regs rep) (queue w)"
    using client_task_session[OF assms(1-5), of "session_start se tx w s turns" "queue w" target_router_new socket]
    by (auto simp: session_start_def)
  then show ?thesis
    by (auto simp: waiting_def)
qed

text \<open>
  C1. Client and server running concurrently over a reliable link, among other tasks of the server that
  do whatever they do to the rest of the world, for every schedule: the client's
  task works its whole queue and ends, each caller gets the server's reply to its own request, dispatched
  under the id it gave or under the id of the latest registration with the name it gave, and a caller
  whose handler does not exist is told so by a dropped channel without disturbing the others.  Ids,
  known names, new names and unknown names may be mixed; every request carries some data.
\<close>

theorem concurrent_session_answers_all:
  assumes "session_server se spost P rep" and "session_client_side IO K processor rx cpre cpost queue log"
    and "linked L (se_conn se) cpre cpost (se_pre se) spost" and "session_router L se regs P (queue w)"
    and "\<forall>q \<in> set (queue w). dr_data (req q) \<noteq> []"
    and "oneshot_channel (c_handoff (se_conn se)) s0 = ((tx, se_rx se), s)" and "se_ins se s0 = []"
    and "polite se turns"
  shows "\<exists>tr' j'. client_task L (session_io se IO) (session_client se K) socket processor rx target_router_new
       (session_start se tx w s turns) = Some (tr', j') \<and>
     log (sn_client j') = log w @
       map (\<lambda>q. (consumer q, map_option (\<lambda>i. rep (meta_of L q i) (dr_data (req q))) (intended regs q))) (queue w) \<and>
     sn_exit j' = None \<and> se_ins se (sn_server j') = [] \<and> sn_got j' = length (se_outs se (sn_server j'))"
  using session_answers[OF assms] by (simp add: owed_def[abs_def])

section \<open>Example\<close>

definition sample_end :: "(u64, u64, qworld) server_end" where
  "sample_end = \<lparr>se_conn = sample_conn echo_regs, se_rx = 1, se_ins = q_in, se_outs = q_out, se_pre = \<lambda>b. b,
     se_deliver = \<lambda>b s. s\<lparr>q_in := q_in s @ [b]\<rparr>\<rparr>"

lemma sample_end_simps [simp]:
  "se_conn sample_end = sample_conn echo_regs" "se_rx sample_end = 1" "se_ins sample_end = q_in"
  "se_outs sample_end = q_out" "se_pre sample_end = (\<lambda>b. b)"
  by (simp_all add: sample_end_def)

lemma sample_session_server: "session_server sample_end (\<lambda>b. b) UNIV sample_rep"
  using sample_duplex[of echo_regs] sample_answering[of UNIV]
  by (simp add: session_server_def) (simp add: sample_end_def)

lemma sample_session_client:
  "session_client_side queue_io sample_client_io 0 0 (\<lambda>b. b) (\<lambda>b. b) cw_queue cw_log"
  by (auto simp: session_client_side_def untouched_def sample_client_io_def split: list.splits)

definition lost_request :: "u64 client_request" where
  "lost_request =
     \<lparr>req = \<lparr>dr_handler_info = handler_info_new_named ''NOBODY'', dr_data = [1], dr_s_type = 0\<rparr>, consumer = 8\<rparr>"

definition mixed_queue :: "u64 client_request list" where
  "mixed_queue = [sample_named, lost_request, sample_request 4 [5]]"

lemma mixed_queue_intended:
  "map (intended echo_regs) mixed_queue = [Some 0, None, Some 0]"
  by (simp add: mixed_queue_def lost_request_def intended_def sample_request_def handler_info_new_named_def
        handler_info_new_id_def)

text \<open>A schedule in which another task closes its own stream between the turns of the server.\<close>

definition busy_schedule :: "qworld move list list" where
  "busy_schedule = [[], [ServerTurn, OtherTask (\<lambda>s. s\<lparr>q_closed := True\<rparr>), ServerTurn], [], [ServerTurn], [OtherTask (\<lambda>s. s)]]"

lemma busy_polite: "polite sample_end busy_schedule"
  by (auto simp: polite_def busy_schedule_def untouched_def)

theorem concurrent_session_answers_all_witness:
  "\<exists>tr' j'. client_task sample_lib (session_io sample_end queue_io) (session_client sample_end sample_client_io) 0 0 0
       target_router_new (session_start sample_end 1 (sample_cworld [] mixed_queue) fresh_world busy_schedule) =
       Some (tr', j') \<and>
     cw_log (sn_client j') = [(9, Some [7]), (8, None), (4, Some [5])]"
proof -
  let ?w = "sample_cworld [] mixed_queue"
  have q: "cw_queue ?w = mixed_queue" by (simp add: sample_cworld_def)
  have router: "session_router sample_lib sample_end echo_regs UNIV (cw_queue ?w)"
    by (auto simp: session_router_def)
  have data: "\<forall>q \<in> set (cw_queue ?w). dr_data (req q) \<noteq> []"
    unfolding q by (simp add: mixed_queue_def lost_request_def)
  have lk: "linked sample_lib (se_conn sample_end) (\<lambda>b. b) (\<lambda>b. b) (se_pre sample_end) (\<lambda>b. b)"
    using sample_linked by simp
  have ch: "oneshot_channel (c_handoff (se_conn sample_end)) fresh_world = ((1, se_rx sample_end), fresh_world)"
    by simp
  obtain tr' j' where "client_task sample_lib (session_io sample_end queue_io) (session_client sample_end sample_client_io) 0 0 0
       target_router_new (session_start sample_end 1 ?w fresh_world busy_schedule) = Some (tr', j')"
     "cw_log (sn_client j') = cw_log ?w @ map (\<lambda>q. (consumer q, map_option (\<lambda>i. sample_rep (meta_of sample_lib q i)
        (dr_data (req q))) (intended echo_regs q))) (cw_queue ?w)"
    using concurrent_session_answers_all[OF sample_session_server sample_session_client lk router data ch _ busy_polite, of 0]
    by auto
  moreover have "map (\<lambda>q. (consumer q, map_option (\<lambda>i. sample_rep (meta_of sample_lib q i)
      (dr_data (req q))) (intended echo_regs q))) mixed_queue = [(9, Some [7]), (8, None), (4, Some [5])]"
    using mixed_queue_intended by (simp add: mixed_queue_def sample_rep_echo) (simp add: lost_request_def)
  ultimately show ?thesis by (simp add: q) (simp add: sample_cworld_def)
qed

end
