(* ===== verification/Std_Text.thy ===== *)
theory Std_Text
  imports Prelude "HOL-Library.Sublist"
begin

text \<open>
  The parts of Rust's standard text library that the benchmark programs use:
  \<^verbatim>\<open>str::strip_prefix\<close>, \<^verbatim>\<open>split_whitespace\<close>, \<^verbatim>\<open>lines\<close>,
  \<^verbatim>\<open>rfind\<close> with a slice after the match, \<^verbatim>\<open>parse\<close> and
  \<^verbatim>\<open>to_string\<close> of unsigned integers.  A string is the list of its characters, with
  code points below 256; a character from 128 on takes two bytes in UTF-8, which matters only
  for slices by byte index.
\<close>

section \<open>Prefixes and whitespace\<close>

definition strip_prefix :: "string \<Rightarrow> string \<Rightarrow> string option" where
  "strip_prefix p s = (if prefix p s then Some (drop (length p) s) else None)"

lemma strip_prefix_append [simp]: "strip_prefix p (p @ s) = Some s"
  by (simp add: strip_prefix_def)

lemma strip_prefix_None_iff: "strip_prefix p s = None \<longleftrightarrow> \<not> prefix p s"
  by (simp add: strip_prefix_def)

lemma strip_prefix_Some_iff: "strip_prefix p s = Some v \<longleftrightarrow> s = p @ v"
  by (auto simp: strip_prefix_def prefix_def)

definition is_ws :: "char \<Rightarrow> bool" where
  "is_ws c = (let n = of_char c :: nat in (9 \<le> n \<and> n \<le> 13) \<or> n = 32 \<or> n = 133 \<or> n = 160)"

lemma is_ws_space [simp]: "is_ws CHR '' ''"
  by (simp add: is_ws_def)

lemma is_ws_newline [simp]: "is_ws CHR 0x0A"
  by (simp add: is_ws_def)

lemma is_ws_tab [simp]: "is_ws CHR 0x09"
  by (simp add: is_ws_def)

function split_whitespace :: "string \<Rightarrow> string list" where
  "split_whitespace s =
     (let s' = dropWhile is_ws s
      in if s' = [] then []
         else takeWhile (\<lambda>c. \<not> is_ws c) s' # split_whitespace (dropWhile (\<lambda>c. \<not> is_ws c) s'))"
  by pat_completeness auto
termination
proof (relation "measure length", goal_cases)
  case (2 s s')
  then obtain c cs where "s' = c # cs" "\<not> is_ws c"
    by (metis hd_dropWhile neq_Nil_conv list.sel(1))
  moreover have "length s' \<le> length s"
    using 2(1) by (simp add: length_dropWhile_le)
  moreover have "length (dropWhile (\<lambda>c. \<not> is_ws c) cs) \<le> length cs"
    by (rule length_dropWhile_le)
  ultimately show ?case by simp
qed simp

declare split_whitespace.simps [simp del]

text \<open>A token: not empty, no whitespace.\<close>

definition is_token :: "string \<Rightarrow> bool" where
  "is_token t \<longleftrightarrow> t \<noteq> [] \<and> (\<forall>c\<in>set t. \<not> is_ws c)"

lemma split_whitespace_Nil [simp]: "split_whitespace [] = []"
  by (simp add: split_whitespace.simps)

lemma split_whitespace_skip [simp]: "is_ws c \<Longrightarrow> split_whitespace (c # s) = split_whitespace s"
  by (subst (1 2) split_whitespace.simps) simp

lemma split_whitespace_skip_all:
  "\<forall>c\<in>set gap. is_ws c \<Longrightarrow> split_whitespace (gap @ s) = split_whitespace s"
  by (induction gap) simp_all

lemma token_scan:
  assumes "is_token t"
  shows "dropWhile is_ws (t @ s) = t @ s"
    and "takeWhile (\<lambda>c. \<not> is_ws c) (t @ s) = t @ takeWhile (\<lambda>c. \<not> is_ws c) s"
    and "dropWhile (\<lambda>c. \<not> is_ws c) (t @ s) = dropWhile (\<lambda>c. \<not> is_ws c) s"
    and "t @ s \<noteq> []"
proof -
  obtain c cs where "t = c # cs" "\<not> is_ws c"
    using assms unfolding is_token_def by (metis list.set_intros(1) neq_Nil_conv)
  then show "dropWhile is_ws (t @ s) = t @ s" and "t @ s \<noteq> []" by simp_all
qed (use assms in \<open>auto simp: is_token_def\<close>)

lemma split_whitespace_token_last:
  assumes "is_token t"
  shows "split_whitespace t = [t]"
proof -
  have "dropWhile (\<lambda>c. \<not> is_ws c) t = []" using assms by (simp add: is_token_def)
  then show ?thesis
    using token_scan(1,2,4)[OF assms, of "[]"]
    by (subst split_whitespace.simps) (simp add: Let_def del: dropWhile_eq_Nil_conv)
qed

lemma split_whitespace_token:
  assumes "is_token t" and "is_ws c"
  shows "split_whitespace (t @ c # s) = t # split_whitespace s"
proof -
  have "split_whitespace (t @ c # s) = t # split_whitespace (c # s)"
    using assms(2) by (subst split_whitespace.simps) (simp add: token_scan[OF assms(1)] Let_def)
  then show ?thesis using assms(2) by simp
qed

text \<open>Tokens joined by single spaces.\<close>

fun spaced :: "string list \<Rightarrow> string" where
  "spaced [] = []"
| "spaced [t] = t"
| "spaced (t # ts) = t @ CHR '' '' # spaced ts"

lemma split_whitespace_spaced:
  assumes "\<forall>t\<in>set ts. is_token t"
  shows "split_whitespace (spaced ts) = ts"
  using assms by (induction ts rule: spaced.induct)
    (simp_all add: split_whitespace_token split_whitespace_token_last)

lemma split_whitespace_spaced_end:
  assumes "\<forall>t\<in>set ts. is_token t" and "is_ws c"
  shows "split_whitespace (spaced ts @ [c]) = ts"
  using assms by (induction ts rule: spaced.induct) (simp_all add: split_whitespace_token)

section \<open>Lines\<close>

definition strip_cr :: "string \<Rightarrow> string" where
  "strip_cr l = (if l \<noteq> [] \<and> last l = CHR 0x0D then butlast l else l)"

function lines :: "string \<Rightarrow> string list" where
  "lines s =
     (if s = [] then []
      else let l = takeWhile (\<lambda>c. c \<noteq> CHR 0x0A) s
           in case drop (length l) s of
                [] \<Rightarrow> [l]
              | _ # r \<Rightarrow> strip_cr l # lines r)"
  by pat_completeness auto
termination
  by (relation "measure length") (auto dest: arg_cong[where f = length])

declare lines.simps [simp del]

lemma lines_Nil [simp]: "lines [] = []"
  by (simp add: lines.simps)

lemma lines_newline:
  assumes "CHR 0x0A \<notin> set l"
  shows "lines (l @ CHR 0x0A # s) = strip_cr l # lines s"
proof -
  have "takeWhile (\<lambda>c. c \<noteq> CHR 0x0A) (l @ CHR 0x0A # s) = l"
    using assms by (induction l) auto
  then show ?thesis by (subst lines.simps) simp
qed

lemma lines_concat:
  assumes "\<forall>l\<in>set ls. CHR 0x0A \<notin> set l"
  shows "lines (concat (map (\<lambda>l. l @ [CHR 0x0A]) ls) @ s) = map strip_cr ls @ lines s"
  using assms by (induction ls) (simp_all add: lines_newline)

section \<open>The text after the last occurrence of a character\<close>

text \<open>
  \<^verbatim>\<open>s.rfind(c)\<close> and then \<^verbatim>\<open>s.get(i + 2..)\<close>, for an ASCII character
  \<^verbatim>\<open>c\<close>: the slice exists when the byte after the match is a whole character.
\<close>

definition rfind :: "char \<Rightarrow> string \<Rightarrow> nat option" where
  "rfind c s = (if c \<in> set s then Some (length s - 1 - length (takeWhile (\<lambda>d. d \<noteq> c) (rev s))) else None)"

definition slice_after :: "nat \<Rightarrow> string \<Rightarrow> string option" where
  "slice_after i s =
     (case drop (i + 1) s of
        [] \<Rightarrow> None
      | d # rest \<Rightarrow> if (of_char d :: nat) < 128 then Some rest else None)"

lemma rfind_append:
  assumes "c \<notin> set t"
  shows "rfind c (s @ c # t) = Some (length s)"
proof -
  have "takeWhile (\<lambda>d. d \<noteq> c) (rev (s @ c # t)) = rev t"
    using assms by (simp add: takeWhile_append)
  then show ?thesis by (simp add: rfind_def)
qed

lemma slice_after_append:
  "(of_char d :: nat) < 128 \<Longrightarrow> slice_after (length s) (s @ c # d # t) = Some t"
  by (simp add: slice_after_def)

section \<open>Unsigned integers\<close>

definition digit_char :: "nat \<Rightarrow> char" where
  "digit_char d = char_of (48 + d)"

definition digit_val :: "char \<Rightarrow> nat option" where
  "digit_val c = (let n = of_char c in if 48 \<le> n \<and> n \<le> 57 then Some (n - 48) else None)"

fun show_nat :: "nat \<Rightarrow> string" where
  "show_nat n = (if n < 10 then [digit_char n] else show_nat (n div 10) @ [digit_char (n mod 10)])"

declare show_nat.simps [simp del]

text \<open>\<open>from_str\<close> of an unsigned type with the given largest value, errors as \<open>None\<close>.\<close>

fun parse_digits :: "nat \<Rightarrow> nat \<Rightarrow> string \<Rightarrow> nat option" where
  "parse_digits mx acc [] = Some acc"
| "parse_digits mx acc (c # cs) =
     (case digit_val c of
        None \<Rightarrow> None
      | Some d \<Rightarrow> if mx < acc * 10 + d then None else parse_digits mx (acc * 10 + d) cs)"

definition parse_uint :: "nat \<Rightarrow> string \<Rightarrow> nat option" where
  "parse_uint mx s =
     (case s of
        [] \<Rightarrow> None
      | c # cs \<Rightarrow>
          if c = CHR ''+'' then (if cs = [] then None else parse_digits mx 0 cs)
          else parse_digits mx 0 s)"

definition parse_u16 :: "string \<Rightarrow> u16 option" where
  "parse_u16 s = map_option of_nat (parse_uint (2 ^ 16 - 1) s)"

definition parse_u64 :: "string \<Rightarrow> u64 option" where
  "parse_u64 s = map_option of_nat (parse_uint (2 ^ 64 - 1) s)"

definition show_u16 :: "u16 \<Rightarrow> string" where
  "show_u16 x = show_nat (unat x)"

definition show_u64 :: "u64 \<Rightarrow> string" where
  "show_u64 x = show_nat (unat x)"

lemma of_char_digit: "d < 10 \<Longrightarrow> of_char (digit_char d) = 48 + d"
  unfolding digit_char_def by (simp add: of_char_of)

lemma digit_val_char [simp]: "d < 10 \<Longrightarrow> digit_val (digit_char d) = Some d"
  by (simp add: digit_val_def of_char_digit)

lemma digit_char_not_ws: "d < 10 \<Longrightarrow> \<not> is_ws (digit_char d)"
  by (simp add: is_ws_def of_char_digit)

lemma parse_digits_append:
  "parse_digits mx acc (xs @ ys) = Option.bind (parse_digits mx acc xs) (\<lambda>a. parse_digits mx a ys)"
  by (induction xs arbitrary: acc) (auto split: option.splits)

lemma show_nat_chars: "c \<in> set (show_nat n) \<Longrightarrow> \<exists>d<10. c = digit_char d"
proof (induction n rule: show_nat.induct)
  case (1 n)
  show ?case
  proof (cases "n < 10")
    case True
    then show ?thesis using 1(2) by (auto simp: show_nat.simps)
  next
    case False
    then show ?thesis
      using 1 by (subst (asm) (2) show_nat.simps) (auto intro: exI[of _ "n mod 10"])
  qed
qed

lemma not_digit_not_in_show:
  assumes "(of_char c :: nat) < 48 \<or> 57 < (of_char c :: nat)"
  shows "c \<notin> set (show_u64 x)"
  using assms show_nat_chars[of c "unat x"] of_char_digit unfolding show_u64_def by fastforce

lemma show_nat_not_Nil [simp]: "show_nat n \<noteq> []"
  by (subst show_nat.simps) simp

lemma is_token_show_nat: "is_token (show_nat n)"
  unfolding is_token_def using show_nat_chars digit_char_not_ws by fastforce

lemma parse_digits_show: "n \<le> mx \<Longrightarrow> parse_digits mx 0 (show_nat n) = Some n"
proof (induction n rule: show_nat.induct)
  case (1 n)
  show ?case
  proof (cases "n < 10")
    case True
    then show ?thesis using 1(2) by (simp add: show_nat.simps)
  next
    case False
    then have "parse_digits mx 0 (show_nat (n div 10)) = Some (n div 10)"
      using 1 by (simp add: order_trans[OF div_le_dividend])
    then show ?thesis
      using False 1(2) by (subst show_nat.simps) (simp add: parse_digits_append)
  qed
qed

lemma parse_uint_show: "n \<le> mx \<Longrightarrow> parse_uint mx (show_nat n) = Some n"
proof -
  assume n: "n \<le> mx"
  obtain c cs where s: "show_nat n = c # cs" by (meson show_nat_not_Nil neq_Nil_conv)
  then obtain d where "d < 10" "c = digit_char d" using show_nat_chars[of c n] by auto
  then have "c \<noteq> CHR ''+''" using of_char_digit[of d] by auto
  then show ?thesis using parse_digits_show[OF n] by (simp add: parse_uint_def s)
qed

lemma unat_bound: "unat (x :: 'a::len word) < 2 ^ LENGTH('a)"
  by (rule unsigned_less)

lemma parse_u16_show [simp]: "parse_u16 (show_u16 x) = Some x"
proof -
  have "unat x \<le> 2 ^ 16 - 1" using unat_bound[of x] by simp
  then show ?thesis unfolding parse_u16_def show_u16_def by (simp add: parse_uint_show)
qed

lemma parse_u64_show [simp]: "parse_u64 (show_u64 x) = Some x"
proof -
  have "unat x \<le> 2 ^ 64 - 1" using unat_bound[of x] by simp
  then show ?thesis unfolding parse_u64_def show_u64_def by (simp add: parse_uint_show)
qed

lemma is_token_show_u64 [simp]: "is_token (show_u64 x)"
  by (simp add: show_u64_def is_token_show_nat)

lemma is_token_append: "is_token s \<Longrightarrow> is_token t \<Longrightarrow> is_token (s @ t)"
  by (auto simp: is_token_def)

end
