(* ===== verification/Bench_Util.thy ===== *)
theory Bench_Util
  imports Std_Text
begin

text \<open>
  Command line and start-up helpers of the benchmark programs:
  \<^verbatim>\<open>tf-examples/src/bench/util.rs\<close> and the tables of
  \<^verbatim>\<open>tf-examples/src/bench/mod.rs\<close>.  The arguments of the process, its clock and
  its sockets are parameters.
\<close>

section \<open>Targets\<close>

definition ECHO_METHOD_ID :: u16 where
  "ECHO_METHOD_ID = 1"

definition default_port :: "string \<Rightarrow> u16" where
  "default_port target =
     (if target = ''tf_plain'' then 19001
      else if target = ''tf_enc'' then 19002
      else if target = ''axum'' then 19003
      else if target = ''actix'' then 19004
      else if target = ''lynn'' then 19005
      else 19000)"

definition server_bin :: "string \<Rightarrow> string option" where
  "server_bin target =
     (if target = ''tf_plain'' then Some ''bench_tf_plain_server''
      else if target = ''tf_enc'' then Some ''bench_tf_enc_server''
      else if target = ''axum'' then Some ''bench_axum_server''
      else if target = ''actix'' then Some ''bench_actix_server''
      else if target = ''lynn'' then Some ''bench_lynn_server''
      else None)"

section \<open>Arguments\<close>

text \<open>The loop of \<^verbatim>\<open>arg\<close>, by index into the arguments.\<close>

function arg_from :: "string list \<Rightarrow> string \<Rightarrow> string \<Rightarrow> nat \<Rightarrow> string option" where
  "arg_from args flag pre i =
     (if i < length args then
        (if args ! i = flag then (if i + 1 < length args then Some (args ! (i + 1)) else None)
         else (case strip_prefix pre (args ! i) of
                 Some v \<Rightarrow> Some v
               | None \<Rightarrow> arg_from args flag pre (i + 1)))
      else None)"
  by pat_completeness auto
termination
  by (relation "measure (\<lambda>(args, flag, pre, i). length args - i)") auto

declare arg_from.simps [simp del]

definition arg :: "string list \<Rightarrow> string \<Rightarrow> string option" where
  "arg args flag = arg_from args flag (flag @ ''='') 0"

definition arg_or :: "string list \<Rightarrow> (string \<Rightarrow> 'a option) \<Rightarrow> string \<Rightarrow> 'a \<Rightarrow> 'a" where
  "arg_or args parse flag dflt =
     (case Option.bind (arg args flag) parse of Some v \<Rightarrow> v | None \<Rightarrow> dflt)"

text \<open>\<^verbatim>\<open>exe_dir\<close>: the path of the executable and the parent of a path are given.\<close>

definition exe_dir :: "string option \<Rightarrow> (string \<Rightarrow> string option) \<Rightarrow> string" where
  "exe_dir current_exe parent =
     (case Option.bind current_exe parent of Some d \<Rightarrow> d | None \<Rightarrow> ''.'')"

section \<open>Waiting for a server\<close>

text \<open>The clock and the timer; instants and durations in nanoseconds.\<close>

record 'w time_io =
  now :: "'w \<Rightarrow> nat \<times> 'w"
  sleep :: "nat \<Rightarrow> 'w \<Rightarrow> 'w"

definition millis :: "nat \<Rightarrow> nat" where
  "millis n = n * 1000000"

definition secs :: "nat \<Rightarrow> nat" where
  "secs n = millis (n * 1000)"

text \<open>The loop of \<^verbatim>\<open>wait_for_port\<close>.\<close>

partial_function (option) wait_loop ::
  "'w time_io \<Rightarrow> (string \<Rightarrow> 'w \<Rightarrow> bool \<times> 'w) \<Rightarrow> string \<Rightarrow> nat \<Rightarrow> 'w \<Rightarrow> (bool \<times> 'w) option" where
  "wait_loop TM tcp_connect addr deadline w =
     (case now TM w of (t, w1) \<Rightarrow>
        if t < deadline then
          (case tcp_connect addr w1 of (ok, w2) \<Rightarrow>
             if ok then Some (True, w2)
             else wait_loop TM tcp_connect addr deadline (sleep TM (millis 50) w2))
        else Some (False, w1))"

definition wait_for_port ::
  "'w time_io \<Rightarrow> (string \<Rightarrow> 'w \<Rightarrow> bool \<times> 'w) \<Rightarrow> string \<Rightarrow> nat \<Rightarrow> 'w \<Rightarrow> (bool \<times> 'w) option" where
  "wait_for_port TM tcp_connect addr timeout w =
     (case now TM w of (t, w1) \<Rightarrow> wait_loop TM tcp_connect addr (t + timeout) w1)"

section \<open>Which argument is taken\<close>

text \<open>The specification: the first argument that is the flag or starts with the flag and \<open>=\<close>.\<close>

definition names_flag :: "string \<Rightarrow> string \<Rightarrow> bool" where
  "names_flag flag a \<longleftrightarrow> a = flag \<or> prefix (flag @ ''='') a"

definition flag_value :: "string \<Rightarrow> string list \<Rightarrow> string option" where
  "flag_value flag args =
     (case dropWhile (\<lambda>a. \<not> names_flag flag a) args of
        [] \<Rightarrow> None
      | a # rest \<Rightarrow>
          if a = flag then (case rest of [] \<Rightarrow> None | v # _ \<Rightarrow> Some v)
          else Some (drop (length flag + 1) a))"

lemma arg_from_eq: "arg_from args flag (flag @ ''='') i = flag_value flag (drop i args)"
proof (induction "length args - i" arbitrary: i)
  case 0
  then show ?case by (subst arg_from.simps) (simp add: flag_value_def)
next
  case (Suc n)
  then have i: "i < length args" by simp
  have IH: "arg_from args flag (flag @ ''='') (i + 1) = flag_value flag (drop (i + 1) args)"
    using Suc by simp
  have d: "drop i args = args ! i # drop (i + 1) args"
    using i by (simp add: Cons_nth_drop_Suc)
  have nxt: "(case drop (i + 1) args of [] \<Rightarrow> None | v # _ \<Rightarrow> Some v) =
      (if i + 1 < length args then Some (args ! (i + 1)) else None)"
    by (cases "i + 1 < length args") (simp_all add: Cons_nth_drop_Suc[symmetric])
  show ?case
    using i IH nxt
    by (subst arg_from.simps)
      (auto simp: d flag_value_def names_flag_def strip_prefix_def split: option.splits)
qed

lemma arg_eq_flag_value: "arg args flag = flag_value flag args"
  by (simp add: arg_def arg_from_eq)

lemma flag_value_skip:
  assumes "\<forall>a\<in>set pre. \<not> names_flag flag a"
  shows "flag_value flag (pre @ args) = flag_value flag args"
  using assms by (simp add: flag_value_def)

lemma flag_value_pair: "flag_value flag (flag # v # rest) = Some v"
  by (simp add: flag_value_def names_flag_def)

lemma flag_value_eq: "flag_value flag ((flag @ ''='' @ v) # rest) = Some v"
  by (simp add: flag_value_def names_flag_def)

lemma flag_value_last: "flag_value flag [flag] = None"
  by (simp add: flag_value_def names_flag_def)

text \<open>
  \<^verbatim>\<open>arg\<close> returns the value of the first argument that is the flag itself or starts
  with the flag and \<^verbatim>\<open>=\<close>: the argument after it (none if it is the last one), or the
  rest of that argument.
\<close>

theorem arg_takes_first_occurrence: "arg args flag = flag_value flag args"
  by (rule arg_eq_flag_value)

section \<open>A started server gets the port\<close>

lemma port_argument:
  assumes "\<not> names_flag ''--port'' exe"
  shows "arg_or [exe, ''--port'', show_u16 port] parse_u16 ''--port'' dflt = port"
  using assms flag_value_skip[of "[exe]" "''--port''" "[''--port'', show_u16 port]"]
  by (simp add: arg_or_def arg_eq_flag_value flag_value_pair)

section \<open>Waiting ends\<close>

text \<open>A clock that shows the time of the world, never goes back, and a sleep that lasts.\<close>

definition steady_clock :: "'w time_io \<Rightarrow> ('w \<Rightarrow> nat) \<Rightarrow> bool" where
  "steady_clock TM c \<longleftrightarrow>
     (\<forall>w. fst (now TM w) = c w \<and> c w \<le> c (snd (now TM w))) \<and>
     (\<forall>d w. c w + d \<le> c (sleep TM d w))"

lemma steady_clock_now: "steady_clock TM c \<Longrightarrow> now TM w = (t, w') \<Longrightarrow> t = c w \<and> c w \<le> c w'"
  unfolding steady_clock_def by (metis fst_conv snd_conv)

lemma steady_clock_sleep: "steady_clock TM c \<Longrightarrow> c w + d \<le> c (sleep TM d w)"
  by (simp add: steady_clock_def)

lemma wait_loop_returns:
  assumes clock: "steady_clock TM c" and conn: "\<forall>w. c w \<le> c (snd (tcp_connect addr w))"
  shows "\<exists>b w'. wait_loop TM tcp_connect addr deadline w = Some (b, w') \<and>
     (if b then \<exists>w0 t w1. now TM w0 = (t, w1) \<and> t < deadline \<and> tcp_connect addr w1 = (True, w')
      else deadline \<le> c w')"
proof (induction "deadline - c w" arbitrary: w rule: less_induct)
  case less
  obtain t w1 where n: "now TM w = (t, w1)" by fastforce
  have t: "t = c w" "c w \<le> c w1" using steady_clock_now[OF clock n] by simp_all
  obtain ok w2 where k: "tcp_connect addr w1 = (ok, w2)" by fastforce
  have "c w1 \<le> c w2" using conn k by (metis snd_conv)
  then have later: "c w + millis 50 \<le> c (sleep TM (millis 50) w2)"
    using t(2) steady_clock_sleep[OF clock, of w2 "millis 50"] by linarith
  show ?case
  proof (cases "t < deadline \<and> \<not> ok")
    case True
    then have "deadline - c (sleep TM (millis 50) w2) < deadline - c w"
      using later t(1) millis_def[of 50] by linarith
    then show ?thesis using less True by (subst wait_loop.simps) (simp add: n k)
  next
    case False
    then consider "t < deadline" "ok" | "\<not> t < deadline" by blast
    then show ?thesis
    proof cases
      case 1
      then have "wait_loop TM tcp_connect addr deadline w = Some (True, w2)"
        by (simp add: wait_loop.simps n k)
      then show ?thesis using n k 1 by auto
    next
      case 2
      then have "wait_loop TM tcp_connect addr deadline w = Some (False, w1)"
        by (simp add: wait_loop.simps n)
      then show ?thesis using 2 t by auto
    qed
  qed
qed

lemma wait_for_port_returns:
  assumes clock: "steady_clock TM c" and conn: "\<forall>w. c w \<le> c (snd (tcp_connect addr w))"
  shows "\<exists>b w'. wait_for_port TM tcp_connect addr timeout w = Some (b, w') \<and>
     (if b then \<exists>w0 t w1. now TM w0 = (t, w1) \<and> t < c w + timeout \<and> tcp_connect addr w1 = (True, w')
      else c w + timeout \<le> c w')"
proof -
  obtain t w1 where n: "now TM w = (t, w1)" by fastforce
  then show ?thesis
    using wait_loop_returns[where tcp_connect = tcp_connect and addr = addr, OF clock conn, of "c w + timeout" w1] steady_clock_now[OF clock n]
    by (simp add: wait_for_port_def)
qed

text \<open>
  C38. Waiting for a server always ends: with success only if a connection was accepted after a
  look at the clock before the deadline, and with failure only when the time-out has passed.
\<close>

theorem wait_for_port_ends:
  assumes clock: "steady_clock TM c" and conn: "\<forall>w. c w \<le> c (snd (tcp_connect addr w))"
  shows "\<exists>b w'. wait_for_port TM tcp_connect addr timeout w = Some (b, w') \<and>
     (if b then \<exists>w0 t w1. now TM w0 = (t, w1) \<and> t < c w + timeout \<and> tcp_connect addr w1 = (True, w')
      else c w + timeout \<le> c w')"
  by (rule wait_for_port_returns[where tcp_connect = tcp_connect and addr = addr, OF assms])

text \<open>A world that is only the time; the server comes up at time 120.\<close>

definition plain_time :: "nat time_io" where
  "plain_time = \<lparr>now = \<lambda>t. (t, t), sleep = \<lambda>d t. t + d\<rparr>"

lemma plain_time_steady: "steady_clock plain_time id"
  by (simp add: steady_clock_def plain_time_def)

theorem wait_for_port_ends_witness:
  "\<exists>b w'. wait_for_port plain_time (\<lambda>_ t. (120 \<le> t, t)) ''127.0.0.1:19001'' (secs 30) 0 = Some (b, w') \<and>
     (if b then \<exists>w0 t w1. now plain_time w0 = (t, w1) \<and> t < id 0 + secs 30 \<and>
            (120 \<le> w1, w1) = (True, w')
      else id 0 + secs 30 \<le> id w')"
  by (rule wait_for_port_ends[OF plain_time_steady]) simp

end
