(* ===== verification/Bench_Stats.thy ===== *)
theory Bench_Stats
  imports Std_Text
begin

text \<open>
  \<^verbatim>\<open>tf-examples/src/bench/stats.rs\<close>: the latency recorder and the result of a run with
  its two text forms.  The histogram of the crate \<^verbatim>\<open>hdrhistogram\<close> is a parameter, and
  so are the type of floating point numbers and its formatting with a number of decimals.
\<close>

section \<open>Latency recorder\<close>

text \<open>
  The operations of the histogram; a failed \<^verbatim>\<open>record\<close> or \<^verbatim>\<open>add\<close> is an
  \<open>Err\<close>; quantiles are given in thousandths.
\<close>

record 'h hist_lib =
  new_with_bounds :: "u64 \<Rightarrow> u64 \<Rightarrow> u8 \<Rightarrow> 'h option"
  hist_record :: "'h \<Rightarrow> u64 \<Rightarrow> (unit, string) result \<times> 'h"
  hist_add :: "'h \<Rightarrow> 'h \<Rightarrow> (unit, string) result \<times> 'h"
  value_at_quantile :: "'h \<Rightarrow> nat \<Rightarrow> u64"
  hist_max :: "'h \<Rightarrow> u64"

record 'h latency_recorder =
  hist :: 'h
  count :: u64
  errors :: u64

definition recorder_new :: "'h hist_lib \<Rightarrow> 'h latency_recorder run" where
  "recorder_new HL =
     (case new_with_bounds HL 1 60000000 3 of
        None \<Rightarrow> Panicked
      | Some h \<Rightarrow> Returned \<lparr>hist = h, count = 0, errors = 0\<rparr>)"

definition clamp :: "u64 \<Rightarrow> u64 \<Rightarrow> u64 \<Rightarrow> u64" where
  "clamp lo hi x = (if x < lo then lo else if hi < x then hi else x)"

definition record_us :: "'h hist_lib \<Rightarrow> u64 \<Rightarrow> 'h latency_recorder \<Rightarrow> 'h latency_recorder" where
  "record_us HL us r =
     (let v = clamp 1 60000000 us
      in r\<lparr>hist := snd (hist_record HL (hist r) v), count := count r + 1\<rparr>)"

definition record_error :: "'h latency_recorder \<Rightarrow> 'h latency_recorder" where
  "record_error r = r\<lparr>errors := errors r + 1\<rparr>"

definition merge :: "'h hist_lib \<Rightarrow> 'h latency_recorder \<Rightarrow> 'h latency_recorder \<Rightarrow> 'h latency_recorder" where
  "merge HL other r =
     r\<lparr>hist := snd (hist_add HL (hist r) (hist other)),
       count := count r + count other, errors := errors r + errors other\<rparr>"

definition recorder_default :: "'h hist_lib \<Rightarrow> 'h latency_recorder run" where
  "recorder_default HL = recorder_new HL"

section \<open>Result of a run\<close>

record 'f bench_result =
  br_target :: string
  br_conns :: u64
  br_payload :: u64
  br_duration_s :: 'f
  br_ok_conns :: u64
  br_rps :: 'f
  br_p50_us :: u64
  br_p99_us :: u64
  br_p999_us :: u64
  br_max_us :: u64
  br_count :: u64
  br_errors :: u64
  br_cpu_pct :: 'f
  br_peak_rss_mb :: 'f

definition result_line :: "(nat \<Rightarrow> 'f \<Rightarrow> string) \<Rightarrow> 'f bench_result \<Rightarrow> string" where
  "result_line fmt b =
     ''RESULT target='' @ br_target b @ '' conns='' @ show_u64 (br_conns b) @ '' payload='' @ show_u64 (br_payload b)
     @ '' dur='' @ fmt 2 (br_duration_s b) @ '' ok_conns='' @ show_u64 (br_ok_conns b) @ '' rps='' @ fmt 0 (br_rps b)
     @ '' p50_us='' @ show_u64 (br_p50_us b) @ '' p99_us='' @ show_u64 (br_p99_us b)
     @ '' p999_us='' @ show_u64 (br_p999_us b) @ '' max_us='' @ show_u64 (br_max_us b)
     @ '' count='' @ show_u64 (br_count b) @ '' errors='' @ show_u64 (br_errors b)
     @ '' cpu_pct='' @ fmt 1 (br_cpu_pct b) @ '' peak_rss_mb='' @ fmt 1 (br_peak_rss_mb b)"

definition summary :: "(nat \<Rightarrow> 'f \<Rightarrow> string) \<Rightarrow> 'f bench_result \<Rightarrow> string" where
  "summary fmt b =
     ''['' @ br_target b @ ''] conns='' @ show_u64 (br_conns b) @ '' payload='' @ show_u64 (br_payload b) @ ''B  ''
     @ ''rps='' @ fmt 0 (br_rps b) @ ''  p50='' @ show_u64 (br_p50_us b) @ ''us p99='' @ show_u64 (br_p99_us b)
     @ ''us p99.9='' @ show_u64 (br_p999_us b) @ ''us max='' @ show_u64 (br_max_us b) @ ''us  ''
     @ ''cpu='' @ fmt 1 (br_cpu_pct b) @ ''%  rss='' @ fmt 1 (br_peak_rss_mb b) @ ''MB  ok_conns=''
     @ show_u64 (br_ok_conns b) @ ''/'' @ show_u64 (br_conns b) @ '' errors='' @ show_u64 (br_errors b)"

section \<open>The counter and the histogram agree\<close>

text \<open>
  What the histogram's documentation promises, with the list of the values recorded so far as
  its content: a value within the bounds is recorded, and \<^verbatim>\<open>add\<close> of a histogram with the
  same bounds adds its values.  Nothing is promised for values out of bounds.
\<close>

definition hist_laws :: "'h hist_lib \<Rightarrow> ('h \<Rightarrow> nat) \<Rightarrow> bool" where
  "hist_laws HL len \<longleftrightarrow>
     (\<forall>h. new_with_bounds HL 1 60000000 3 = Some h \<longrightarrow> len h = 0) \<and>
     (\<forall>h v. 1 \<le> v \<and> v \<le> 60000000 \<longrightarrow> len (snd (hist_record HL h v)) = Suc (len h)) \<and>
     (\<forall>h h'. len (snd (hist_add HL h h')) = len h + len h')"

lemma clamp_bounds:
  assumes "lo \<le> hi"
  shows "lo \<le> clamp lo hi x" and "clamp lo hi x \<le> hi"
  using assms by (auto simp: clamp_def)

text \<open>The uses of a recorder by a run: from a new one, by recording, errors and merging.\<close>

inductive recorder_reachable :: "'h hist_lib \<Rightarrow> 'h latency_recorder \<Rightarrow> nat \<Rightarrow> nat \<Rightarrow> bool" for HL where
  reach_new: "recorder_new HL = Returned r \<Longrightarrow> recorder_reachable HL r 0 0"
| reach_record: "recorder_reachable HL r n e \<Longrightarrow> recorder_reachable HL (record_us HL us r) (Suc n) e"
| reach_error: "recorder_reachable HL r n e \<Longrightarrow> recorder_reachable HL (record_error r) n (Suc e)"
| reach_merge: "recorder_reachable HL r n e \<Longrightarrow> recorder_reachable HL r' n' e' \<Longrightarrow>
     recorder_reachable HL (merge HL r' r) (n + n') (e + e')"

inductive_cases recorder_reachableE: "recorder_reachable HL r n e"

lemma recorder_reachable_counts:
  assumes "recorder_reachable HL r n e"
  shows "count r = of_nat n" and "errors r = of_nat e"
  using assms
  by (induction) (auto simp: recorder_new_def record_us_def record_error_def merge_def split: option.splits)

lemma recorder_reachable_len:
  assumes "recorder_reachable HL r n e" and "hist_laws HL len"
  shows "len (hist r) = n"
  using assms
proof induction
  case (reach_record r n e us)
  then show ?case
    using clamp_bounds[of 1 60000000 us] by (simp add: record_us_def hist_laws_def)
qed (auto simp: recorder_new_def record_error_def merge_def hist_laws_def split: option.splits)

text \<open>
  C33. However a recorder is built up, its counters are the numbers of recorded round trips and of
  errors (modulo the width of the counters), and the histogram holds one value for every counted
  round trip: clamping makes sure that no measurement is lost as out of range.
\<close>

theorem recorder_counts_agree:
  assumes "recorder_reachable HL r n e" and "hist_laws HL len"
  shows "count r = of_nat n \<and> errors r = of_nat e \<and> len (hist r) = n"
  using recorder_reachable_counts[OF assms(1)] recorder_reachable_len[OF assms] by simp

text \<open>A histogram that keeps the recorded values and refuses those out of bounds.\<close>

definition list_hist :: "u64 list hist_lib" where
  "list_hist = \<lparr>new_with_bounds = \<lambda>_ _ _. Some [],
     hist_record = \<lambda>h v. if v < 1 \<or> 60000000 < v then (Err ''out of range'', h) else (Ok (), v # h),
     hist_add = \<lambda>h h'. (Ok (), h' @ h),
     value_at_quantile = \<lambda>h q. sort h ! (q * length h div 1000), hist_max = \<lambda>h. fold max h 0\<rparr>"

lemma list_hist_laws: "hist_laws list_hist length"
  by (auto simp: hist_laws_def list_hist_def)

lemma list_hist_new: "recorder_new list_hist = Returned \<lparr>hist = [], count = 0, errors = 0\<rparr>"
  by (simp add: recorder_new_def list_hist_def)

definition sample_recorder :: "u64 list latency_recorder" where
  "sample_recorder =
     record_us list_hist 0 (record_us list_hist 90000000 (record_error \<lparr>hist = [], count = 0, errors = 0\<rparr>))"

lemma sample_recorder_reachable: "recorder_reachable list_hist sample_recorder 2 1"
proof -
  have "recorder_reachable list_hist sample_recorder (Suc (Suc 0)) (Suc 0)"
    unfolding sample_recorder_def by (intro recorder_reachable.intros list_hist_new)
  then show ?thesis by (simp add: numeral_2_eq_2)
qed

theorem recorder_counts_agree_witness:
  "count sample_recorder = of_nat 2 \<and> errors sample_recorder = of_nat 1 \<and> length (hist sample_recorder) = 2"
  by (rule recorder_counts_agree[OF sample_recorder_reachable list_hist_laws])

section \<open>The result line can be split into its fields\<close>

definition result_fields :: "(nat \<Rightarrow> 'f \<Rightarrow> string) \<Rightarrow> 'f bench_result \<Rightarrow> (string \<times> string) list" where
  "result_fields fmt b =
     [(''target'', br_target b), (''conns'', show_u64 (br_conns b)), (''payload'', show_u64 (br_payload b)),
      (''dur'', fmt 2 (br_duration_s b)), (''ok_conns'', show_u64 (br_ok_conns b)), (''rps'', fmt 0 (br_rps b)),
      (''p50_us'', show_u64 (br_p50_us b)), (''p99_us'', show_u64 (br_p99_us b)),
      (''p999_us'', show_u64 (br_p999_us b)), (''max_us'', show_u64 (br_max_us b)),
      (''count'', show_u64 (br_count b)), (''errors'', show_u64 (br_errors b)),
      (''cpu_pct'', fmt 1 (br_cpu_pct b)), (''peak_rss_mb'', fmt 1 (br_peak_rss_mb b))]"

definition field_token :: "string \<times> string \<Rightarrow> string" where
  "field_token kv = fst kv @ ''='' @ snd kv"

lemma result_line_spaced: "result_line fmt b = spaced (''RESULT'' # map field_token (result_fields fmt b))"
  by (simp add: result_line_def result_fields_def field_token_def)

lemma prefix_field:
  assumes "CHR ''='' \<notin> set k" and "CHR ''='' \<notin> set k'"
  shows "prefix (k @ ''='') (k' @ CHR ''='' # v) \<longleftrightarrow> k = k'"
  using assms by (induction k arbitrary: k') (case_tac k'; auto)+

text \<open>The value of a field in a line of \<^verbatim>\<open>key=value\<close> tokens: the first token for the key.\<close>

definition read_field :: "string \<Rightarrow> string \<Rightarrow> string option" where
  "read_field line key =
     map_option (drop (length key + 1)) (find (prefix (key @ ''='')) (split_whitespace line))"

lemma find_field:
  assumes "\<forall>(k, v)\<in>set kvs. CHR ''='' \<notin> set k" and "CHR ''='' \<notin> set key"
  shows "map_option (drop (length key + 1)) (find (prefix (key @ ''='')) (map field_token kvs)) = map_of kvs key"
  using assms by (induction kvs) (auto simp: field_token_def prefix_field)

lemma result_fields_keys:
  "\<forall>(k, v)\<in>set (result_fields fmt b). CHR ''='' \<notin> set k"
  "distinct (map fst (result_fields fmt b))"
  by (simp_all add: result_fields_def)

lemma result_fields_tokens:
  assumes "is_token (br_target b)" and "\<forall>p x. is_token (fmt p x)"
  shows "\<forall>t\<in>set (''RESULT'' # map field_token (result_fields fmt b)). is_token t"
proof -
  have tok: "is_token (k @ CHR ''='' # v)" if "is_token k" "is_token v" for k v
    using that by (auto simp: is_token_def is_ws_def)
  have keys: "\<forall>k\<in>set (map fst (result_fields fmt b)). is_token k"
    by (simp add: result_fields_def is_token_def is_ws_def)
  have vals: "\<forall>v\<in>set (map snd (result_fields fmt b)). is_token v"
    using assms by (simp add: result_fields_def)
  have "is_token (field_token kv)" if "kv \<in> set (result_fields fmt b)" for kv
    using that keys vals tok by (simp add: field_token_def)
  moreover have "is_token ''RESULT''" by (simp add: is_token_def is_ws_def)
  ultimately show ?thesis by simp
qed

text \<open>
  C36. Every field of a result can be read back from the result line by its key, so a script that
  splits the line at blanks and at \<^verbatim>\<open>=\<close> recovers all of them, provided that the target's name
  and formatted numbers have no blanks; the counters are read back as numbers.
\<close>

theorem result_line_roundtrip:
  assumes "is_token (br_target b)" and "\<forall>p x. is_token (fmt p x)"
  shows "(\<forall>(key, value)\<in>set (result_fields fmt b). read_field (result_line fmt b) key = Some value) \<and>
    Option.bind (read_field (result_line fmt b) ''count'') parse_u64 = Some (br_count b) \<and>
    Option.bind (read_field (result_line fmt b) ''errors'') parse_u64 = Some (br_errors b)"
proof -
  have toks: "split_whitespace (result_line fmt b) = ''RESULT'' # map field_token (result_fields fmt b)"
    unfolding result_line_spaced by (rule split_whitespace_spaced[OF result_fields_tokens[OF assms]])
  have read: "read_field (result_line fmt b) k = Some v" if "(k, v) \<in> set (result_fields fmt b)" for k v
  proof -
    have k: "CHR ''='' \<notin> set k" using that result_fields_keys(1) by fastforce
    have "CHR ''='' \<notin> set ''RESULT''" by simp
    then have "\<not> prefix (k @ ''='') ''RESULT''"
      by (metis in_set_conv_decomp set_mono_prefix subsetD)
    then show ?thesis
      using find_field[OF result_fields_keys(1) k, of fmt b] map_of_is_SomeI[OF result_fields_keys(2) that]
      by (simp add: read_field_def toks del: map_option_eq_Some)
  qed
  then have "\<forall>(key, value)\<in>set (result_fields fmt b). read_field (result_line fmt b) key = Some value"
    by blast
  then show ?thesis
    using read[of "''count''" "show_u64 (br_count b)"] read[of "''errors''" "show_u64 (br_errors b)"]
    by (simp add: result_fields_def)
qed

definition sample_result :: "nat bench_result" where
  "sample_result = \<lparr>br_target = ''tf_plain'', br_conns = 256, br_payload = 64, br_duration_s = 10, br_ok_conns = 256,
     br_rps = 90000, br_p50_us = 80, br_p99_us = 200, br_p999_us = 900, br_max_us = 5000, br_count = 900000,
     br_errors = 3, br_cpu_pct = 120, br_peak_rss_mb = 17\<rparr>"

lemma sample_result_target: "is_token (br_target sample_result)"
  by (simp add: sample_result_def is_token_def is_ws_def)

theorem result_line_roundtrip_witness:
  "Option.bind (read_field (result_line (\<lambda>_. show_nat) sample_result) ''count'') parse_u64 = Some 900000"
  using result_line_roundtrip[OF sample_result_target, of "\<lambda>_. show_nat"] is_token_show_nat
  by (simp add: sample_result_def)

end
