(* ===== verification/Bench_Proc.thy ===== *)
theory Bench_Proc
  imports Std_Text
begin

text \<open>
  \<^verbatim>\<open>tf-examples/src/bench/proc.rs\<close>: CPU time and peak memory of the server process, read
  from the text files of \<^verbatim>\<open>/proc\<close>.  The file system, the clock and floating point
  arithmetic are parameters.
\<close>

section \<open>Reading the files\<close>

text \<open>
  The sum \<^verbatim>\<open>utime + stime\<close> wraps, as in a release build.
\<close>

definition read_jiffies :: "(string \<Rightarrow> string option) \<Rightarrow> nat \<Rightarrow> u64 option" where
  "read_jiffies read_to_string pid =
     (case read_to_string (''/proc/'' @ show_nat pid @ ''/stat'') of
        None \<Rightarrow> None
      | Some s \<Rightarrow>
          (case rfind CHR '')'' s of
             None \<Rightarrow> None
           | Some close \<Rightarrow>
               (case slice_after close s of
                  None \<Rightarrow> None
                | Some rest \<Rightarrow>
                    (let fields = split_whitespace rest
                     in case (if 11 < length fields then parse_u64 (fields ! 11) else None) of
                          None \<Rightarrow> None
                        | Some utime \<Rightarrow>
                            (case (if 12 < length fields then parse_u64 (fields ! 12) else None) of
                               None \<Rightarrow> None
                             | Some stime \<Rightarrow> Some (utime + stime))))))"

text \<open>The loop over the lines; the first line with the label decides.\<close>

fun find_vmhwm :: "string list \<Rightarrow> u64 option" where
  "find_vmhwm [] = None"
| "find_vmhwm (line # rest) =
     (case strip_prefix ''VmHWM:'' line of
        Some r \<Rightarrow> (case split_whitespace r of [] \<Rightarrow> None | t # _ \<Rightarrow> parse_u64 t)
      | None \<Rightarrow> find_vmhwm rest)"

definition read_vmhwm_kb :: "(string \<Rightarrow> string option) \<Rightarrow> nat \<Rightarrow> u64 option" where
  "read_vmhwm_kb read_to_string pid =
     (case read_to_string (''/proc/'' @ show_nat pid @ ''/status'') of
        None \<Rightarrow> None
      | Some s \<Rightarrow> find_vmhwm (lines s))"

section \<open>The sampler\<close>

definition CLK_TCK :: u64 where
  "CLK_TCK = 100"

record cpu_mem_sampler =
  pid :: nat
  start_jiffies :: u64
  start_time :: nat

definition sampler_start :: "(string \<Rightarrow> string option) \<Rightarrow> nat \<Rightarrow> nat \<Rightarrow> cpu_mem_sampler" where
  "sampler_start read_to_string p t =
     \<lparr>pid = p,
      start_jiffies = (case read_jiffies read_to_string p of Some j \<Rightarrow> j | None \<Rightarrow> 0),
      start_time = t\<rparr>"

text \<open>
  The floating point operations used: conversion of a \<^verbatim>\<open>u64\<close>, division, product, the
  maximum, and the literals 0, 0.000001, 100 and 1024.
\<close>

record 'f f64_lib =
  of_u64 :: "u64 \<Rightarrow> 'f"
  f_div :: "'f \<Rightarrow> 'f \<Rightarrow> 'f"
  f_mul :: "'f \<Rightarrow> 'f \<Rightarrow> 'f"
  f_max :: "'f \<Rightarrow> 'f \<Rightarrow> 'f"
  f_zero :: 'f
  f_micro :: 'f
  f_hundred :: 'f
  f_kibi :: 'f

definition saturating_sub :: "u64 \<Rightarrow> u64 \<Rightarrow> u64" where
  "saturating_sub a b = (if b \<le> a then a - b else 0)"

definition used_jiffies :: "(string \<Rightarrow> string option) \<Rightarrow> cpu_mem_sampler \<Rightarrow> u64" where
  "used_jiffies read_to_string s =
     saturating_sub
       (case read_jiffies read_to_string (pid s) of Some j \<Rightarrow> j | None \<Rightarrow> start_jiffies s)
       (start_jiffies s)"

text \<open>
  \<open>read_stat\<close> and \<open>read_status\<close> are the file system at the two reads, and
  \<open>elapsed_secs\<close> the time since an instant, read between them.
\<close>

definition sampler_finish ::
  "'f f64_lib \<Rightarrow> (string \<Rightarrow> string option) \<Rightarrow> (nat \<Rightarrow> 'f) \<Rightarrow> (string \<Rightarrow> string option) \<Rightarrow> cpu_mem_sampler
     \<Rightarrow> 'f \<times> 'f" where
  "sampler_finish F read_stat elapsed_secs read_status s =
     (let elapsed = f_max F (elapsed_secs (start_time s)) (f_micro F);
          cpu_pct = f_mul F (f_div F (f_div F (of_u64 F (used_jiffies read_stat s))
                      (of_u64 F CLK_TCK)) elapsed) (f_hundred F);
          peak_rss_mb = f_div F (of_u64 F (case read_vmhwm_kb read_status (pid s) of
                          Some k \<Rightarrow> k | None \<Rightarrow> 0)) (f_kibi F)
      in (cpu_pct, peak_rss_mb))"

section \<open>What the kernel writes is read back\<close>

text \<open>
  A line of \<^verbatim>\<open>/proc/<pid>/stat\<close>: the pid, the command in parentheses, then fields
  without blanks or parentheses.
\<close>

definition stat_line :: "nat \<Rightarrow> string \<Rightarrow> string list \<Rightarrow> string" where
  "stat_line p comm flds = show_nat p @ '' ('' @ comm @ '') '' @ spaced flds @ [CHR 0x0A]"

lemma set_spaced: "set (spaced ts) \<subseteq> insert CHR '' '' (\<Union> (set ` set ts))"
  by (induction ts rule: spaced.induct) auto

lemma stat_line_rest:
  assumes "\<forall>t\<in>set flds. is_token t \<and> CHR '')'' \<notin> set t"
  shows "\<exists>close. rfind CHR '')'' (stat_line p comm flds) = Some close \<and>
     slice_after close (stat_line p comm flds) = Some (spaced flds @ [CHR 0x0A])"
proof -
  let ?s = "show_nat p @ '' ('' @ comm"
  let ?t = "CHR '' '' # spaced flds @ [CHR 0x0A]"
  have line: "stat_line p comm flds = ?s @ CHR '')'' # ?t" by (simp add: stat_line_def)
  have "CHR '')'' \<notin> set ?t" using assms set_spaced[of flds] by auto
  then have "rfind CHR '')'' (stat_line p comm flds) = Some (length ?s)"
    unfolding line by (rule rfind_append)
  moreover have "slice_after (length ?s) (?s @ CHR '')'' # ?t) = Some (spaced flds @ [CHR 0x0A])"
    by (rule slice_after_append) simp
  ultimately show ?thesis unfolding line by blast
qed

lemma read_jiffies_stat:
  assumes "read_to_string (''/proc/'' @ show_nat p @ ''/stat'') = Some (stat_line p comm flds)"
    and "\<forall>t\<in>set flds. is_token t \<and> CHR '')'' \<notin> set t"
    and "12 < length flds" and "flds ! 11 = show_u64 ut" and "flds ! 12 = show_u64 st"
  shows "read_jiffies read_to_string p = Some (ut + st)"
proof -
  obtain close where "rfind CHR '')'' (stat_line p comm flds) = Some close"
    and "slice_after close (stat_line p comm flds) = Some (spaced flds @ [CHR 0x0A])"
    using stat_line_rest[OF assms(2)] by blast
  moreover have "split_whitespace (spaced flds @ [CHR 0x0A]) = flds"
    using assms(2) by (intro split_whitespace_spaced_end) simp_all
  ultimately show ?thesis
    using assms(1,3,4,5) by (simp add: read_jiffies_def)
qed

text \<open>
  C35. The CPU time of a process is read from its stat line whatever its command name holds
  (blanks, parentheses, anything): the result is the sum of the 14th and 15th fields.
\<close>

theorem read_jiffies_any_comm:
  assumes "read_to_string (''/proc/'' @ show_nat p @ ''/stat'') = Some (stat_line p comm flds)"
    and "\<forall>t\<in>set flds. is_token t \<and> CHR '')'' \<notin> set t"
    and "12 < length flds" and "flds ! 11 = show_u64 ut" and "flds ! 12 = show_u64 st"
  shows "read_jiffies read_to_string p = Some (ut + st)"
  using assms by (rule read_jiffies_stat)

definition sample_stat_fields :: "string list" where
  "sample_stat_fields = replicate 11 ''S'' @ [show_u64 70, show_u64 5, ''0'']"

lemma show_u64_no_paren: "CHR '')'' \<notin> set (show_u64 x)"
  by (rule not_digit_not_in_show) simp

lemma sample_stat_fields_ok: "\<forall>t\<in>set sample_stat_fields. is_token t \<and> CHR '')'' \<notin> set t"
  by (simp add: sample_stat_fields_def show_u64_no_paren) (simp add: is_token_def is_ws_def)

theorem read_jiffies_any_comm_witness:
  "read_jiffies (\<lambda>_. Some (stat_line 42 ''evil) R (name'' sample_stat_fields)) 42 = Some (70 + 5)"
  by (rule read_jiffies_any_comm[OF refl sample_stat_fields_ok]) (simp_all add: sample_stat_fields_def nth_append)

lemma find_vmhwm_skip:
  assumes "\<forall>l\<in>set ls. \<not> prefix ''VmHWM:'' l"
  shows "find_vmhwm (ls @ rest) = find_vmhwm rest"
  using assms by (induction ls) (simp_all add: strip_prefix_def)

lemma strip_cr_prefix: "\<not> prefix p l \<Longrightarrow> \<not> prefix p (strip_cr l)"
  unfolding strip_cr_def by (metis append_butlast_last_id prefix_prefix)

text \<open>
  The peak memory is the number in the line labelled \<^verbatim>\<open>VmHWM:\<close>, in kB, wherever that
  line stands in the status file.
\<close>

theorem read_vmhwm_kb_line:
  assumes "read_to_string (''/proc/'' @ show_nat p @ ''/status'') =
      Some (concat (map (\<lambda>l. l @ [CHR 0x0A]) before) @ ''VmHWM:'' @ gap @ show_u64 kb @ '' kB'' @ CHR 0x0A # after)"
    and "\<forall>l\<in>set before. CHR 0x0A \<notin> set l \<and> \<not> prefix ''VmHWM:'' l"
    and "\<forall>c\<in>set gap. is_ws c \<and> c \<noteq> CHR 0x0A"
  shows "read_vmhwm_kb read_to_string p = Some kb"
proof -
  let ?l = "''VmHWM:'' @ gap @ show_u64 kb @ '' kB''"
  have "CHR 0x0A \<notin> set gap" using assms(3) by fastforce
  then have nl: "CHR 0x0A \<notin> set ?l"
    using not_digit_not_in_show[of "CHR 0x0A" kb] by simp
  have cr: "strip_cr ?l = ?l" by (simp add: strip_cr_def)
  have "lines (concat (map (\<lambda>l. l @ [CHR 0x0A]) before) @ (?l @ CHR 0x0A # after)) =
      map strip_cr before @ ?l # lines after"
    using assms(2) lines_newline[OF nl] cr by (simp add: lines_concat)
  moreover have "split_whitespace (gap @ show_u64 kb @ '' kB'') = show_u64 kb # split_whitespace ''kB''"
    using assms(3) split_whitespace_token[OF is_token_show_u64[of kb] is_ws_space]
    by (simp add: split_whitespace_skip_all)
  ultimately show ?thesis
    using assms(1,2) find_vmhwm_skip[of "map strip_cr before"]
      strip_prefix_append[of "''VmHWM:''" "gap @ show_u64 kb @ '' kB''"]
    by (simp add: read_vmhwm_kb_def strip_cr_prefix)
qed

theorem read_vmhwm_kb_line_witness:
  "read_vmhwm_kb (\<lambda>_. Some (concat (map (\<lambda>l. l @ [CHR 0x0A]) [''Name: x'', ''VmPeak: 9 kB'']) @ ''VmHWM:''
     @ [CHR 0x09, CHR '' ''] @ show_u64 2048 @ '' kB'' @ CHR 0x0A # [])) 7 = Some 2048"
  by (rule read_vmhwm_kb_line[OF refl]) simp_all

end
