(* ===== verification/Bench_Tf.thy ===== *)
theory Bench_Tf
  imports Session Server Connection_Machine
begin

text \<open>
  \<^verbatim>\<open>tf-examples/src/bench/tf.rs\<close> and \<^verbatim>\<open>bench/stype.rs\<close>: the echo handler, its
  router, and the two echo servers of the benchmark.  The codecs and the boxing of an
  \<^verbatim>\<open>EchoSType\<close> as a \<^verbatim>\<open>dyn StructureType\<close> are parameters.
\<close>

section \<open>Definitions\<close>

datatype echo_s_type = Echo

record echo_msg =
  em_s_type :: echo_s_type
  em_data :: bytes

definition MAX_FRAME :: nat where
  "MAX_FRAME = 16 * 1024 * 1024"

definition BENCH_PASSWORD :: bytes where
  "BENCH_PASSWORD = as_bytes ''benchmark-shared-password''"

definition BENCH_SERVER_NAME :: string where
  "BENCH_SERVER_NAME = ''bench-server''"

definition BENCH_CLIENT_ID :: bytes where
  "BENCH_CLIENT_ID = as_bytes ''bench-client''"

definition ECHO_HANDLER :: string where
  "ECHO_HANDLER = ''ECHO''"

definition get_client_password :: "string \<Rightarrow> bytes option" where
  "get_client_password client_identity = Some BENCH_PASSWORD"

definition get_client_credentials :: "(bytes \<times> bytes) option" where
  "get_client_credentials = Some (BENCH_CLIENT_ID, BENCH_PASSWORD)"

definition serve_echo :: "('st, 'w) serve_fn" where
  "serve_echo st client_meta move_sig s_type data w =
     (Returned (\<lambda>w1. (Returned (Ok data, move_sig), w1)), w)"

text \<open>The state is a new \<^verbatim>\<open>Arc\<close> of the unit value.\<close>

definition echo_route :: "arc \<Rightarrow> ('st, 'w) route" where
  "echo_route unit_arc = \<lparr>state = unit_arc, serve = serve_echo\<rparr>"

definition echo_router ::
  "('st, 'tc) s_type_lib \<Rightarrow> (echo_s_type \<Rightarrow> 'st) \<Rightarrow> arc \<Rightarrow> ('st, 'tc, 'w) tf_server_router" where
  "echo_router L dyn unit_arc =
     commit_routes L
       (add_route L (echo_route unit_arc) ECHO_HANDLER [dyn Echo] (router_new (dyn Echo)))"

text \<open>
  The codec constructors: the length-delimited codec with its frame limit, and the two ends
  of the encrypted codec with a password source and the name of the server (over a
  length-delimited codec with default settings).
\<close>

record bench_codecs =
  length_delimited :: "nat \<Rightarrow> codec"
  spake2_server :: "(string \<Rightarrow> bytes option) \<Rightarrow> string \<Rightarrow> codec"
  spake2_client :: "(bytes \<times> bytes) option \<Rightarrow> string \<Rightarrow> codec"

definition expect_ok :: "('a, 'e) result \<times> 'w \<Rightarrow> 'a run \<times> 'w" where
  "expect_ok r = (case r of (Ok x, w) \<Rightarrow> (Returned x, w) | (Err e, w) \<Rightarrow> (Panicked, w))"

definition build_plain_server ::
  "('st, 'tc) s_type_lib \<Rightarrow> (echo_s_type \<Rightarrow> 'st) \<Rightarrow> arc \<Rightarrow> bench_codecs \<Rightarrow> 'w server_net \<Rightarrow> string
     \<Rightarrow> ('w, ('st, 'tc, 'w) tf_server) future" where
  "build_plain_server L dyn unit_arc CD N bind w =
     expect_ok (tf_server_new N bind (echo_router L dyn unit_arc) None
       (length_delimited CD MAX_FRAME) None SM_Tcp w)"

definition build_enc_server ::
  "('st, 'tc) s_type_lib \<Rightarrow> (echo_s_type \<Rightarrow> 'st) \<Rightarrow> arc \<Rightarrow> bench_codecs \<Rightarrow> 'w server_net \<Rightarrow> string
     \<Rightarrow> ('w, ('st, 'tc, 'w) tf_server) future" where
  "build_enc_server L dyn unit_arc CD N bind w =
     expect_ok (tf_server_new N bind (echo_router L dyn unit_arc) None
       (spake2_server CD get_client_password BENCH_SERVER_NAME) None SM_Tcp w)"

definition plain_client_codec :: "bench_codecs \<Rightarrow> codec" where
  "plain_client_codec CD = length_delimited CD MAX_FRAME"

definition enc_client_codec :: "bench_codecs \<Rightarrow> codec" where
  "enc_client_codec CD = spake2_client CD get_client_credentials BENCH_SERVER_NAME"

section \<open>The echo router\<close>

abbreviation echo_registrations ::
  "(echo_s_type \<Rightarrow> 'st) \<Rightarrow> arc \<Rightarrow> ('st, 'w) registration list" where
  "echo_registrations dyn unit_arc \<equiv> [(echo_route unit_arc, ECHO_HANDLER, [dyn Echo])]"

lemma echo_router_built:
  "echo_router L dyn unit_arc = build_router L (dyn Echo) (echo_registrations dyn unit_arc)"
  by (simp add: echo_router_def build_router_def)

text \<open>What the echo server answers to a packet.\<close>

definition echo_reply ::
  "('st, 'tc) s_type_lib \<Rightarrow> (echo_s_type \<Rightarrow> 'st) \<Rightarrow> arc \<Rightarrow> 'w itself \<Rightarrow> bytes \<Rightarrow> bytes
     \<Rightarrow> (bytes, server_error) result" where
  "echo_reply L dyn unit_arc W meta payload =
     (case dispatch_of L (dyn Echo) (echo_registrations dyn unit_arc :: ('st, 'w) registration list) meta of
        Call rt t \<Rightarrow> Ok payload
      | Answer i \<Rightarrow>
          (case to_bytes_HandlerMetaAns L \<lparr>hma_s_type = ST_HandlerMetaAns, hma_id = i\<rparr> of
             Some b \<Rightarrow> Ok b | None \<Rightarrow> Ok [])
      | NoRoute \<Rightarrow> Err (ServerError (NoSuchHandler None))
      | Malformed \<Rightarrow> Err (ServerError (MalformedMetaInfo None)))"

lemma echo_serve_packet:
  assumes "key_laws L" and "wire_laws L"
  shows "serve_packet L (echo_router L dyn unit_arc) meta payload (addr, tx) (w :: 'w) =
     (Returned (echo_reply L dyn unit_arc TYPE('w) meta payload, tx), w)"
proof -
  let ?regs = "echo_registrations dyn unit_arc :: ('a, 'w) registration list"
  have "serve_packet L (echo_router L dyn unit_arc) meta payload (addr, tx) w =
      serve_spec L (dyn Echo) ?regs meta payload (addr, tx) w"
    unfolding echo_router_built by (rule serve_packet_eq_spec[OF assms(1)]) simp
  moreover have "\<exists>b. to_bytes_HandlerMetaAns L \<lparr>hma_s_type = ST_HandlerMetaAns, hma_id = i\<rparr> = Some b" for i
    using wire_HandlerMetaAnsE[OF assms(2)] by (metis handler_meta_ans.select_convs(1))
  ultimately show ?thesis
    using dispatch_of_Call[of L "dyn Echo" ?regs meta]
    by (auto simp: serve_spec_def run_handler_def handler_value_def echo_reply_def echo_route_def
          serve_echo_def split: dispatch.splits option.splits)
qed

definition reply_bytes :: "('st, 'tc) s_type_lib \<Rightarrow> (bytes, server_error) result \<Rightarrow> bytes" where
  "reply_bytes L r =
     (case r of Ok b \<Rightarrow> b | Err e \<Rightarrow> (case to_bytes_ServerError L e of Some b \<Rightarrow> b | None \<Rightarrow> []))"

lemma echo_answering:
  fixes c :: "('st, 'tc, 'w) connection"
  assumes "key_laws L" and "wire_laws L" and "c_lib c = L" and "c_router c = echo_router L dyn unit_arc"
  shows "answering c ins outs P (\<lambda>m p. reply_bytes L (echo_reply L dyn unit_arc TYPE('w) m p))"
proof -
  have "(case r of Ok b \<Rightarrow> Some b | Err e \<Rightarrow> to_bytes_ServerError L e) = Some (reply_bytes L r)" for r
  proof (cases r)
    case (Err se)
    obtain b where "to_bytes_ServerError L se = Some b" by (rule wire_ServerErrorE[OF assms(2)])
    then show ?thesis using Err by (simp add: reply_bytes_def)
  qed (simp add: reply_bytes_def)
  then show ?thesis
    unfolding answering_def assms(3,4) by (simp add: echo_serve_packet[OF assms(1,2)] untouched_def)
qed

lemma echo_reply_own_data:
  fixes W :: "'w itself" and L :: "('st, 'tc) s_type_lib"
  assumes "wire_laws L" and "user_type_laws L" and "dr_s_type (req q) = dyn Echo"
  shows "echo_reply L dyn unit_arc W (meta_of L q 0) payload = Ok payload"
proof -
  have "dispatch_of L (dyn Echo) (echo_registrations dyn unit_arc :: ('st, 'w) registration list)
      (meta_of L q 0) = Call (echo_route unit_arc) (dyn Echo)"
    using assms(2,3)
    by (simp add: dispatch_of_def meta_of_access(2)[OF assms(1)] packet_meta_of_def user_type_laws_def
          spec_route_def)
  then show ?thesis by (simp add: echo_reply_def)
qed

text \<open>
  The echo benchmark works: on a connection of a server with the echo router over a
  reliable link, a client that queues any number of requests to the handler named
  \<^verbatim>\<open>ECHO\<close> asks for the name once, and every caller gets back exactly the data it sent.
\<close>

theorem echo_benchmark_roundtrip:
  fixes c :: "('st, 'tc, 's) connection"
  assumes "client_world IO K socket processor rx ins outs cpre cpost queue log"
    and "duplex c sins souts spre spost" and "linked L c cpre cpost spre spost"
    and "key_laws L" and "user_type_laws L" and "c_router c = echo_router L dyn unit_arc"
    and "queue w = q # qs"
    and "\<forall>q' \<in> set (queue w). names_handler ECHO_HANDLER q' \<and> dr_data (req q') \<noteq> [] \<and>
       dr_s_type (req q') = dyn Echo"
    and "lookup_route tr ECHO_HANDLER = None"
    and "to_bytes_HandlerMetaReq L \<lparr>hmr_s_type = ST_HandlerMetaReq, handler_name = ECHO_HANDLER\<rparr> = Some b"
    and "sins s = map cpost (b # concat (map (named_frames L 0) (queue w)))" and "souts s = []"
    and "handle_connection c s = Some (e, s')" and "ins w = souts s'"
  shows "\<exists>tr' w'. client_task L IO K socket processor rx tr w = Some (tr', w') \<and>
     outs w' = outs w @ sins s \<and>
     log w' = log w @ map (\<lambda>q'. (consumer q', Some (dr_data (req q')))) (queue w)"
proof -
  have wire: "wire_laws L" and lib: "c_lib c = L" using assms(3) by (simp_all add: linked_def)
  let ?rep = "\<lambda>m p. reply_bytes L (echo_reply L dyn unit_arc TYPE('s) m p)"
  have own: "?rep (meta_of L q' 0) (dr_data (req q')) = dr_data (req q')" if "q' \<in> set (queue w)" for q'
    using echo_reply_own_data[OF wire assms(5), of q' dyn unit_arc "TYPE('s)"] that assms(8) by (simp add: reply_bytes_def)
  have "c_router c = build_router L (dyn Echo) (echo_registrations dyn unit_arc)"
    by (simp add: assms(6) echo_router_built)
  from named_requests[OF assms(1,2) echo_answering[OF assms(4) wire lib assms(6)] assms(3) this _ assms(7) _ _
      assms(9-14)] show ?thesis
    using assms(8) own by (auto cong: map_cong)
qed

lemma echo_intended:
  "names_handler ECHO_HANDLER q \<Longrightarrow> intended (echo_registrations dyn unit_arc) q = Some 0"
  by (simp add: intended_def names_handler_def handler_info_new_named_def)

text \<open>
  The echo benchmark with client and server running concurrently, for every schedule: on a
  connection of a server with the echo router over a reliable link, a client that queues any number of
  requests to the handler named \<^verbatim>\<open>ECHO\<close> works them all, every caller gets back exactly the
  data it sent, and nothing is left on the link.
\<close>

theorem echo_session_roundtrip:
  fixes se :: "('st, 'tc, 's) server_end"
  assumes "duplex (se_conn se) (se_ins se) (se_outs se) (se_pre se) spost"
    and "\<forall>b s. se_ins se (se_deliver se b s) = se_ins se s @ [b] \<and> se_outs se (se_deliver se b s) = se_outs se s"
    and "session_client_side IO K processor rx cpre cpost queue log"
    and "linked L (se_conn se) cpre cpost (se_pre se) spost"
    and "key_laws L" and "user_type_laws L" and "c_router (se_conn se) = echo_router L dyn unit_arc"
    and "\<forall>q \<in> set (queue w). names_handler ECHO_HANDLER q \<and> dr_data (req q) \<noteq> [] \<and> dr_s_type (req q) = dyn Echo"
    and "oneshot_channel (c_handoff (se_conn se)) s0 = ((tx, se_rx se), s)" and "se_ins se s0 = []"
    and "polite se turns"
  shows "\<exists>tr' j'. client_task L (session_io se IO) (session_client se K) socket processor rx target_router_new
       (session_start se tx w s turns) = Some (tr', j') \<and>
     log (sn_client j') = log w @ map (\<lambda>q. (consumer q, Some (dr_data (req q)))) (queue w) \<and>
     se_ins se (sn_server j') = [] \<and> sn_got j' = length (se_outs se (sn_server j'))"
proof -
  let ?rep = "\<lambda>m p. reply_bytes L (echo_reply L dyn unit_arc TYPE('s) m p)"
  let ?regs = "echo_registrations dyn unit_arc :: ('st, 's) registration list"
  have wire: "wire_laws L" and lib: "c_lib (se_conn se) = L" using assms(4) by (simp_all add: linked_def)
  have srv: "session_server se spost UNIV ?rep"
    using assms(1,2) echo_answering[OF assms(5) wire lib assms(7)] by (simp add: session_server_def)
  have router: "session_router L se ?regs UNIV (queue w)"
    using assms(7) echo_router_built by (auto simp: session_router_def)
  have "owed L ?regs ?rep q = (consumer q, Some (dr_data (req q)))" if "q \<in> set (queue w)" for q
    using that assms(8) echo_reply_own_data[OF wire assms(6), of q dyn unit_arc "TYPE('s)"]
    by (simp add: owed_def echo_intended reply_bytes_def)
  then have "map (owed L ?regs ?rep) (queue w) = map (\<lambda>q. (consumer q, Some (dr_data (req q)))) (queue w)"
    by simp
  with session_answers[OF srv assms(3,4) router _ assms(9-11)] assms(8) show ?thesis by fastforce
qed

section \<open>The echo server as a machine\<close>

lemma echo_server_is_machine:
  fixes c :: "('st, 'tc, 'w) connection"
  assumes "duplex c ins outs pre post" and "key_laws L" and "wire_laws L" and "c_lib c = L"
    and "c_router c = echo_router L dyn unit_arc"
  shows "machine_connection c (\<lambda>w. map Ok (ins w)) outs (\<lambda>w. ())
     (stateless pre (\<lambda>m p. reply_bytes L (echo_reply L dyn unit_arc TYPE('w) m p)) post)"
  by (rule duplex_is_machine[OF assms(1) echo_answering[OF assms(2-5)]])

section \<open>Example\<close>

lemma sample_echo_router: "c_router (sample_conn echo_regs) = echo_router sample_lib (\<lambda>_. 0) 0"
proof -
  have "(sample_echo :: (u64, qworld) route) = echo_route 0"
    by (simp add: echo_route_def sample_echo_def serve_echo_def boxed_def fun_eq_iff)
  then show ?thesis by (simp add: echo_router_built ECHO_HANDLER_def)
qed

interpretation echo_server: machine_connection "sample_conn echo_regs" "\<lambda>w. map Ok (q_in w)" q_out "\<lambda>w. ()"
    "stateless (\<lambda>b. b) (\<lambda>m p. reply_bytes sample_lib (echo_reply sample_lib (\<lambda>_. 0) 0 TYPE(qworld) m p)) (\<lambda>b. b)"
  by (rule echo_server_is_machine[OF sample_duplex sample_key_laws sample_wire_laws _ sample_echo_router]) simp

theorem echo_benchmark_roundtrip_witness:
  "\<exists>tr' w'. client_task sample_lib queue_io sample_client_io 0 0 0 target_router_new
       (sample_cworld [3 # bits64 0, [7], [7]] [sample_named, sample_named]) = Some (tr', w') \<and>
     cw_log w' = [(9, Some [7]), (9, Some [7])]"
proof -
  let ?b = "2 # as_bytes ''ECHO''" and ?m = "meta_of sample_lib sample_named 0"
  let ?w = "sample_cworld [3 # bits64 0, [7], [7]] [sample_named, sample_named]"
  let ?fs = "[?b, ?m, [7], ?m, [7]]"
  obtain s' where s': "handle_connection (sample_conn echo_regs) \<lparr>q_in = ?fs, q_out = [], q_closed = False\<rparr> =
      Some (PeerGone, s')" "q_out s' = map (\<lambda>(m, p). sample_rep m p) (packets sample_lib ?fs)"
    using sample_server_run[of ?fs] by metis
  have "q_in ?w = q_out s'"
    using wants_payload_meta[OF sample_wire_laws, of sample_named 0] sample_rep_echo[of sample_named "[7]"]
    by (simp add: s'(2) sample_cworld_def) (simp add: sample_rep_def dispatch_of_def wants_payload_def)
  then show ?thesis
    using echo_benchmark_roundtrip[OF sample_client_world sample_duplex sample_linked sample_key_laws
        sample_user_type_laws sample_echo_router _ _ _ _ _ _ s'(1), of ?w sample_named "[sample_named]"
        target_router_new ?b]
    by (auto simp: sample_cworld_def lookup_route_def target_router_new_def named_frames_def
          names_handler_def ECHO_HANDLER_def)
qed

theorem echo_session_roundtrip_witness:
  "\<exists>tr' j'. client_task sample_lib (session_io sample_end queue_io) (session_client sample_end sample_client_io) 0 0 0
       target_router_new (session_start sample_end 1 (sample_cworld [] [sample_named, sample_named]) fresh_world busy_schedule) =
       Some (tr', j') \<and>
     cw_log (sn_client j') = [(9, Some [7]), (9, Some [7])]"
proof -
  have lk: "linked sample_lib (se_conn sample_end) (\<lambda>b. b) (\<lambda>b. b) (se_pre sample_end) (\<lambda>b. b)"
    using sample_linked by simp
  have dx: "duplex (se_conn sample_end) (se_ins sample_end) (se_outs sample_end) (se_pre sample_end) (\<lambda>b. b)"
    using sample_duplex by simp
  have rt: "c_router (se_conn sample_end) = echo_router sample_lib (\<lambda>_. 0) 0"
    using sample_echo_router by simp
  have dl: "\<forall>b s. se_ins sample_end (se_deliver sample_end b s) = se_ins sample_end s @ [b] \<and>
      se_outs sample_end (se_deliver sample_end b s) = se_outs sample_end s"
    using sample_session_server by (simp add: session_server_def)
  have ch: "oneshot_channel (c_handoff (se_conn sample_end)) fresh_world = ((1, se_rx sample_end), fresh_world)"
    by simp
  show ?thesis
    using echo_session_roundtrip[OF dx dl sample_session_client lk sample_key_laws sample_user_type_laws rt _ ch _ busy_polite,
        of "sample_cworld [] [sample_named, sample_named]" 0]
    by (auto simp: sample_cworld_def names_handler_def ECHO_HANDLER_def handler_info_new_named_def)
qed

end
