(* ===== verification/Bench_Runner.thy ===== *)
theory Bench_Runner
  imports Bench_Util Bench_Stats Bench_Proc Bench_Tf
begin

text \<open>
  \<^verbatim>\<open>tf-examples/src/benches/runner.rs\<close>: the load generator.  A connection of the load is
  a loop of timed round trips until the deadline or the first failure; the runner starts the
  server, spawns the connections, merges their recorders and reports.  The HTTP client, the
  lynn client, processes, task spawning and printing are parameters: a task may never finish, a task that
  panics may end the whole program, and printing may panic.  The tf client is the one of \<open>Client\<close>.
\<close>

section \<open>One connection\<close>

definition REQUEST_TIMEOUT :: nat where
  "REQUEST_TIMEOUT = secs 5"

text \<open>
  The loop that the three kinds of connections share.  \<open>round\<close> is one timed round trip,
  true when it succeeded within the time-out; \<open>fetch_add\<close> counts the connection as working,
  once.  The loop may run for ever when the clock does not advance.
\<close>

partial_function (option) drive ::
  "'h hist_lib \<Rightarrow> 'w time_io \<Rightarrow> ('w \<Rightarrow> bool \<times> 'w) \<Rightarrow> ('w \<Rightarrow> 'w) \<Rightarrow> nat \<Rightarrow> nat
     \<Rightarrow> bool \<Rightarrow> 'h latency_recorder \<Rightarrow> 'w \<Rightarrow> ('h latency_recorder \<times> 'w) option" where
  "drive HL TM round fetch_add warmup_deadline measure_deadline counted rec w =
     (case now TM w of (n, w1) \<Rightarrow>
        if measure_deadline \<le> n then Some (rec, w1)
        else
          (case now TM w1 of (t, w2) \<Rightarrow>
             (case round w2 of (ok, w3) \<Rightarrow>
                if ok then
                  (case (if counted then w3 else fetch_add w3) of w4 \<Rightarrow>
                     if warmup_deadline \<le> n then
                       (case now TM w4 of (t', w5) \<Rightarrow>
                          drive HL TM round fetch_add warmup_deadline measure_deadline True
                            (record_us HL (of_nat ((t' - t) div 1000)) rec) w5)
                     else drive HL TM round fetch_add warmup_deadline measure_deadline True rec w4)
                else Some (record_error rec, w3))))"

text \<open>
  What a tf connection needs besides the client: a one-shot channel for the reply, waiting on
  it with a time-out (\<open>Some\<close> for a reply in time), the shared counter, and the
  serialization of the message.
\<close>

record 'w load_io =
  reply_channel :: "'w \<Rightarrow> (sender \<times> receiver) \<times> 'w"
  timeout_recv :: "nat \<Rightarrow> receiver \<Rightarrow> 'w \<Rightarrow> bytes option \<times> 'w"
  fetch_add_ok :: "'w \<Rightarrow> 'w"
  to_bytes_EchoMsg :: "echo_msg \<Rightarrow> bytes option"

definition tf_round ::
  "('st, 'w) client_io \<Rightarrow> 'w load_io \<Rightarrow> (echo_s_type \<Rightarrow> 'st) \<Rightarrow> client_connect \<Rightarrow> bytes
     \<Rightarrow> 'w \<Rightarrow> bool \<times> 'w" where
  "tf_round K LD dyn client data w =
     (case reply_channel LD w of ((tx, rx), w1) \<Rightarrow>
        (case dispatch_request K client
                \<lparr>req = \<lparr>dr_handler_info = handler_info_new_named ECHO_HANDLER, dr_data = data,
                        dr_s_type = dyn Echo\<rparr>, consumer = tx\<rparr> w1 of
           (Err e, w2) \<Rightarrow> (False, w2)
         | (Ok _, w2) \<Rightarrow>
             (case timeout_recv LD REQUEST_TIMEOUT rx w2 of
                (Some _, w3) \<Rightarrow> (True, w3)
              | (None, w3) \<Rightarrow> (False, w3))))"

type_synonym ('h, 'w) conn_result = "('h latency_recorder run \<times> 'w) option"

definition returned :: "('a \<times> 'w) option \<Rightarrow> ('a run \<times> 'w) option" where
  "returned x = map_option (\<lambda>(r, w). (Returned r, w)) x"

definition tf_conn ::
  "'h hist_lib \<Rightarrow> 'w time_io \<Rightarrow> 'w client_net \<Rightarrow> 'w conn_io \<Rightarrow> ('st, 'w) client_io \<Rightarrow> 'w load_io
     \<Rightarrow> (echo_s_type \<Rightarrow> 'st) \<Rightarrow> string \<Rightarrow> nat \<Rightarrow> nat \<Rightarrow> nat \<Rightarrow> codec \<Rightarrow> 'w \<Rightarrow> ('h, 'w) conn_result" where
  "tf_conn HL TM N IO K LD dyn addr payload warmup_deadline measure_deadline cd w =
     (case recorder_new HL of
        Panicked \<Rightarrow> Some (Panicked, w)
      | Returned rec \<Rightarrow>
          (case client_connect_new N IO K ''localhost'' addr None cd (CM_Tcp None) 8 w of
             (Panicked, w1) \<Rightarrow> Some (Panicked, w1)
           | (Returned (Err e), w1) \<Rightarrow> Some (Returned (record_error rec), w1)
           | (Returned (Ok client), w1) \<Rightarrow>
               (case to_bytes_EchoMsg LD \<lparr>em_s_type = Echo, em_data = replicate payload 0\<rparr> of
                  None \<Rightarrow> Some (Panicked, w1)
                | Some data \<Rightarrow>
                    returned (drive HL TM (tf_round K LD dyn client data) (fetch_add_ok LD)
                      warmup_deadline measure_deadline False rec w1))))"

text \<open>
  The clients of the other servers: building a client may fail for HTTP; a round trip posts
  (or sends) the body and awaits the reply under the time-out.
\<close>

record 'w other_clients =
  http_build :: "'w \<Rightarrow> nat option \<times> 'w"
  http_post :: "nat \<Rightarrow> nat \<Rightarrow> string \<Rightarrow> bytes \<Rightarrow> 'w \<Rightarrow> bool \<times> 'w"
  lynn_start :: "string \<Rightarrow> 'w \<Rightarrow> nat \<times> 'w"
  lynn_exchange :: "nat \<Rightarrow> nat \<Rightarrow> u16 \<Rightarrow> bytes \<Rightarrow> 'w \<Rightarrow> bool \<times> 'w"

definition http_conn ::
  "'h hist_lib \<Rightarrow> 'w time_io \<Rightarrow> 'w load_io \<Rightarrow> 'w other_clients \<Rightarrow> string \<Rightarrow> nat \<Rightarrow> nat \<Rightarrow> nat \<Rightarrow> 'w
     \<Rightarrow> ('h, 'w) conn_result" where
  "http_conn HL TM LD OC addr payload warmup_deadline measure_deadline w =
     (case recorder_new HL of
        Panicked \<Rightarrow> Some (Panicked, w)
      | Returned rec \<Rightarrow>
          (let url = ''http://'' @ addr @ ''/echo''
           in case http_build OC w of
                (None, w1) \<Rightarrow> Some (Returned (record_error rec), w1)
              | (Some client, w1) \<Rightarrow>
                  returned (drive HL TM (http_post OC REQUEST_TIMEOUT client url (replicate payload 0))
                    (fetch_add_ok LD) warmup_deadline measure_deadline False rec w1)))"

definition lynn_conn ::
  "'h hist_lib \<Rightarrow> 'w time_io \<Rightarrow> 'w load_io \<Rightarrow> 'w other_clients \<Rightarrow> string \<Rightarrow> nat \<Rightarrow> nat \<Rightarrow> nat \<Rightarrow> 'w
     \<Rightarrow> ('h, 'w) conn_result" where
  "lynn_conn HL TM LD OC addr payload warmup_deadline measure_deadline w =
     (case recorder_new HL of
        Panicked \<Rightarrow> Some (Panicked, w)
      | Returned rec \<Rightarrow>
          (case lynn_start OC addr w of (client, w1) \<Rightarrow>
             returned (drive HL TM (lynn_exchange OC REQUEST_TIMEOUT client ECHO_METHOD_ID (replicate payload 0))
               (fetch_add_ok LD) warmup_deadline measure_deadline False rec w1)))"

definition run_connection ::
  "'h hist_lib \<Rightarrow> 'w time_io \<Rightarrow> 'w client_net \<Rightarrow> 'w conn_io \<Rightarrow> ('st, 'w) client_io \<Rightarrow> 'w load_io
     \<Rightarrow> 'w other_clients \<Rightarrow> bench_codecs \<Rightarrow> (echo_s_type \<Rightarrow> 'st) \<Rightarrow> string \<Rightarrow> string \<Rightarrow> nat \<Rightarrow> nat \<Rightarrow> nat
     \<Rightarrow> 'w \<Rightarrow> ('h, 'w) conn_result" where
  "run_connection HL TM N IO K LD OC CD dyn target addr payload warmup_deadline measure_deadline w =
     (if target = ''tf_plain'' then
        tf_conn HL TM N IO K LD dyn addr payload warmup_deadline measure_deadline (plain_client_codec CD) w
      else if target = ''tf_enc'' then
        tf_conn HL TM N IO K LD dyn addr payload warmup_deadline measure_deadline (enc_client_codec CD) w
      else if target = ''axum'' \<or> target = ''actix'' then
        http_conn HL TM LD OC addr payload warmup_deadline measure_deadline w
      else if target = ''lynn'' then
        lynn_conn HL TM LD OC addr payload warmup_deadline measure_deadline w
      else Some (recorder_new HL, w))"

section \<open>The load\<close>

definition sleep_until :: "'w time_io \<Rightarrow> nat \<Rightarrow> 'w \<Rightarrow> 'w" where
  "sleep_until TM deadline w = (case now TM w of (n, w1) \<Rightarrow> sleep TM (deadline - n) w1)"

record ('h, 'f) run_outcome =
  o_rec :: "'h latency_recorder"
  o_ok_conns :: u64
  o_cpu_pct :: 'f
  o_peak_rss_mb :: 'f

text \<open>
  Tasks: \<open>spawn_conn\<close> starts a task that runs \<open>run_connection\<close> with the given
  target, address, payload size and deadlines; \<open>join_conn\<close> waits for a task, gives
  \<open>Panicked\<close> when it died and \<open>None\<close> when it never finishes.  \<open>panics_abort\<close> is the
  panic strategy of the build (\<^verbatim>\<open>panic = "abort"\<close> in the release profile): with it a task
  that panics ends the whole program.  \<open>files\<close> is the file system, \<open>ok_load\<close> reads the
  shared counter.
\<close>

record ('h, 'w) task_io =
  spawn_conn :: "string \<times> string \<times> nat \<times> nat \<times> nat \<Rightarrow> 'w \<Rightarrow> nat \<times> 'w"
  join_conn :: "nat \<Rightarrow> 'w \<Rightarrow> ('h latency_recorder run \<times> 'w) option"
  panics_abort :: bool
  ok_load :: "'w \<Rightarrow> u64"
  files :: "'w \<Rightarrow> string \<Rightarrow> string option"

fun spawn_all ::
  "('h, 'w) task_io \<Rightarrow> string \<times> string \<times> nat \<times> nat \<times> nat \<Rightarrow> nat \<Rightarrow> 'w \<Rightarrow> nat list \<times> 'w" where
  "spawn_all TK a 0 w = ([], w)"
| "spawn_all TK a (Suc n) w =
     (case spawn_conn TK a w of (h, w1) \<Rightarrow> (case spawn_all TK a n w1 of (hs, w2) \<Rightarrow> (h # hs, w2)))"

fun join_all ::
  "'h hist_lib \<Rightarrow> ('h, 'w) task_io \<Rightarrow> nat list \<Rightarrow> 'h latency_recorder \<Rightarrow> 'w
     \<Rightarrow> ('h latency_recorder run \<times> 'w) option" where
  "join_all HL TK [] rec w = Some (Returned rec, w)"
| "join_all HL TK (h # hs) rec w =
     (case join_conn TK h w of
        None \<Rightarrow> None
      | Some (Returned r, w1) \<Rightarrow> join_all HL TK hs (merge HL r rec) w1
      | Some (Panicked, w1) \<Rightarrow>
          (if panics_abort TK then Some (Panicked, w1) else join_all HL TK hs rec w1))"

text \<open>
  \<open>after_secs t x\<close> is the instant \<^verbatim>\<open>t + Duration::from_secs_f64(x)\<close>; it panics when the
  number is not a duration (it is negative, say) or the sum is beyond the range of instants.
\<close>

definition sample_start ::
  "'w time_io \<Rightarrow> ('h, 'w) task_io \<Rightarrow> nat option \<Rightarrow> 'w \<Rightarrow> cpu_mem_sampler option \<times> 'w" where
  "sample_start TM TK pid0 w =
     (case pid0 of
        None \<Rightarrow> (None, w)
      | Some p \<Rightarrow> (case now TM w of (t, w1) \<Rightarrow> (Some (sampler_start (files TK w) p t), w1)))"

definition sample_finish ::
  "'w time_io \<Rightarrow> ('h, 'w) task_io \<Rightarrow> 'f f64_lib \<Rightarrow> (nat \<Rightarrow> 'f) \<Rightarrow> cpu_mem_sampler option \<Rightarrow> 'w
     \<Rightarrow> ('f \<times> 'f) \<times> 'w" where
  "sample_finish TM TK F as_secs sampler w =
     (case sampler of
        None \<Rightarrow> ((f_zero F, f_zero F), w)
      | Some s \<Rightarrow>
          (case now TM w of (t, w1) \<Rightarrow>
             (sampler_finish F (files TK w) (\<lambda>st. as_secs (t - st)) (files TK w1) s, w1)))"

definition run_load ::
  "'h hist_lib \<Rightarrow> 'w time_io \<Rightarrow> ('h, 'w) task_io \<Rightarrow> 'f f64_lib \<Rightarrow> (nat \<Rightarrow> 'f \<Rightarrow> nat run) \<Rightarrow> (nat \<Rightarrow> 'f)
     \<Rightarrow> string \<Rightarrow> string \<Rightarrow> nat \<Rightarrow> nat \<Rightarrow> 'f \<Rightarrow> 'f \<Rightarrow> nat option \<Rightarrow> 'w
     \<Rightarrow> (('h, 'f) run_outcome run \<times> 'w) option" where
  "run_load HL TM TK F after_secs as_secs target addr conns payload duration_s warmup_s pid0 w =
     (case now TM w of (start, w1) \<Rightarrow>
      (case after_secs start warmup_s of
         Panicked \<Rightarrow> Some (Panicked, w1)
       | Returned warmup_deadline \<Rightarrow>
      (case after_secs warmup_deadline duration_s of
         Panicked \<Rightarrow> Some (Panicked, w1)
       | Returned measure_deadline \<Rightarrow>
           (case spawn_all TK (target, addr, payload, warmup_deadline, measure_deadline) conns w1 of
                 (handles, w2) \<Rightarrow>
              (case sample_start TM TK pid0 (sleep_until TM warmup_deadline w2) of
                 (sampler, w3) \<Rightarrow>
              (case sample_finish TM TK F as_secs sampler (sleep_until TM measure_deadline w3) of
                 ((cpu_pct, peak_rss_mb), w4) \<Rightarrow>
              (case recorder_new HL of
                 Panicked \<Rightarrow> Some (Panicked, w4)
               | Returned rec0 \<Rightarrow>
                   (case join_all HL TK handles rec0 w4 of
                      None \<Rightarrow> None
                    | Some (Panicked, w5) \<Rightarrow> Some (Panicked, w5)
                    | Some (Returned rec, w5) \<Rightarrow>
                        Some (Returned \<lparr>o_rec = rec, o_ok_conns = ok_load TK w5,
                                        o_cpu_pct = cpu_pct, o_peak_rss_mb = peak_rss_mb\<rparr>, w5)))))))))"

section \<open>The program\<close>

text \<open>Processes and printing; printing panics when the output is closed.\<close>

record 'w proc_io =
  spawn_child :: "string \<Rightarrow> string list \<Rightarrow> 'w \<Rightarrow> (nat, string) result \<times> 'w"
  child_pid :: "nat \<Rightarrow> 'w \<Rightarrow> nat option"
  child_kill :: "nat \<Rightarrow> 'w \<Rightarrow> 'w"
  child_wait :: "nat \<Rightarrow> 'w \<Rightarrow> 'w"
  eprintln :: "string \<Rightarrow> 'w \<Rightarrow> unit run \<times> 'w"
  println :: "string \<Rightarrow> 'w \<Rightarrow> unit run \<times> 'w"
  exe_path :: "string option"
  path_parent :: "string \<Rightarrow> string option"
  path_join :: "string \<Rightarrow> string \<Rightarrow> string"

datatype main_end = Finished | ExitCode nat | MainPanicked

definition kill :: "'w proc_io \<Rightarrow> nat option \<Rightarrow> 'w \<Rightarrow> 'w" where
  "kill PR child w = (case child of Some c \<Rightarrow> child_wait PR c (child_kill PR c w) | None \<Rightarrow> w)"

definition spawn_server :: "string list \<Rightarrow> bool" where
  "spawn_server args = (arg args ''--no-spawn'' = None)"

text \<open>\<^verbatim>\<open>eprintln!\<close> followed by \<^verbatim>\<open>process::exit\<close>.\<close>

definition exit_with :: "'w proc_io \<Rightarrow> string \<Rightarrow> nat \<Rightarrow> 'w \<Rightarrow> main_end \<times> 'w" where
  "exit_with PR msg code w =
     (case eprintln PR msg w of (Panicked, w1) \<Rightarrow> (MainPanicked, w1) | (Returned _, w1) \<Rightarrow> (ExitCode code, w1))"

text \<open>Starting the server child: \<open>Err\<close> carries the end of the program.\<close>

definition start_child ::
  "'w proc_io \<Rightarrow> string list \<Rightarrow> string \<Rightarrow> u16 \<Rightarrow> 'w \<Rightarrow> (nat option, main_end) result \<times> 'w" where
  "start_child PR args target port w =
     (if spawn_server args then
        (case server_bin target of
           None \<Rightarrow> map_prod Err id (exit_with PR (''unknown target: '' @ target) 2 w)
         | Some bin \<Rightarrow>
             (let path = path_join PR (exe_dir (exe_path PR) (path_parent PR)) bin
              in case spawn_child PR path [''--port'', show_u16 port] w of
                   (Err e, w1) \<Rightarrow> map_prod Err id (exit_with PR (''failed to spawn '' @ path @ '': '' @ e) 1 w1)
                 | (Ok c, w1) \<Rightarrow> (Ok (Some c), w1)))
      else (Ok None, w))"

definition bench_result_of ::
  "'h hist_lib \<Rightarrow> 'f f64_lib \<Rightarrow> string \<Rightarrow> u64 \<Rightarrow> u64 \<Rightarrow> 'f \<Rightarrow> ('h, 'f) run_outcome \<Rightarrow> 'f bench_result" where
  "bench_result_of HL F target conns payload duration_s outcome =
     (let rec = o_rec outcome
      in \<lparr>br_target = target, br_conns = conns, br_payload = payload, br_duration_s = duration_s,
          br_ok_conns = o_ok_conns outcome, br_rps = f_div F (of_u64 F (count rec)) duration_s,
          br_p50_us = value_at_quantile HL (hist rec) 500, br_p99_us = value_at_quantile HL (hist rec) 990,
          br_p999_us = value_at_quantile HL (hist rec) 999, br_max_us = hist_max HL (hist rec),
          br_count = count rec, br_errors = errors rec, br_cpu_pct = o_cpu_pct outcome,
          br_peak_rss_mb = o_peak_rss_mb outcome\<rparr>)"

text \<open>The two lines of the report, and the end of \<^verbatim>\<open>main\<close>.\<close>

definition report ::
  "'w proc_io \<Rightarrow> nat option \<Rightarrow> (nat \<Rightarrow> 'f \<Rightarrow> string) \<Rightarrow> 'f bench_result \<Rightarrow> 'w \<Rightarrow> main_end \<times> 'w" where
  "report PR child fmt result w =
     (case eprintln PR (summary fmt result) w of
        (Panicked, w1) \<Rightarrow> (MainPanicked, w1)
      | (Returned _, w1) \<Rightarrow>
          (case println PR (result_line fmt result) w1 of
             (Panicked, w2) \<Rightarrow> (MainPanicked, w2)
           | (Returned _, w2) \<Rightarrow> (Finished, kill PR child w2)))"

definition runner_main ::
  "'h hist_lib \<Rightarrow> 'w time_io \<Rightarrow> ('h, 'w) task_io \<Rightarrow> 'f f64_lib \<Rightarrow> (nat \<Rightarrow> 'f \<Rightarrow> nat run) \<Rightarrow> (nat \<Rightarrow> 'f) \<Rightarrow> 'w proc_io
     \<Rightarrow> (string \<Rightarrow> 'w \<Rightarrow> bool \<times> 'w) \<Rightarrow> (string \<Rightarrow> 'f option) \<Rightarrow> 'f \<Rightarrow> 'f \<Rightarrow> (nat \<Rightarrow> 'f \<Rightarrow> string)
     \<Rightarrow> string list \<Rightarrow> 'w \<Rightarrow> (main_end \<times> 'w) option" where
  "runner_main HL TM TK F after_secs as_secs PR try_connect parse_f64 ten three fmt args w =
     (case arg args ''--target'' of
        None \<Rightarrow> Some (exit_with PR ''--target required (tf_plain|tf_enc|axum|actix|lynn)'' 2 w)
      | Some target \<Rightarrow>
          (let conns = arg_or args parse_u64 ''--conns'' 256;
               payload = arg_or args parse_u64 ''--payload'' 64;
               duration_s = arg_or args parse_f64 ''--duration'' ten;
               warmup_s = arg_or args parse_f64 ''--warmup'' three;
               port = arg_or args parse_u16 ''--port'' (default_port target)
           in case start_child PR args target port w of
                (Err e, w1) \<Rightarrow> Some (e, w1)
              | (Ok child, w1) \<Rightarrow>
                  (let addr = ''127.0.0.1:'' @ show_u16 port
                   in case wait_for_port TM try_connect addr (secs 30) w1 of
                        None \<Rightarrow> None
                      | Some (False, w2) \<Rightarrow>
                          (case eprintln PR (''server '' @ target @ '' did not become ready on '' @ addr) w2 of
                             (Panicked, w3) \<Rightarrow> Some (MainPanicked, w3)
                           | (Returned _, w3) \<Rightarrow> Some (ExitCode 1, kill PR child w3))
                      | Some (True, w2) \<Rightarrow>
                          (let w3 = sleep TM (millis 300) w2;
                               pid0 = Option.bind child (\<lambda>c. child_pid PR c w3)
                           in case run_load HL TM TK F after_secs as_secs target addr (unat conns)
                                     (unat payload) duration_s warmup_s pid0 w3 of
                                None \<Rightarrow> None
                              | Some (Panicked, w4) \<Rightarrow> Some (MainPanicked, w4)
                              | Some (Returned outcome, w4) \<Rightarrow>
                                  Some (report PR child fmt
                                    (bench_result_of HL F target conns payload duration_s outcome) w4)))))"

section \<open>The echo server programs\<close>

text \<open>
  \<^verbatim>\<open>benches/tf_plain_server.rs\<close> and \<^verbatim>\<open>benches/tf_enc_server.rs\<close>: read the
  port, build the server, start it and wait for its acceptor, which may never end.
\<close>

definition serve_until_stopped ::
  "'w server_net \<Rightarrow> 'w conn_io \<Rightarrow> ('w \<Rightarrow> unit run \<times> 'w) \<Rightarrow> ('st, 'tc, 'w) tf_server run \<times> 'w \<Rightarrow> (unit run \<times> 'w) option" where
  "serve_until_stopped N IO say built =
     (case built of
        (Panicked, w1) \<Rightarrow> Some (Panicked, w1)
      | (Returned sv, w1) \<Rightarrow>
          (case server_start N IO sv w1 of ((a, sv'), w2) \<Rightarrow>
             (case say w2 of
                (Panicked, w3) \<Rightarrow> Some (Panicked, w3)
              | (Returned _, w3) \<Rightarrow> map_option (\<lambda>w4. (Returned (), w4)) (acceptor_loop N IO a w3))))"

definition tf_plain_server_main ::
  "('st, 'tc) s_type_lib \<Rightarrow> (echo_s_type \<Rightarrow> 'st) \<Rightarrow> arc \<Rightarrow> bench_codecs \<Rightarrow> 'w server_net \<Rightarrow> 'w conn_io \<Rightarrow> 'w proc_io
     \<Rightarrow> string list \<Rightarrow> 'w \<Rightarrow> (unit run \<times> 'w) option" where
  "tf_plain_server_main L dyn unit_arc CD N IO PR args w =
     (let port = arg_or args parse_u16 ''--port'' (default_port ''tf_plain'');
          bind = ''0.0.0.0:'' @ show_u16 port
      in serve_until_stopped N IO (eprintln PR (''bench_tf_plain_server listening on '' @ bind))
           (build_plain_server L dyn unit_arc CD N bind w))"

definition tf_enc_server_main ::
  "('st, 'tc) s_type_lib \<Rightarrow> (echo_s_type \<Rightarrow> 'st) \<Rightarrow> arc \<Rightarrow> bench_codecs \<Rightarrow> 'w server_net \<Rightarrow> 'w conn_io \<Rightarrow> 'w proc_io
     \<Rightarrow> string list \<Rightarrow> 'w \<Rightarrow> (unit run \<times> 'w) option" where
  "tf_enc_server_main L dyn unit_arc CD N IO PR args w =
     (let port = arg_or args parse_u16 ''--port'' (default_port ''tf_enc'');
          bind = ''0.0.0.0:'' @ show_u16 port
      in serve_until_stopped N IO (eprintln PR (''bench_tf_enc_server listening on '' @ bind))
           (build_enc_server L dyn unit_arc CD N bind w))"

section \<open>A connection stops, and counts what it did\<close>

text \<open>
  The world of a connection: the clock is steady, a successful round trip takes some time, and
  \<open>okc\<close>, what this connection has added to the shared counter, changes only by
  \<open>fetch_add\<close>.
\<close>

definition load_world ::
  "'w time_io \<Rightarrow> ('w \<Rightarrow> bool \<times> 'w) \<Rightarrow> ('w \<Rightarrow> 'w) \<Rightarrow> ('w \<Rightarrow> nat) \<Rightarrow> ('w \<Rightarrow> nat) \<Rightarrow> bool" where
  "load_world TM round fetch_add c okc \<longleftrightarrow>
     steady_clock TM c \<and> (\<forall>w. okc (snd (now TM w)) = okc w) \<and>
     (\<forall>w. (fst (round w) \<longrightarrow> c w < c (snd (round w))) \<and> okc (snd (round w)) = okc w) \<and>
     (\<forall>w. c w \<le> c (fetch_add w) \<and> okc (fetch_add w) = Suc (okc w))"

lemma load_world_now:
  assumes "load_world TM round fetch_add c okc" and "now TM w = (t, w')"
  shows "t = c w" and "c w \<le> c w'" and "okc w' = okc w"
  using assms steady_clock_now[of TM c w t w'] unfolding load_world_def by (auto dest: spec[of _ w])

lemma load_world_round:
  assumes "load_world TM round fetch_add c okc" and "round w = (ok, w')"
  shows "ok \<Longrightarrow> c w < c w'" and "okc w' = okc w"
  using assms unfolding load_world_def by (metis fst_conv snd_conv)+

lemma load_world_add:
  assumes "load_world TM round fetch_add c okc"
  shows "c w \<le> c (fetch_add w)" and "okc (fetch_add w) = Suc (okc w)"
  using assms by (simp_all add: load_world_def)

text \<open>How a run of the loop may end, relative to the state it started in.\<close>

definition ended_well ::
  "'h hist_lib \<Rightarrow> ('w \<Rightarrow> nat) \<Rightarrow> ('w \<Rightarrow> nat) \<Rightarrow> nat \<Rightarrow> bool \<Rightarrow> nat \<Rightarrow> nat \<Rightarrow> 'w \<Rightarrow> 'h latency_recorder \<times> 'w \<Rightarrow> bool" where
  "ended_well HL c okc deadline counted n e w rw' \<longleftrightarrow>
     (case rw' of (r, w') \<Rightarrow>
        \<exists>n' e'. recorder_reachable HL r n' e' \<and> n \<le> n' \<and>
          (e' = e \<and> deadline \<le> c w' \<or> e' = Suc e) \<and>
          okc w \<le> okc w' \<and> okc w' \<le> okc w + of_bool (\<not> counted) \<and>
          (n < n' \<longrightarrow> okc w' = okc w + of_bool (\<not> counted)))"

lemma ended_well_later:
  assumes "ended_well HL c okc deadline True n' e w' r" and "n \<le> n'"
    and "okc w' = okc w + of_bool (\<not> counted)"
  shows "ended_well HL c okc deadline counted n e w r"
proof -
  obtain rc wr m e' where r: "r = (rc, wr)" and m: "recorder_reachable HL rc m e'" "n' \<le> m"
      "e' = e \<and> deadline \<le> c wr \<or> e' = Suc e" "okc w' = okc wr"
    using assms(1) by (auto simp: ended_well_def)
  then show ?thesis
    unfolding ended_well_def r prod.case using assms(2,3) by (intro exI[of _ m] exI[of _ e']) auto
qed

lemma drive_step:
  assumes world: "load_world TM round fetch_add c okc" and reach: "recorder_reachable HL rec n e"
  shows "(\<exists>r. drive HL TM round fetch_add wd md counted rec w = Some r \<and>
            ended_well HL c okc md counted n e w r) \<or>
     (\<exists>rec' n' w'. drive HL TM round fetch_add wd md counted rec w =
            drive HL TM round fetch_add wd md True rec' w' \<and>
          recorder_reachable HL rec' n' e \<and> n \<le> n' \<and> c w < md \<and> c w < c w' \<and>
          okc w' = okc w + of_bool (\<not> counted))"
proof -
  obtain n1 w1 where 1: "now TM w = (n1, w1)" by fastforce
  obtain t w2 where 2: "now TM w1 = (t, w2)" by fastforce
  obtain ok w3 where 3: "round w2 = (ok, w3)" by fastforce
  let ?w4 = "if counted then w3 else fetch_add w3"
  obtain t' w5 where 5: "now TM ?w4 = (t', w5)" by fastforce
  note facts = load_world_now[OF world 1] load_world_now[OF world 2] load_world_round[OF world 3]
    load_world_now[OF world 5] load_world_add[OF world, of w3]
  note unfold = drive.simps[of HL TM round fetch_add wd md counted rec w]
  consider "md \<le> n1" | "\<not> md \<le> n1" "\<not> ok" | "\<not> md \<le> n1" "ok" "wd \<le> n1" | "\<not> md \<le> n1" "ok" "\<not> wd \<le> n1"
    by blast
  then show ?thesis
  proof cases
    case 1
    then show ?thesis
      using unfold reach facts(1,2,3) \<open>now TM w = (n1, w1)\<close> by (auto simp: ended_well_def)
  next
    case 2
    have "recorder_reachable HL (record_error rec) n (Suc e)" using reach by (rule reach_error)
    then show ?thesis
      using 2 unfold facts 1 \<open>now TM w1 = (t, w2)\<close> 3
      by (intro disjI1 exI[of _ "(record_error rec, w3)"]) (auto simp: ended_well_def)
  next
    case 3
    let ?rec = "record_us HL (of_nat ((t' - t) div 1000)) rec"
    have "recorder_reachable HL ?rec (Suc n) e" using reach by (rule reach_record)
    then show ?thesis
      using 3 unfold facts 1 2 5 \<open>round w2 = (ok, w3)\<close>
      by (intro disjI2 exI[of _ ?rec] exI[of _ "Suc n"] exI[of _ w5]) (auto split: if_splits)
  next
    case 4
    then show ?thesis
      using unfold facts reach 1 2 3
      by (intro disjI2 exI[of _ rec] exI[of _ n] exI[of _ ?w4]) (auto split: if_splits)
  qed
qed

lemma drive_ends:
  assumes world: "load_world TM round fetch_add c okc" and "recorder_reachable HL rec n e"
  shows "\<exists>r. drive HL TM round fetch_add wd md counted rec w = Some r \<and>
     ended_well HL c okc md counted n e w r"
  using assms(2)
proof (induction "md - c w" arbitrary: w counted rec n rule: less_induct)
  case less
  from drive_step[OF world less.prems, of wd md counted w] show ?case
  proof (elim disjE exE conjE)
    fix rec' n' w'
    assume go: "drive HL TM round fetch_add wd md counted rec w = drive HL TM round fetch_add wd md True rec' w'"
      "recorder_reachable HL rec' n' e" "n \<le> n'" "c w < md" "c w < c w'" "okc w' = okc w + of_bool (\<not> counted)"
    then have "md - c w' < md - c w" by linarith
    then obtain r where "drive HL TM round fetch_add wd md True rec' w' = Some r"
        "ended_well HL c okc md True n' e w' r"
      using less.hyps[of w' rec' n' True] go(2) by blast
    moreover from this(2) go(3) go(6) have "ended_well HL c okc md counted n e w r"
      by (rule ended_well_later)
    ultimately show ?case using go(1) by auto
  qed blast
qed

lemma drive_from_start:
  assumes "load_world TM round fetch_add c okc" and "recorder_new HL = Returned rec"
  obtains r w' n e where "drive HL TM round fetch_add wd md False rec w = Some (r, w')"
    and "count r = of_nat n" and "errors r = of_nat e" and "e = 0 \<and> md \<le> c w' \<or> e = 1"
    and "okc w \<le> okc w'" and "okc w' \<le> okc w + 1" and "0 < n \<longrightarrow> okc w' = okc w + 1"
proof -
  obtain r w' where d: "drive HL TM round fetch_add wd md False rec w = Some (r, w')"
      "ended_well HL c okc md False 0 0 w (r, w')"
    using drive_ends[OF assms(1) reach_new[OF assms(2)], of wd md False w] by auto
  then obtain n e where "recorder_reachable HL r n e" "e = 0 \<and> md \<le> c w' \<or> e = 1" "okc w \<le> okc w'"
      "okc w' \<le> okc w + 1" "0 < n \<longrightarrow> okc w' = okc w + 1"
    by (auto simp: ended_well_def)
  then show ?thesis using recorder_reachable_counts d(1) that by blast
qed

text \<open>
  What a tf connection relies on: the clock is steady and nothing turns it back, a reply that arrives within
  the time-out took some time, and only \<open>fetch_add_ok\<close> adds to what the connection has counted.
  The time-out itself is in \<open>timeout_recv\<close>, which always returns.
\<close>

definition tf_world ::
  "'w time_io \<Rightarrow> ('st, 'w) client_io \<Rightarrow> 'w load_io \<Rightarrow> ('w \<Rightarrow> nat) \<Rightarrow> ('w \<Rightarrow> nat) \<Rightarrow> bool" where
  "tf_world TM K LD c okc \<longleftrightarrow>
     steady_clock TM c \<and> kept okc (now TM) \<and>
     (\<forall>w. c w \<le> c (snd (reply_channel LD w))) \<and> kept okc (reply_channel LD) \<and>
     (\<forall>s q w. c w \<le> c (snd (mpsc_send K s q w))) \<and> (\<forall>s q. kept okc (mpsc_send K s q)) \<and>
     (\<forall>t rx w b w'. timeout_recv LD t rx w = (Some b, w') \<longrightarrow> c w < c w') \<and>
     (\<forall>t rx. kept okc (timeout_recv LD t rx)) \<and>
     (\<forall>w. c w \<le> c (fetch_add_ok LD w) \<and> okc (fetch_add_ok LD w) = Suc (okc w))"

lemma tf_world_round:
  assumes "tf_world TM K LD c okc" and "tf_round K LD dyn client data w = (ok, w')"
  shows "(ok \<longrightarrow> c w < c w') \<and> okc w' = okc w"
proof -
  obtain tx rx w1 where 1: "reply_channel LD w = ((tx, rx), w1)" by (metis surj_pair)
  let ?q = "\<lparr>req = \<lparr>dr_handler_info = handler_info_new_named ECHO_HANDLER, dr_data = data, dr_s_type = dyn Echo\<rparr>,
             consumer = tx\<rparr>"
  obtain x w2 where 2: "mpsc_send K (cc_tx client) ?q w1 = (x, w2)" by fastforce
  obtain y w3 where 3: "timeout_recv LD REQUEST_TIMEOUT rx w2 = (y, w3)" by fastforce
  have mono: "c w \<le> c w1" "c w1 \<le> c w2" and okc: "okc w1 = okc w" "okc w2 = okc w1" "okc w3 = okc w2"
    using assms(1) 1 2 3 unfolding tf_world_def kept_def by (metis snd_conv)+
  have "y = Some b \<Longrightarrow> c w2 < c w3" for b using assms(1) 3 unfolding tf_world_def by blast
  then show ?thesis
    using assms(2) 1 2 3 mono okc
    by (cases x; cases y) (auto simp: tf_round_def dispatch_request_def)
qed

lemma tf_world_load_world:
  assumes "tf_world TM K LD c okc"
  shows "load_world TM (tf_round K LD dyn client data) (fetch_add_ok LD) c okc"
  using assms tf_world_round[OF assms, of dyn client data]
  by (auto simp: load_world_def tf_world_def kept_def) (metis prod.collapse)+

text \<open>
  C29. A tf connection of the load, once connecting is over (connecting has no time-out of its own, so a
  connection may be stuck there), always stops: a failed connect is one error and nothing measured;
  otherwise the connection ends without an error only when the measurement deadline has passed, and else
  with exactly one error, and it counts itself as working at most once, and certainly when it has measured
  a round trip.
\<close>

theorem load_connection_ends:
  assumes "tf_world TM K LD c okc" and "recorder_new HL = Returned rec"
    and "to_bytes_EchoMsg LD \<lparr>em_s_type = Echo, em_data = replicate payload 0\<rparr> = Some data"
    and "client_connect_new N IO K ''localhost'' addr None cd (CM_Tcp None) 8 w = (Returned conn, w1)"
  shows "\<exists>r w' n e. tf_conn HL TM N IO K LD dyn addr payload warmup_deadline measure_deadline cd w =
       Some (Returned r, w') \<and> count r = of_nat n \<and> errors r = of_nat e \<and>
     (case conn of
        Err _ \<Rightarrow> n = 0 \<and> e = 1 \<and> w' = w1
      | Ok client \<Rightarrow>
          (e = 0 \<and> measure_deadline \<le> c w' \<or> e = 1) \<and> okc w1 \<le> okc w' \<and> okc w' \<le> okc w1 + 1 \<and>
          (0 < n \<longrightarrow> okc w' = okc w1 + 1))"
proof (cases conn)
  case (Ok client)
  obtain r w' n e where "drive HL TM (tf_round K LD dyn client data) (fetch_add_ok LD) warmup_deadline
        measure_deadline False rec w1 = Some (r, w')" "count r = of_nat n" "errors r = of_nat e"
      "e = 0 \<and> measure_deadline \<le> c w' \<or> e = 1" "okc w1 \<le> okc w'" "okc w' \<le> okc w1 + 1"
      "0 < n \<longrightarrow> okc w' = okc w1 + 1"
    using drive_from_start[OF tf_world_load_world[OF assms(1)] assms(2)] by metis
  then show ?thesis
    using assms(2-4) Ok
    by (intro exI[of _ r] exI[of _ w'] exI[of _ n] exI[of _ e]) (simp add: tf_conn_def returned_def)
next
  case (Err x)
  then show ?thesis
    using assms(2,4) recorder_reachable_counts[OF reach_error[OF reach_new[OF assms(2)]]]
    by (intro exI[of _ "record_error rec"] exI[of _ w1] exI[of _ 0] exI[of _ 1]) (simp add: tf_conn_def)
qed

section \<open>The totals of a run\<close>

text \<open>A view of the world that the clock keeps is kept by the waits and the samples of a run.\<close>

definition timer_keeps :: "'w time_io \<Rightarrow> ('w \<Rightarrow> 'v) \<Rightarrow> bool" where
  "timer_keeps TM v \<longleftrightarrow> kept v (now TM) \<and> (\<forall>d w. v (sleep TM d w) = v w)"

lemma timer_keepsD:
  assumes "timer_keeps TM v"
  shows "now TM w = (t, w') \<Longrightarrow> v w' = v w" and "v (sleep TM d w) = v w" and "v (sleep_until TM d w) = v w"
    and "sample_start TM TK pid0 w = (smp, w') \<Longrightarrow> v w' = v w"
    and "sample_finish TM TK F as_secs smp w = (x, w') \<Longrightarrow> v w' = v w"
proof -
  show "now TM w = (t, w') \<Longrightarrow> v w' = v w" for t w w' using assms keptD unfolding timer_keeps_def by metis
  then show "v (sleep TM d w) = v w" "v (sleep_until TM d w) = v w"
      "sample_start TM TK pid0 w = (smp, w') \<Longrightarrow> v w' = v w"
      "sample_finish TM TK F as_secs smp w = (x, w') \<Longrightarrow> v w' = v w"
    using assms
    by (auto simp: timer_keeps_def sleep_until_def sample_start_def sample_finish_def split: option.splits prod.splits)
qed

text \<open>
  The tasks of a run.  \<open>started\<close> lists the tasks that were spawned with what they were given; every task
  finishes, what joining it gives depends on the task alone, a task may have panicked only when that does not
  abort the program, and a task that did not panic has recorded \<open>cn\<close> round trips and \<open>en\<close> errors.
\<close>

type_synonym conn_args = "string \<times> string \<times> nat \<times> nat \<times> nat"

definition task_results ::
  "'h hist_lib \<Rightarrow> ('h, 'w) task_io \<Rightarrow> ('w \<Rightarrow> (nat \<times> conn_args) list) \<Rightarrow> (nat \<Rightarrow> 'h latency_recorder run)
     \<Rightarrow> (nat \<Rightarrow> nat) \<Rightarrow> (nat \<Rightarrow> nat) \<Rightarrow> bool" where
  "task_results HL TK started res cn en \<longleftrightarrow>
     (\<forall>a w. started (snd (spawn_conn TK a w)) = started w @ [(fst (spawn_conn TK a w), a)]) \<and>
     (\<forall>h w. \<exists>w'. join_conn TK h w = Some (res h, w') \<and> started w' = started w) \<and>
     (\<forall>h. case res h of
        Returned r \<Rightarrow> recorder_reachable HL r (cn h) (en h)
      | Panicked \<Rightarrow> \<not> panics_abort TK \<and> cn h = 0 \<and> en h = 0)"

lemma spawn_all_starts:
  assumes "task_results HL TK started res cn en"
  shows "spawn_all TK a n w = (hs, w') \<Longrightarrow> length hs = n \<and> started w' = started w @ map (\<lambda>h. (h, a)) hs"
proof (induction n arbitrary: w hs)
  case (Suc n)
  obtain h w1 where 1: "spawn_conn TK a w = (h, w1)" by fastforce
  then have "started w1 = started w @ [(h, a)]"
    using assms unfolding task_results_def by (metis fst_conv snd_conv)
  then show ?case using Suc 1 by (fastforce split: prod.splits)
qed simp

lemma join_all_total:
  assumes "task_results HL TK started res cn en"
  shows "recorder_reachable HL rec n e \<Longrightarrow> \<exists>rec' w'. join_all HL TK hs rec w = Some (Returned rec', w') \<and>
     started w' = started w \<and>
     recorder_reachable HL rec' (n + sum_list (map cn hs)) (e + sum_list (map en hs))"
proof (induction hs arbitrary: rec n e w)
  case (Cons h hs)
  obtain w1 where j: "join_conn TK h w = Some (res h, w1)" "started w1 = started w"
    using assms unfolding task_results_def by blast
  have v: "case res h of Returned r \<Rightarrow> recorder_reachable HL r (cn h) (en h)
      | Panicked \<Rightarrow> \<not> panics_abort TK \<and> cn h = 0 \<and> en h = 0"
    using assms unfolding task_results_def by blast
  show ?case
  proof (cases "res h")
    case (Returned r)
    then have "recorder_reachable HL (merge HL r rec) (n + cn h) (e + en h)"
      using v Cons.prems by (simp add: reach_merge)
    from Cons.IH[OF this, of w1] Returned j show ?thesis by (simp add: add.assoc)
  next
    case Panicked
    then show ?thesis using v Cons.IH[OF Cons.prems, of w1] j by simp
  qed
qed simp

text \<open>
  C28. When its tasks finish, a run returns.  It has spawned exactly one connection task per requested
  connection, each with the target, the address, the payload and the two deadlines counted from the run's
  start, and the totals it reports are the sums over these tasks, those that died aside, of the round
  trips they measured and of their errors; the merged histogram holds exactly one value for every measured
  round trip.
\<close>

theorem run_load_totals:
  assumes "task_results HL TK started res cn en" and "timer_keeps TM started"
    and "hist_laws HL len" and "recorder_new HL = Returned rec0"
    and "after_secs (fst (now TM w)) warmup_s = Returned wd" and "after_secs wd duration_s = Returned md"
  shows "\<exists>out w' hs. run_load HL TM TK F after_secs as_secs target addr conns payload duration_s warmup_s pid0 w =
       Some (Returned out, w') \<and> length hs = conns \<and>
     started w' = started w @ map (\<lambda>h. (h, target, addr, payload, wd, md)) hs \<and>
     count (o_rec out) = of_nat (sum_list (map cn hs)) \<and> errors (o_rec out) = of_nat (sum_list (map en hs)) \<and>
     len (hist (o_rec out)) = sum_list (map cn hs) \<and> o_ok_conns out = ok_load TK w'"
proof -
  obtain start w1 where 1: "now TM w = (start, w1)" by fastforce
  obtain hs w2 where 2: "spawn_all TK (target, addr, payload, wd, md) conns w1 = (hs, w2)"
    by fastforce
  obtain smp w3 where 3: "sample_start TM TK pid0 (sleep_until TM wd w2) = (smp, w3)" by fastforce
  obtain cpu rss w4 where 4: "sample_finish TM TK F as_secs smp (sleep_until TM md w3) = ((cpu, rss), w4)"
    by (metis surj_pair)
  obtain rec w5 where 5: "join_all HL TK hs rec0 w4 = Some (Returned rec, w5)" "started w5 = started w4"
      "recorder_reachable HL rec (sum_list (map cn hs)) (sum_list (map en hs))"
    using join_all_total[OF assms(1) reach_new[OF assms(4)], of hs w4] by auto
  note keeps = timer_keepsD[OF assms(2)]
  have "started w5 = started w @ map (\<lambda>h. (h, target, addr, payload, wd, md)) hs" "length hs = conns"
    using keeps(1)[OF 1] spawn_all_starts[OF assms(1) 2] keeps(4)[OF 3] keeps(5)[OF 4] keeps(3) 5(2) by simp_all
  then show ?thesis
    using recorder_reachable_counts[OF 5(3)] recorder_reachable_len[OF 5(3) assms(3)]
    using assms(5)[unfolded 1 fst_conv] by (simp add: run_load_def 1 2 3 4 5(1) assms(4,6)) (rule exI[of _ hs], simp)
qed

section \<open>The program starts and stops its server\<close>

text \<open>
  C40. A run whose last argument is \<^verbatim>\<open>--no-spawn\<close>, as in the usage text of the program,
  starts the server all the same: a flag without a value after it is not seen.
\<close>

theorem no_spawn_as_last_argument_ignored:
  assumes "\<forall>a\<in>set args. \<not> names_flag ''--no-spawn'' a"
  shows "spawn_server (args @ [''--no-spawn''])"
  using flag_value_skip[OF assms, of "[''--no-spawn'']"]
  by (simp add: spawn_server_def arg_eq_flag_value flag_value_last)

definition usage_example :: "string list" where
  "usage_example = [''bench_runner'', ''--target'', ''axum'', ''--conns'', ''1000'', ''--payload'', ''1024'',
     ''--duration'', ''10'']"

theorem no_spawn_as_last_argument_ignored_witness: "spawn_server (usage_example @ [''--no-spawn''])"
  by (rule no_spawn_as_last_argument_ignored) (simp add: usage_example_def names_flag_def)

text \<open>
  \<open>only_kill_kills\<close>: \<open>killed\<close> tells whether the server child was sent the kill signal; only
  \<open>child_kill\<close> changes it.
\<close>

definition only_kill_kills ::
  "'w time_io \<Rightarrow> ('h, 'w) task_io \<Rightarrow> 'w proc_io \<Rightarrow> (string \<Rightarrow> 'w \<Rightarrow> bool \<times> 'w) \<Rightarrow> nat \<Rightarrow> ('w \<Rightarrow> bool) \<Rightarrow> bool" where
  "only_kill_kills TM TK PR try_connect ch killed \<longleftrightarrow>
     timer_keeps TM killed \<and> (\<forall>a. kept killed (spawn_conn TK a)) \<and> (\<forall>h. kept_if_done killed (join_conn TK h)) \<and>
     (\<forall>t. kept killed (eprintln PR t)) \<and> (\<forall>t. kept killed (println PR t)) \<and> (\<forall>a. kept killed (try_connect a)) \<and>
     (\<forall>w. killed (child_kill PR ch w)) \<and> (\<forall>w. killed (child_wait PR ch w) = killed w)"

lemma only_kill_killsD:
  assumes "only_kill_kills TM TK PR try_connect ch killed"
  shows "timer_keeps TM killed" and "spawn_conn TK a w = (h, w') \<Longrightarrow> killed w' = killed w"
    and "join_conn TK h w = Some (r, w') \<Longrightarrow> killed w' = killed w"
    and "eprintln PR t w = (u, w') \<Longrightarrow> killed w' = killed w" and "println PR t w = (u, w') \<Longrightarrow> killed w' = killed w"
    and "try_connect ad w = (b, w') \<Longrightarrow> killed w' = killed w"
    and "killed (child_wait PR ch (child_kill PR ch w))"
  using assms keptD kept_if_doneD unfolding only_kill_kills_def by metis+

lemma spawn_all_keeps:
  assumes "only_kill_kills TM TK PR try_connect ch killed"
  shows "spawn_all TK a n w = (hs, w') \<Longrightarrow> killed w' = killed w"
  by (induction n arbitrary: w hs) (auto dest: only_kill_killsD(2)[OF assms] split: prod.splits)

lemma join_all_keeps:
  assumes "only_kill_kills TM TK PR try_connect ch killed"
  shows "join_all HL TK hs rec w = Some (r, w') \<Longrightarrow> killed w' = killed w"
  by (induction hs arbitrary: rec w) (auto dest: only_kill_killsD(3)[OF assms] split: outcome_splits)

lemma run_load_keeps:
  assumes "only_kill_kills TM TK PR try_connect ch killed"
    and "run_load HL TM TK F after_secs as_secs target addr conns payload duration_s warmup_s pid0 w = Some (r, w')"
  shows "killed w' = killed w"
proof -
  note keeps = timer_keepsD[OF only_kill_killsD(1)[OF assms(1)]] spawn_all_keeps[OF assms(1)] join_all_keeps[OF assms(1)]
  show ?thesis
    using assms(2)
    by (auto simp: run_load_def Let_def keeps(3) split: outcome_splits dest!: keeps(1,4-7))
qed

lemma wait_loop_keeps:
  assumes "only_kill_kills TM TK PR try_connect ch killed"
    and "wait_loop TM try_connect addr deadline w = Some (b, w')"
  shows "killed w' = killed w"
proof -
  let ?P = "\<lambda>TM' f ad d w0 bw. TM' = TM \<and> f = try_connect \<longrightarrow> killed (snd bw) = killed w0"
  have "?P TM try_connect addr deadline w (b, w')"
  proof (rule wait_loop.raw_induct[OF _ assms(2), where P = ?P], intro impI)
    fix loop TM' f ad d w0 bw
    assume IH: "\<And>TM' f ad d w0 bw. loop TM' f ad d w0 = Some bw \<Longrightarrow> ?P TM' f ad d w0 bw"
      and run: "(case now TM' w0 of (t, w1) \<Rightarrow>
          if t < d then case f ad w1 of (ok, w2) \<Rightarrow>
            if ok then Some (True, w2) else loop TM' f ad d (sleep TM' (millis 50) w2)
          else Some (False, w1)) = Some bw"
      and same: "TM' = TM \<and> f = try_connect"
    obtain t w1 ok w2 where 1: "now TM w0 = (t, w1)" "try_connect ad w1 = (ok, w2)" by fastforce
    show "killed (snd bw) = killed w0"
      using run same IH[of TM try_connect ad d "sleep TM (millis 50) w2" bw] only_kill_killsD(6)[OF assms(1) 1(2)]
        timer_keepsD(1)[OF only_kill_killsD(1)[OF assms(1)] 1(1)] timer_keepsD(2)[OF only_kill_killsD(1)[OF assms(1)]]
      by (auto simp: 1 split: if_splits)
  qed
  then show ?thesis by simp
qed

lemma wait_for_port_keeps:
  assumes "only_kill_kills TM TK PR try_connect ch killed"
    and "wait_for_port TM try_connect addr timeout w = Some (b, w')"
  shows "killed w' = killed w"
  using assms(2) timer_keepsD(1)[OF only_kill_killsD(1)[OF assms(1)]] wait_loop_keeps[OF assms(1)]
  by (auto simp: wait_for_port_def split: prod.splits) 

lemma report_kills:
  assumes "only_kill_kills TM TK PR try_connect ch killed" and "report PR (Some ch) fmt result w = (en, w')" and "\<not> killed w"
  shows "if en = MainPanicked then \<not> killed w'
     else en = Finished \<and> (\<exists>w0. w' = child_wait PR ch (child_kill PR ch w0))"
  using assms(2,3) only_kill_killsD(4,5)[OF assms(1)]
  by (auto simp: report_def kill_def split: outcome_splits)

text \<open>
  C30. A runner that has started its server stops it before it ends: when it ends with exit code 1, because the
  server did not become ready, or with the report, its last act was to kill the server and to wait for it.
  The one exception is a panic (a print on a closed output, a time that cannot be represented, a panicking task
  in a build whose panics abort): then the server was never killed and is left running.
\<close>

theorem runner_stops_its_server:
  assumes "only_kill_kills TM TK PR try_connect ch killed"
    and "arg args ''--target'' = Some target" and "port = arg_or args parse_u16 ''--port'' (default_port target)"
    and "start_child PR args target port w = (Ok (Some ch), w1)" and "\<not> killed w1"
    and "runner_main HL TM TK F after_secs as_secs PR try_connect parse_f64 ten three fmt args w = Some (en, w')"
  shows "if en = MainPanicked then \<not> killed w'
     else en \<in> {Finished, ExitCode 1} \<and> (\<exists>w0. w' = child_wait PR ch (child_kill PR ch w0))"
proof -
  note kill = only_kill_killsD(4)[OF assms(1)] timer_keepsD(2)[OF only_kill_killsD(1)[OF assms(1)]]
  let ?addr = "''127.0.0.1:'' @ show_u16 port"
  obtain b w2 where wait: "wait_for_port TM try_connect ?addr (secs 30) w1 = Some (b, w2)"
    using assms(2,4,6) unfolding runner_main_def assms(3)[symmetric]
    by (auto simp: Let_def assms(3)[symmetric] split: option.splits)
  then have w2: "\<not> killed w2" using wait_for_port_keeps[OF assms(1) wait] assms(5) by simp
  show ?thesis
  proof (cases b)
    case False
    then show ?thesis
      using assms(2,4,6) wait w2 kill(1) unfolding runner_main_def assms(3)[symmetric]
      by (auto simp: Let_def kill_def assms(3)[symmetric] split: outcome_splits)
  next
    case True
    then show ?thesis
      using assms(2,4,6) wait w2 kill(2) unfolding runner_main_def assms(3)[symmetric]
      by (auto simp: Let_def assms(3)[symmetric] split: outcome_splits
          dest!: run_load_keeps[OF assms(1)] dest: report_kills[OF assms(1)])
  qed
qed

lemma join_all_returns:
  assumes "\<forall>h w. \<exists>r w'. join_conn TK h w = Some (r, w') \<and> (r = Panicked \<longrightarrow> \<not> panics_abort TK)"
  shows "\<exists>rec' w'. join_all HL TK hs rec w = Some (Returned rec', w')"
proof (induction hs arbitrary: rec w)
  case (Cons h hs)
  obtain r w1 where "join_conn TK h w = Some (r, w1)" "r = Panicked \<longrightarrow> \<not> panics_abort TK" using assms by blast
  then show ?case using Cons.IH[of _ w1] by (cases r) auto
qed simp

lemma run_load_returns:
  assumes "\<forall>h w. \<exists>r w'. join_conn TK h w = Some (r, w') \<and> (r = Panicked \<longrightarrow> \<not> panics_abort TK)"
    and "recorder_new HL = Returned rec0"
    and "\<forall>t. \<exists>wd. after_secs t warmup_s = Returned wd" and "\<forall>t. \<exists>md. after_secs t duration_s = Returned md"
  shows "\<exists>out w'. run_load HL TM TK F after_secs as_secs target addr conns payload duration_s warmup_s pid0 w =
     Some (Returned out, w')"
proof -
  obtain start w1 where 1: "now TM w = (start, w1)" by fastforce
  obtain wd md where d: "after_secs start warmup_s = Returned wd" "after_secs wd duration_s = Returned md"
    using assms(3,4) by metis
  obtain hs w2 where 2: "spawn_all TK (target, addr, payload, wd, md) conns w1 = (hs, w2)" by fastforce
  obtain smp w3 where 3: "sample_start TM TK pid0 (sleep_until TM wd w2) = (smp, w3)" by fastforce
  obtain cpu rss w4 where 4: "sample_finish TM TK F as_secs smp (sleep_until TM md w3) = ((cpu, rss), w4)"
    by (metis surj_pair)
  obtain rec' w5 where "join_all HL TK hs rec0 w4 = Some (Returned rec', w5)"
    using join_all_returns[OF assms(1)] by metis
  then show ?thesis by (simp add: run_load_def 1 2 3 4 d assms(2))
qed

lemma runner_reports:
  assumes "\<forall>h w. \<exists>r w'. join_conn TK h w = Some (r, w') \<and> (r = Panicked \<longrightarrow> \<not> panics_abort TK)"
    and "arg args ''--target'' = Some target" and "port = arg_or args parse_u16 ''--port'' (default_port target)"
    and "start_child PR args target port w = (Ok (Some ch), w1)"
    and "wait_for_port TM try_connect (''127.0.0.1:'' @ show_u16 port) (secs 30) w1 = Some (True, w2)"
    and "recorder_new HL = Returned rec0"
    and "\<forall>t. \<exists>wd. after_secs t (arg_or args parse_f64 ''--warmup'' three) = Returned wd"
    and "\<forall>t. \<exists>md. after_secs t (arg_or args parse_f64 ''--duration'' ten) = Returned md"
  obtains result w4 where "runner_main HL TM TK F after_secs as_secs PR try_connect parse_f64 ten three fmt args w =
     Some (report PR (Some ch) fmt result w4)"
proof -
  let ?addr = "''127.0.0.1:'' @ show_u16 port" and ?w3 = "sleep TM (millis 300) w2"
  obtain out w4 where "run_load HL TM TK F after_secs as_secs target ?addr (unat (arg_or args parse_u64 ''--conns'' 256))
      (unat (arg_or args parse_u64 ''--payload'' 64)) (arg_or args parse_f64 ''--duration'' ten)
      (arg_or args parse_f64 ''--warmup'' three) (child_pid PR ch ?w3) ?w3 = Some (Returned out, w4)"
    using run_load_returns[where after_secs = after_secs and TM = TM and TK = TK, OF assms(1,6-8)] by blast
  then show thesis
    using assms(2,4,5) that unfolding runner_main_def assms(3)[symmetric]
    by (auto simp: Let_def assms(3)[symmetric])
qed

text \<open>
  C31. A run that has started its server comes to an end, with exit code 1 or the report and the server killed,
  provided that nothing it waits for hangs or panics: every connection task finishes, none panics in a build
  whose panics abort, the output accepts what is printed, and the deadlines it computes can be represented.
\<close>

theorem runner_ends:
  assumes "steady_clock TM c" and "\<forall>w. c w \<le> c (snd (try_connect (''127.0.0.1:'' @ show_u16 port) w))"
    and "\<forall>h w. \<exists>r w'. join_conn TK h w = Some (r, w') \<and> (r = Panicked \<longrightarrow> \<not> panics_abort TK)"
    and "\<forall>t w. fst (eprintln PR t w) = Returned () \<and> fst (println PR t w) = Returned ()"
    and "arg args ''--target'' = Some target" and "port = arg_or args parse_u16 ''--port'' (default_port target)"
    and "start_child PR args target port w = (Ok (Some ch), w1)"
    and "recorder_new HL = Returned rec0"
    and "\<forall>t. \<exists>wd. after_secs t (arg_or args parse_f64 ''--warmup'' three) = Returned wd"
    and "\<forall>t. \<exists>md. after_secs t (arg_or args parse_f64 ''--duration'' ten) = Returned md"
  shows "\<exists>en w0. runner_main HL TM TK F after_secs as_secs PR try_connect parse_f64 ten three fmt args w =
       Some (en, child_wait PR ch (child_kill PR ch w0)) \<and> en \<in> {Finished, ExitCode 1}"
proof -
  let ?addr = "''127.0.0.1:'' @ show_u16 port"
  have say: "\<exists>v. eprintln PR t u = (Returned (), v)" "\<exists>v. println PR t u = (Returned (), v)" for t u
    using assms(4) by (metis prod.collapse)+
  obtain b w2 where wait: "wait_for_port TM try_connect ?addr (secs 30) w1 = Some (b, w2)"
    using wait_for_port_returns[where tcp_connect = try_connect and addr = ?addr, OF assms(1,2), of "secs 30" w1]
    by blast
  show ?thesis
  proof (cases b)
    case True
    note wait_True = wait[unfolded eqTrueI[OF True]]
    obtain result w4 where 1: "runner_main HL TM TK F after_secs as_secs PR try_connect parse_f64 ten three fmt args w =
        Some (report PR (Some ch) fmt result w4)"
      using runner_reports[OF assms(3,5-7) wait_True assms(8-10)] by blast
    obtain u v where "eprintln PR (summary fmt result) w4 = (Returned (), u)"
        "println PR (result_line fmt result) u = (Returned (), v)"
      using say by metis
    then show ?thesis by (simp add: 1 report_def kill_def) blast
  next
    case False
    obtain v where "eprintln PR (''server '' @ target @ '' did not become ready on '' @ ?addr) w2 = (Returned (), v)"
      using say(1) by blast
    then show ?thesis
      using False assms(5,7) wait unfolding runner_main_def assms(6)[symmetric]
      by (auto simp: Let_def kill_def assms(6)[symmetric])
  qed
qed

section \<open>Examples\<close>

text \<open>
  A world with the time, the shared counter, the spawned tasks and the child's fate, in which a round trip takes
  a millisecond.
\<close>

record load_sample =
  ls_time :: nat
  ls_ok :: nat
  ls_started :: "(nat \<times> conn_args) list"
  ls_killed :: bool

definition sample_world0 :: load_sample where
  "sample_world0 = \<lparr>ls_time = 0, ls_ok = 0, ls_started = [], ls_killed = False\<rparr>"

definition sample_time :: "load_sample time_io" where
  "sample_time = \<lparr>now = \<lambda>w. (ls_time w, w), sleep = \<lambda>d w. w\<lparr>ls_time := ls_time w + d\<rparr>\<rparr>"

definition sample_queue :: "(unit, load_sample) client_io" where
  "sample_queue =
     \<lparr>fmt_router_error = \<lambda>e. [], consumer_send = \<lambda>s b w. (Ok (), w), consumer_drop = \<lambda>s w. w,
      mpsc_channel = \<lambda>n w. (Returned (0, 0), w), mpsc_send = \<lambda>s q w. (Ok (), w), mpsc_recv = \<lambda>r w. (None, w),
      spawn_client = \<lambda>t w. w\<rparr>"

definition sample_replies :: "load_sample load_io" where
  "sample_replies =
     \<lparr>reply_channel = \<lambda>w. ((0, 0), w), timeout_recv = \<lambda>t r w. (Some [], w\<lparr>ls_time := ls_time w + millis 1\<rparr>),
      fetch_add_ok = \<lambda>w. w\<lparr>ls_ok := Suc (ls_ok w)\<rparr>, to_bytes_EchoMsg = \<lambda>m. Some (8 # em_data m)\<rparr>"

lemma sample_tf_world: "tf_world sample_time sample_queue sample_replies ls_time ls_ok"
  by (auto simp: tf_world_def steady_clock_def kept_def sample_time_def sample_queue_def sample_replies_def millis_def)

theorem load_connection_ends_witness:
  "\<exists>r w' n e. tf_conn list_hist sample_time ready_net ready_io sample_queue sample_replies (\<lambda>_. ()) ''127.0.0.1:19001'' 2
       (millis 1) (millis 3) 0 sample_world0 = Some (Returned r, w') \<and>
     count r = of_nat n \<and> errors r = of_nat e \<and> (e = 0 \<and> millis 3 \<le> ls_time w' \<or> e = 1) \<and>
     ls_ok w' \<le> 1 \<and> (0 < n \<longrightarrow> ls_ok w' = 1)"
proof -
  have "client_connect_new ready_net ready_io sample_queue ''localhost'' ''127.0.0.1:19001'' None 0 (CM_Tcp None) 8
      sample_world0 = (Returned (Ok \<lparr>cc_tx = 0\<rparr>), sample_world0)"
    by (simp add: client_connect_new_def connect_def ready_net_def ready_io_def connection_main_def sample_queue_def)
  moreover have "to_bytes_EchoMsg sample_replies \<lparr>em_s_type = Echo, em_data = replicate 2 0\<rparr> = Some [8, 0, 0]"
    by (simp add: sample_replies_def numeral_2_eq_2)
  ultimately show ?thesis
    using load_connection_ends[OF sample_tf_world list_hist_new, of 2 "[8, 0, 0]" ready_net ready_io "''127.0.0.1:19001''"
        0 sample_world0 "Ok \<lparr>cc_tx = 0\<rparr>" sample_world0 "\<lambda>_. ()" "millis 1" "millis 3"]
    by (simp add: sample_world0_def)
qed

definition sample_tasks :: "(u64 list, load_sample) task_io" where
  "sample_tasks =
     \<lparr>spawn_conn = \<lambda>a w. (length (ls_started w), w\<lparr>ls_started := ls_started w @ [(length (ls_started w), a)]\<rparr>),
      join_conn = \<lambda>h w. Some (Returned sample_recorder, w), panics_abort = True,
      ok_load = \<lambda>w. of_nat (ls_ok w), files = \<lambda>_ _. None\<rparr>"

lemma sample_task_results:
  "task_results list_hist sample_tasks ls_started (\<lambda>_. Returned sample_recorder) (\<lambda>_. 2) (\<lambda>_. 1)"
  using sample_recorder_reachable by (simp add: task_results_def sample_tasks_def)

lemma sample_timer_keeps: "timer_keeps sample_time ls_started"
  by (simp add: timer_keeps_def kept_def sample_time_def)

text \<open>Whole numbers in place of floating point numbers.\<close>

definition nat_f64 :: "nat f64_lib" where
  "nat_f64 = \<lparr>of_u64 = unat, f_div = (div), f_mul = (*), f_max = max, f_zero = 0, f_micro = 1,
     f_hundred = 100, f_kibi = 1024\<rparr>"

theorem run_load_totals_witness:
  "\<exists>out w' hs. run_load list_hist sample_time sample_tasks nat_f64 (\<lambda>t d. Returned (t + secs d)) (\<lambda>t. t)
       ''tf_plain'' ''127.0.0.1:19001'' 3 64 10 1 None sample_world0 = Some (Returned out, w') \<and> length hs = 3 \<and>
     ls_started w' = ls_started sample_world0 @
       map (\<lambda>h. (h, ''tf_plain'', ''127.0.0.1:19001'', 64, fst (now sample_time sample_world0) + secs 1,
         fst (now sample_time sample_world0) + secs 1 + secs 10)) hs \<and>
     count (o_rec out) = of_nat (sum_list (map (\<lambda>_. 2) hs)) \<and>
     errors (o_rec out) = of_nat (sum_list (map (\<lambda>_. 1) hs)) \<and>
     length (hist (o_rec out)) = sum_list (map (\<lambda>_. 2) (hs :: nat list)) \<and> o_ok_conns out = ok_load sample_tasks w'"
  by (rule run_load_totals[OF sample_task_results sample_timer_keeps list_hist_laws list_hist_new]) (rule refl)+

definition sample_procs :: "load_sample proc_io" where
  "sample_procs = \<lparr>spawn_child = \<lambda>path args w. (Ok 7, w), child_pid = \<lambda>c w. Some c,
     child_kill = \<lambda>c w. w\<lparr>ls_killed := True\<rparr>, child_wait = \<lambda>c w. w\<lparr>ls_time := ls_time w + 1\<rparr>,
     eprintln = \<lambda>s w. (Returned (), w), println = \<lambda>s w. (Returned (), w), exe_path = None,
     path_parent = \<lambda>_. None, path_join = \<lambda>d b. d @ ''/'' @ b\<rparr>"

text \<open>The same processes when the reader of the standard output has gone.\<close>

definition closed_stdout :: "load_sample proc_io" where
  "closed_stdout = sample_procs\<lparr>println := \<lambda>s w. (Panicked, w)\<rparr>"

definition tf_plain_args :: "string list" where
  "tf_plain_args = [''bench_runner'', ''--target'', ''tf_plain'']"

lemma tf_plain_target: "arg tf_plain_args ''--target'' = Some ''tf_plain''"
  by (simp add: tf_plain_args_def arg_eq_flag_value flag_value_def names_flag_def)

lemma tf_plain_child:
  "start_child sample_procs tf_plain_args ''tf_plain'' port w = (Ok (Some 7), w)"
  "start_child closed_stdout tf_plain_args ''tf_plain'' port w = (Ok (Some 7), w)"
  by (simp_all add: start_child_def spawn_server_def arg_eq_flag_value flag_value_def tf_plain_args_def
        names_flag_def server_bin_def sample_procs_def closed_stdout_def)

lemma tf_plain_waits:
  "wait_for_port sample_time (\<lambda>_ w. (True, w)) addr (secs 30) w = Some (True, w)"
  by (simp add: wait_for_port_def wait_loop.simps sample_time_def secs_def millis_def)

lemma sample_only_kill_kills: "only_kill_kills sample_time sample_tasks closed_stdout (\<lambda>_ w. (True, w)) 7 ls_killed"
  by (simp add: only_kill_kills_def timer_keeps_def kept_def kept_if_done_def sample_time_def sample_tasks_def
      closed_stdout_def sample_procs_def)

theorem runner_stops_its_server_witness:
  "\<exists>w'. runner_main list_hist sample_time sample_tasks nat_f64 (\<lambda>t d. Returned (t + secs d)) (\<lambda>t. t) closed_stdout
       (\<lambda>_ w. (True, w)) (\<lambda>_. None) 10 3 (\<lambda>_. show_nat) tf_plain_args sample_world0 = Some (MainPanicked, w') \<and>
     \<not> ls_killed w'"
proof -
  have joins: "\<forall>h w. \<exists>r w'. join_conn sample_tasks h w = Some (r, w') \<and> (r = Panicked \<longrightarrow> \<not> panics_abort sample_tasks)"
    by (simp add: sample_tasks_def)
  have times: "\<forall>t. \<exists>d. (\<lambda>t x. Returned (t + secs x)) t (y :: nat) = Returned d" for y by simp
  obtain result w4 where 1: "runner_main list_hist sample_time sample_tasks nat_f64 (\<lambda>t d. Returned (t + secs d)) (\<lambda>t. t)
      closed_stdout (\<lambda>_ w. (True, w)) (\<lambda>_. None) 10 3 (\<lambda>_. show_nat) tf_plain_args sample_world0 =
      Some (report closed_stdout (Some 7) (\<lambda>_. show_nat) result w4)"
    by (rule runner_reports[OF joins tf_plain_target refl tf_plain_child(2) tf_plain_waits list_hist_new times(1) times(1)])
  have "report closed_stdout (Some 7) (\<lambda>_. show_nat) result w4 = (MainPanicked, w4)"
    by (simp add: report_def closed_stdout_def sample_procs_def)
  note ends = 1[unfolded this]
  have "\<not> ls_killed sample_world0" by (simp add: sample_world0_def)
  from runner_stops_its_server[OF sample_only_kill_kills tf_plain_target refl tf_plain_child(2) this ends]
  show ?thesis using ends by simp
qed

theorem runner_ends_witness:
  "\<exists>en w0. runner_main list_hist sample_time sample_tasks nat_f64 (\<lambda>t d. Returned (t + secs d)) (\<lambda>t. t) sample_procs
       (\<lambda>_ w. (True, w)) (\<lambda>_. None) 10 3 (\<lambda>_. show_nat) tf_plain_args sample_world0 =
       Some (en, child_wait sample_procs 7 (child_kill sample_procs 7 w0)) \<and> en \<in> {Finished, ExitCode 1}"
  by (rule runner_ends[where c = ls_time, OF _ _ _ _ tf_plain_target refl tf_plain_child(1) list_hist_new])
     (simp_all add: steady_clock_def sample_time_def sample_tasks_def sample_procs_def)

end
