(* ===== verification/Bench_Peers.thy ===== *)
theory Bench_Peers
  imports Bench_Runner
begin

text \<open>
  The servers the benchmark compares with: \<^verbatim>\<open>benches/axum_server.rs\<close>,
  \<^verbatim>\<open>benches/actix_server.rs\<close> and \<^verbatim>\<open>benches/lynn_server.rs\<close>.  The three frameworks
  are parameters: an operation that listens for ever gives \<open>None\<close>.  The handlers, the configuration
  and the port are the programs' own.
\<close>

section \<open>axum and actix\<close>








section \<open>lynn\<close>











section \<open>The runner and the servers\<close>





end
