(* ===== verification/Bench_Load.thy ===== *)
theory Bench_Load
  imports Bench_Runner
begin

text \<open>
  A connection of the load generator against the echo server.  The connection's loop, the client's task and the
  server's connection run concurrently: the loop puts a request into the queue and waits for its reply, while
  it waits the client's task takes the request and works it over a link on which the server's side takes
  turns under an arbitrary schedule.  The queue may refuse the request, and the wait may time out, before the
  request was answered or after it.
\<close>

section \<open>The loop\<close>

text \<open>
  The loop of a connection goes on to the deadline while round trips succeed, and stops at the first that fails.
  \<open>R n w\<close> is an invariant of the world after \<open>n\<close> successful round trips, \<open>Q n w\<close> holds when
  the next one has failed.
\<close>

lemma drive_until_failure:
  assumes now: "\<And>n w t w'. R n w \<Longrightarrow> now TM w = (t, w') \<Longrightarrow> R n w' \<and> t = c w \<and> c w \<le> c w'"
    and round: "\<And>n w. R n w \<Longrightarrow> \<exists>ok w'. round w = (ok, w') \<and> (if ok then R (Suc n) w' \<and> c w < c w' else Q n w')"
    and add: "\<And>n w. R n w \<Longrightarrow> R n (fetch_add w) \<and> c w \<le> c (fetch_add w)"
  shows "R n w \<Longrightarrow> recorder_reachable HL rec k e \<Longrightarrow> k \<le> n \<Longrightarrow>
     \<exists>r w' n' k'. drive HL TM round fetch_add wd md counted rec w = Some (r, w') \<and> k' \<le> n' \<and>
       (R n' w' \<and> md \<le> c w' \<and> recorder_reachable HL r k' e \<or> Q n' w' \<and> recorder_reachable HL r k' (Suc e))"
proof (induction "md - c w" arbitrary: n w counted rec k rule: less_induct)
  case less
  obtain n1 w1 where 1: "now TM w = (n1, w1)" by fastforce
  obtain t w2 where 2: "now TM w1 = (t, w2)" by fastforce
  note n1 = now[OF less.prems(1) 1]
  note n2 = now[OF conjunct1[OF n1] 2]
  obtain ok w3 where 3: "round w2 = (ok, w3)" "if ok then R (Suc n) w3 \<and> c w2 < c w3 else Q n w3"
    using round n2 by blast
  note unfold = drive.simps[of HL TM round fetch_add wd md counted rec w, unfolded 1 prod.case 2 3(1)]
  consider "md \<le> n1" | "\<not> md \<le> n1" "\<not> ok" | "\<not> md \<le> n1" "ok" by blast
  then show ?case
  proof cases
    case 1
    then show ?thesis using unfold n1 less.prems(2,3)
      by (intro exI[of _ rec] exI[of _ w1] exI[of _ n] exI[of _ k]) auto
  next
    case 2
    have "recorder_reachable HL (record_error rec) k (Suc e)" using less.prems(2) by (rule reach_error)
    then show ?thesis using 2 unfold 3(2) less.prems(3)
      by (intro exI[of _ "record_error rec"] exI[of _ w3] exI[of _ n] exI[of _ k]) simp
  next
    case going: 3
    define w4 where "w4 = (if counted then w3 else fetch_add w3)"
    have 4: "R (Suc n) w4" "c w3 \<le> c w4" using add[of "Suc n" w3] 3(2) going(2) by (auto simp: w4_def)
    obtain t' w5 where 5: "now TM w4 = (t', w5)" by fastforce
    note n5 = now[OF 4(1) 5]
    have lt: "md - c w4 < md - c w" "md - c w5 < md - c w" using n1 n2 n5 3(2) going 4(2) by auto
    show ?thesis
    proof (cases "wd \<le> n1")
      case True
      have "recorder_reachable HL (record_us HL (of_nat ((t' - t) div 1000)) rec) (Suc k) e"
        using less.prems(2) by (rule reach_record)
      then show ?thesis
        using unfold going True 5 less.hyps[OF lt(2), of "Suc n" _ "Suc k" True] n5 less.prems(3) by (simp add: w4_def)
    next
      case False
      then show ?thesis
        using unfold going less.hyps[OF lt(1) 4(1) less.prems(2), of True] less.prems(3) by (simp add: w4_def)
    qed
  qed
qed

section \<open>A load connection in a session\<close>

text \<open>The session of the connection and the client task's table of names.\<close>

record ('w, 's) load_state =
  ld_link :: "('w, 's) session"
  ld_table :: target_router

abbreviation ld_client :: "('w, 's) load_state \<Rightarrow> 'w" where
  "ld_client ld \<equiv> sn_client (ld_link ld)"

definition on_load :: "('w \<Rightarrow> 'a \<times> 'w) \<Rightarrow> ('w, 's) load_state \<Rightarrow> 'a \<times> ('w, 's) load_state" where
  "on_load f ld = (case on_client f (ld_link ld) of (x, j) \<Rightarrow> (x, ld\<lparr>ld_link := j\<rparr>))"

definition then_load :: "('w \<Rightarrow> 'w) \<Rightarrow> ('w, 's) load_state \<Rightarrow> ('w, 's) load_state" where
  "then_load f ld = ld\<lparr>ld_link := (ld_link ld)\<lparr>sn_client := f (ld_client ld)\<rparr>\<rparr>"

text \<open>One iteration of the client's task.\<close>

definition client_job ::
  "('st, 'tc) s_type_lib \<Rightarrow> ('st, 'tc, 's) server_end \<Rightarrow> 'w conn_io \<Rightarrow> ('st, 'w) client_io \<Rightarrow> framed \<Rightarrow> processor
     \<Rightarrow> receiver \<Rightarrow> ('w, 's) load_state \<Rightarrow> ('w, 's) load_state" where
  "client_job L se IO K socket processor rx ld =
     (case mpsc_recv (session_client se K) rx (ld_link ld) of
        (None, j) \<Rightarrow> ld\<lparr>ld_link := j\<rparr>
      | (Some q, j) \<Rightarrow>
          (case process_request L (session_io se IO) (session_client se K) socket processor q (ld_table ld) j of
             (_, tr, j') \<Rightarrow> \<lparr>ld_link = j', ld_table = tr\<rparr>))"

lemma client_task_job:
  "client_task L (session_io se IO) (session_client se K) socket processor rx (ld_table ld) (ld_link ld) =
     (case mpsc_recv (session_client se K) rx (ld_link ld) of
        (None, j) \<Rightarrow> Some (ld_table ld, j)
      | (Some q, j) \<Rightarrow>
          (case client_job L se IO K socket processor rx ld of
             ld' \<Rightarrow> client_task L (session_io se IO) (session_client se K) socket processor rx (ld_table ld') (ld_link ld')))"
  by (subst client_task.simps) (simp add: client_job_def split: prod.split option.split)

text \<open>
  The operations of the loop.  A wait for the reply lets the client's task work: \<open>job\<close> is what the task gets
  done until the wait ends.
\<close>

definition load_time :: "'w time_io \<Rightarrow> ('w, 's) load_state time_io" where
  "load_time TM = \<lparr>now = on_load (now TM), sleep = \<lambda>d. then_load (sleep TM d)\<rparr>"

definition load_client :: "('st, 'w) client_io \<Rightarrow> ('st, ('w, 's) load_state) client_io" where
  "load_client K =
     \<lparr>fmt_router_error = fmt_router_error K,
      consumer_send = \<lambda>s b. on_load (consumer_send K s b),
      consumer_drop = \<lambda>s. then_load (consumer_drop K s),
      mpsc_channel = \<lambda>n. on_load (mpsc_channel K n),
      mpsc_send = \<lambda>s q. on_load (mpsc_send K s q),
      mpsc_recv = \<lambda>rx. on_load (mpsc_recv K rx),
      spawn_client = \<lambda>t. then_load (spawn_client K t)\<rparr>"

definition load_ops :: "(('w, 's) load_state \<Rightarrow> ('w, 's) load_state) \<Rightarrow> 'w load_io \<Rightarrow> ('w, 's) load_state load_io" where
  "load_ops job LD =
     \<lparr>reply_channel = on_load (reply_channel LD),
      timeout_recv = \<lambda>t rx ld. on_load (timeout_recv LD t rx) (job ld),
      fetch_add_ok = then_load (fetch_add_ok LD),
      to_bytes_EchoMsg = to_bytes_EchoMsg LD\<rparr>"

section \<open>What is assumed of the caller's side\<close>

text \<open>
  A request that the queue takes is in it, and the queue may refuse it.  A wait for a reply gives what was sent
  on the channel's sender since the channel was made, or times out, at any time.  The clock \<open>c\<close> is steady
  and advances over a wait that succeeds, the time the client's task takes being part of that wait.
  \<open>failed\<close> counts the refusals and the time-outs.
\<close>

definition load_side ::
  "'w time_io \<Rightarrow> 'w conn_io \<Rightarrow> ('st, 'w) client_io \<Rightarrow> 'w load_io \<Rightarrow> processor \<Rightarrow> receiver \<Rightarrow> client_connect
     \<Rightarrow> ('w \<Rightarrow> 'st client_request list) \<Rightarrow> ('w \<Rightarrow> (sender \<times> bytes option) list) \<Rightarrow> ('w \<Rightarrow> nat) \<Rightarrow> ('w \<Rightarrow> nat) \<Rightarrow> bool" where
  "load_side TM IO K LD processor rx client queue log c failed \<longleftrightarrow>
     steady_clock TM c \<and> (\<forall>w. untouched queue log w (snd (now TM w))) \<and> kept failed (now TM) \<and>
     (\<forall>w. \<exists>tx r w'. reply_channel LD w = ((tx, r), w') \<and> untouched queue log w w' \<and> c w \<le> c w' \<and> failed w' = failed w \<and>
        (\<forall>w2 x w3. timeout_recv LD REQUEST_TIMEOUT r w2 = (x, w3) \<longrightarrow> untouched queue log w2 w3 \<and>
           (case x of
              Some b \<Rightarrow> (tx, Some b) \<in> set (drop (length (log w)) (log w2)) \<and> c w2 < c w3 \<and> failed w3 = failed w2
            | None \<Rightarrow> failed w3 = Suc (failed w2)))) \<and>
     (\<forall>q w. \<exists>x w'. mpsc_send K (cc_tx client) q w = (x, w') \<and> log w' = log w \<and> c w \<le> c w' \<and>
        (case x of
           Ok _ \<Rightarrow> queue w' = queue w @ [q] \<and> failed w' = failed w
         | Err _ \<Rightarrow> failed w' = Suc (failed w))) \<and>
     (\<forall>w. untouched queue log w (fetch_add_ok LD w) \<and> c w \<le> c (fetch_add_ok LD w) \<and>
        failed (fetch_add_ok LD w) = failed w) \<and>
     (\<forall>b. kept (\<lambda>w. (c w, failed w)) (pre_process_traffic IO processor b) \<and>
          kept (\<lambda>w. (c w, failed w)) (post_process_traffic IO processor b)) \<and>
     (\<forall>s b. kept (\<lambda>w. (c w, failed w)) (consumer_send K s b)) \<and>
     (\<forall>s w. (c (consumer_drop K s w), failed (consumer_drop K s w)) = (c w, failed w)) \<and>
     kept (\<lambda>w. (c w, failed w)) (mpsc_recv K rx)"

lemma load_sideD:
  assumes "load_side TM IO K LD processor rx client queue log c failed"
  shows "steady_clock TM c" and "untouched queue log w (snd (now TM w))" and "kept failed (now TM)"
    and "\<exists>tx r w'. reply_channel LD w = ((tx, r), w') \<and> untouched queue log w w' \<and> c w \<le> c w' \<and> failed w' = failed w \<and>
        (\<forall>w2 x w3. timeout_recv LD REQUEST_TIMEOUT r w2 = (x, w3) \<longrightarrow> untouched queue log w2 w3 \<and>
           (case x of
              Some b \<Rightarrow> (tx, Some b) \<in> set (drop (length (log w)) (log w2)) \<and> c w2 < c w3 \<and> failed w3 = failed w2
            | None \<Rightarrow> failed w3 = Suc (failed w2)))"
    and "\<exists>x w'. mpsc_send K (cc_tx client) q w = (x, w') \<and> log w' = log w \<and> c w \<le> c w' \<and>
        (case x of
           Ok _ \<Rightarrow> queue w' = queue w @ [q] \<and> failed w' = failed w
         | Err _ \<Rightarrow> failed w' = Suc (failed w))"
    and "untouched queue log w (fetch_add_ok LD w) \<and> c w \<le> c (fetch_add_ok LD w) \<and> failed (fetch_add_ok LD w) = failed w"
    and "kept (\<lambda>w. (c w, failed w)) (pre_process_traffic IO processor b)"
    and "kept (\<lambda>w. (c w, failed w)) (post_process_traffic IO processor b)"
    and "kept (\<lambda>w. (c w, failed w)) (consumer_send K s b)"
    and "(c (consumer_drop K s w), failed (consumer_drop K s w)) = (c w, failed w)"
    and "kept (\<lambda>w. (c w, failed w)) (mpsc_recv K rx)"
  using assms unfolding load_side_def by blast+

text \<open>
  Until the wait ends, the client's task has either worked the request to its end, or it is still at work, and
  nobody has been answered.
\<close>

definition interruptible ::
  "(('w, 's) load_state \<Rightarrow> ('w, 's) load_state) \<Rightarrow> ('w \<Rightarrow> (sender \<times> bytes option) list) \<Rightarrow> ('w \<Rightarrow> nat)
     \<Rightarrow> (('w, 's) load_state \<Rightarrow> ('w, 's) load_state) \<Rightarrow> bool" where
  "interruptible work log failed job \<longleftrightarrow>
     (\<forall>ld. job ld = work ld \<or>
        log (ld_client (job ld)) = log (ld_client ld) \<and> failed (ld_client (job ld)) = failed (ld_client ld))"

section \<open>A round trip\<close>

lemma await_frame_client: "sn_client (await_frame se n j) = sn_client j"
  by (induction se n j rule: await_frame.induct) simp_all

lemma session_io_keeps:
  assumes "load_side TM IO K LD processor rx client queue log c failed"
  shows "io_preserves (session_io se IO) socket processor (\<lambda>j. (c (sn_client j), failed (sn_client j)))"
  using load_sideD(7,8)[OF assms]
  by (simp add: io_preserves_def client_next_def client_send_def Let_def await_frame_client on_client_def kept_def split_beta)

text \<open>Between two round trips: the link is quiet, the queue is empty, the table holds what the server would answer.\<close>

definition load_ready ::
  "('st, 'tc, 's) server_end \<Rightarrow> ('st, 's) registration list \<Rightarrow> ('w \<Rightarrow> 'st client_request list) \<Rightarrow> ('w, 's) load_state \<Rightarrow> bool" where
  "load_ready se regs queue ld \<longleftrightarrow>
     waiting se [] (ld_link ld) \<and> table_agrees regs (ld_table ld) \<and> queue (ld_client ld) = []"

lemma client_job_answers:
  assumes "session_server se spost P rep" and "session_client_side IO K processor rx cpre cpost queue log"
    and "linked L (se_conn se) cpre cpost (se_pre se) spost" and "session_router L se regs P [q]"
    and "load_side TM IO K LD processor rx client queue log c failed"
    and "waiting se [] (ld_link ld)" and "table_agrees regs (ld_table ld)" and "queue (ld_client ld) = [q]"
    and "dr_data (req q) \<noteq> []"
  shows "load_ready se regs queue (client_job L se IO K socket processor rx ld) \<and>
     log (ld_client (client_job L se IO K socket processor rx ld)) = log (ld_client ld) @ [owed L regs rep q] \<and>
     c (ld_client (client_job L se IO K socket processor rx ld)) = c (ld_client ld) \<and>
     failed (ld_client (client_job L se IO K socket processor rx ld)) = failed (ld_client ld)"
proof -
  let ?j1 = "take_turn se (ld_link ld)"
  obtain w1 where w1: "mpsc_recv K rx (ld_client ld) = (Some q, w1)" "queue w1 = []" "log w1 = log (ld_client ld)"
    using client_sideE(6)[OF assms(2,8)] by blast
  let ?j2 = "?j1\<lparr>sn_client := w1\<rparr>"
  have "waiting se [] ?j2" using take_turn_starved[OF assms(6)] by simp
  from process_request_session[OF assms(1-4) this assms(7), of q socket] obtain r tr' j3 where 3:
      "process_request L (session_io se IO) (session_client se K) socket processor q (ld_table ld) ?j2 = (r, tr', j3)"
      "table_agrees regs tr'" "waiting se [] j3" "queue (sn_client j3) = []"
      "log (sn_client j3) = log (ld_client ld) @ [owed L regs rep q]"
    using assms(9) w1 by (auto simp: owed_def)
  have "(c (sn_client j3), failed (sn_client j3)) = (c (sn_client ?j2), failed (sn_client ?j2))"
    by (rule process_request_preserves[OF session_io_keeps[OF assms(5)] _ _ 3(1)])
       (use load_sideD(9,10)[OF assms(5)] in \<open>simp_all add: kept_def on_client_def split_beta\<close>)
  moreover have "(c w1, failed w1) = (c (ld_client ld), failed (ld_client ld))"
    by (rule keptD[OF load_sideD(11)[OF assms(5)] w1(1)])
  moreover have "client_job L se IO K socket processor rx ld = \<lparr>ld_link = j3, ld_table = tr'\<rparr>"
    by (simp add: client_job_def on_client_def w1(1) 3(1))
  ultimately show ?thesis using 3 by (simp add: load_ready_def)
qed

lemma on_load_eq:
  "f (ld_client ld) = (x, w) \<Longrightarrow> on_load f ld = (x, ld\<lparr>ld_link := (ld_link ld)\<lparr>sn_client := w\<rparr>\<rparr>)"
  by (simp add: on_load_def on_client_def)

text \<open>The request of a round trip.\<close>

definition echo_request :: "(echo_s_type \<Rightarrow> 'st) \<Rightarrow> bytes \<Rightarrow> sender \<Rightarrow> 'st client_request" where
  "echo_request dyn data tx =
     \<lparr>req = \<lparr>dr_handler_info = handler_info_new_named ECHO_HANDLER, dr_data = data, dr_s_type = dyn Echo\<rparr>, consumer = tx\<rparr>"

lemma tf_round_echoes_or_fails:
  assumes "session_server se spost P rep" and "session_client_side IO K processor rx cpre cpost queue log"
    and "linked L (se_conn se) cpre cpost (se_pre se) spost"
    and "\<And>tx. session_router L se regs P [echo_request dyn data tx]"
    and "load_side TM IO K LD processor rx client queue log c failed"
    and "\<And>tx. owed L regs rep (echo_request dyn data tx) = (tx, Some data)" and "data \<noteq> []"
    and "interruptible (client_job L se IO K socket processor rx) log failed job"
    and "load_ready se regs queue ld"
  shows "\<exists>tx ok ld'. tf_round (load_client K) (load_ops job LD) dyn client data ld = (ok, ld') \<and>
     (if ok then load_ready se regs queue ld' \<and> log (ld_client ld') = log (ld_client ld) @ [(tx, Some data)] \<and>
          failed (ld_client ld') = failed (ld_client ld) \<and> c (ld_client ld) < c (ld_client ld')
      else log (ld_client ld') \<in> {log (ld_client ld), log (ld_client ld) @ [(tx, Some data)]} \<and>
          failed (ld_client ld') = Suc (failed (ld_client ld)))"
proof -
  note side = load_sideD[OF assms(5)]
  let ?work = "client_job L se IO K socket processor rx"
  obtain tx r w1 where 1: "reply_channel LD (ld_client ld) = ((tx, r), w1)" "untouched queue log (ld_client ld) w1"
      "c (ld_client ld) \<le> c w1" "failed w1 = failed (ld_client ld)"
    and recv: "\<And>w2 x w3. timeout_recv LD REQUEST_TIMEOUT r w2 = (x, w3) \<Longrightarrow> untouched queue log w2 w3 \<and>
           (case x of
              Some b \<Rightarrow> (tx, Some b) \<in> set (drop (length (log (ld_client ld))) (log w2)) \<and> c w2 < c w3 \<and> failed w3 = failed w2
            | None \<Rightarrow> failed w3 = Suc (failed w2))"
    using side(4)[of "ld_client ld"] by blast
  let ?q = "echo_request dyn data tx"
  obtain x w2 where 2: "mpsc_send K (cc_tx client) ?q w1 = (x, w2)" "log w2 = log w1" "c w1 \<le> c w2"
      "case x of Ok _ \<Rightarrow> queue w2 = queue w1 @ [?q] \<and> failed w2 = failed w1 | Err _ \<Rightarrow> failed w2 = Suc (failed w1)"
    using side(5) by blast
  define ld2 where "ld2 = ld\<lparr>ld_link := (ld_link ld)\<lparr>sn_client := w2\<rparr>\<rparr>"
  show ?thesis
  proof (cases x)
    case (Err e)
    then have "tf_round (load_client K) (load_ops job LD) dyn client data ld = (False, ld2)"
      using 1(1) 2(1)
      by (simp add: tf_round_def load_ops_def load_client_def dispatch_request_def echo_request_def on_load_eq ld2_def)
    then show ?thesis using 1 2 Err by (intro exI) (auto simp: ld2_def untouched_def)
  next
    case (Ok u)
    have work: "load_ready se regs queue (?work ld2)" "log (ld_client (?work ld2)) = log (ld_client ld) @ [(tx, Some data)]"
        "c (ld_client (?work ld2)) = c w2" "failed (ld_client (?work ld2)) = failed (ld_client ld)"
      using client_job_answers[OF assms(1-3) assms(4)[of tx] assms(5), of ld2 socket] assms(6)[of tx] assms(7,9) 1(2,4) 2 Ok
      by (auto simp: ld2_def load_ready_def untouched_def echo_request_def)
    obtain y w3 where 3: "timeout_recv LD REQUEST_TIMEOUT r (ld_client (job ld2)) = (y, w3)" by fastforce
    let ?ld3 = "(job ld2)\<lparr>ld_link := (ld_link (job ld2))\<lparr>sn_client := w3\<rparr>\<rparr>"
    have round: "tf_round (load_client K) (load_ops job LD) dyn client data ld = (y \<noteq> None, ?ld3)"
      using 1(1) 2(1) 3 Ok
      by (cases y)
        (simp_all add: tf_round_def load_ops_def load_client_def dispatch_request_def echo_request_def on_load_eq ld2_def)
    have cut: "log (ld_client (job ld2)) = log (ld_client ld) \<and> failed (ld_client (job ld2)) = failed (ld_client ld)"
      if "job ld2 \<noteq> ?work ld2"
      using assms(8) that 1 2(2,4) Ok by (auto simp: interruptible_def ld2_def untouched_def)
    show ?thesis
    proof (cases y)
      case None
      then show ?thesis
        using round recv[OF 3] work cut by (cases "job ld2 = ?work ld2") (auto simp: untouched_def intro!: exI[of _ tx])
    next
      case (Some b)
      then have "job ld2 = ?work ld2" using recv[OF 3] cut by force
      then show ?thesis
        using round recv[OF 3] work Some 1(3) 2(3) by (auto simp: load_ready_def untouched_def intro!: exI[of _ tx])
    qed
  qed
qed

section \<open>The whole connection\<close>

text \<open>
  \<open>answered\<close>: since the log was \<open>before\<close>, at least \<open>n\<close> requests were answered, each with
  the data; \<open>echoed\<close>: the connection is ready for the next round trip, and none has failed.
\<close>

definition answered :: "bytes \<Rightarrow> (sender \<times> bytes option) list \<Rightarrow> nat \<Rightarrow> (sender \<times> bytes option) list \<Rightarrow> bool" where
  "answered data before n lg \<longleftrightarrow> (\<exists>txs. n \<le> length txs \<and> lg = before @ map (\<lambda>t. (t, Some data)) txs)"

lemma answered_Suc:
  assumes "answered data before n lg"
  shows "answered data before (Suc n) (lg @ [(t, Some data)])"
proof -
  obtain txs where "n \<le> length txs" "lg = before @ map (\<lambda>t. (t, Some data)) txs" using assms by (auto simp: answered_def)
  then show ?thesis unfolding answered_def by (intro exI[of _ "txs @ [t]"]) simp
qed

lemma answered_mono: "answered data before (Suc n) lg \<Longrightarrow> answered data before n lg"
  unfolding answered_def using Suc_leD by blast

definition echoed ::
  "('st, 'tc, 's) server_end \<Rightarrow> ('st, 's) registration list \<Rightarrow> ('w \<Rightarrow> 'st client_request list)
     \<Rightarrow> ('w \<Rightarrow> (sender \<times> bytes option) list) \<Rightarrow> ('w \<Rightarrow> nat) \<Rightarrow> bytes \<Rightarrow> 'w \<Rightarrow> nat \<Rightarrow> ('w, 's) load_state \<Rightarrow> bool" where
  "echoed se regs queue log failed data w n ld \<longleftrightarrow>
     load_ready se regs queue ld \<and> answered data (log w) n (log (ld_client ld)) \<and> failed (ld_client ld) = failed w"

lemma echoed_untouched:
  assumes "echoed se regs queue log failed data w0 n ld" and "untouched queue log (ld_client ld) w"
    and "failed w = failed (ld_client ld)"
  shows "echoed se regs queue log failed data w0 n (ld\<lparr>ld_link := (ld_link ld)\<lparr>sn_client := w\<rparr>\<rparr>)"
  using assms by (simp add: echoed_def load_ready_def untouched_def)

lemma load_loop_echoes:
  assumes "session_server se spost P rep" and "session_client_side IO K processor rx cpre cpost queue log"
    and "linked L (se_conn se) cpre cpost (se_pre se) spost"
    and "\<And>tx. session_router L se regs P [echo_request dyn data tx]"
    and "load_side TM IO K LD processor rx client queue log c failed"
    and "\<And>tx. owed L regs rep (echo_request dyn data tx) = (tx, Some data)" and "data \<noteq> []"
    and "interruptible (client_job L se IO K socket processor rx) log failed job"
    and "ops = load_ops job LD"
    and "load_ready se regs queue ld" and "recorder_reachable HL rec 0 e"
  shows "\<exists>r ld' n k. drive HL (load_time TM) (tf_round (load_client K) ops dyn client data) (fetch_add_ok ops) wd md counted rec ld =
       Some (r, ld') \<and> k \<le> n \<and>
     (echoed se regs queue log failed data (ld_client ld) n ld' \<and> md \<le> c (ld_client ld') \<and> recorder_reachable HL r k e \<or>
      answered data (log (ld_client ld)) n (log (ld_client ld')) \<and> failed (ld_client ld') = Suc (failed (ld_client ld)) \<and>
      recorder_reachable HL r k (Suc e))"
proof -
  let ?R = "echoed se regs queue log failed data (ld_client ld)"
  let ?Q = "\<lambda>n ld'. answered data (log (ld_client ld)) n (log (ld_client ld')) \<and>
      failed (ld_client ld') = Suc (failed (ld_client ld))"
  have start: "?R 0 ld" using assms(10) by (auto simp: echoed_def answered_def)
  have nw: "?R n ld' \<and> t = c (ld_client j) \<and> c (ld_client j) \<le> c (ld_client ld')"
    if R: "?R n j" and now: "now (load_time TM) j = (t, ld')" for n j t ld'
  proof -
    obtain w1 where w1: "now TM (ld_client j) = (t, w1)" "ld' = j\<lparr>ld_link := (ld_link j)\<lparr>sn_client := w1\<rparr>\<rparr>"
      using now by (auto simp: load_time_def on_load_def on_client_def split: prod.splits)
    then show ?thesis
      using echoed_untouched[OF R, of w1] load_sideD(2)[OF assms(5), of "ld_client j"]
        keptD[OF load_sideD(3)[OF assms(5)] w1(1)] steady_clock_now[OF load_sideD(1)[OF assms(5)] w1(1)] by simp
  qed
  have rnd: "\<exists>ok ld'. tf_round (load_client K) ops dyn client data j = (ok, ld') \<and>
      (if ok then ?R (Suc n) ld' \<and> c (ld_client j) < c (ld_client ld') else ?Q n ld')" if R: "?R n j" for n j
  proof -
    have ready: "load_ready se regs queue j" and ans: "answered data (log (ld_client ld)) n (log (ld_client j))"
      and nf: "failed (ld_client j) = failed (ld_client ld)" using R by (simp_all add: echoed_def)
    obtain tx ok ld' where 1: "tf_round (load_client K) ops dyn client data j = (ok, ld')"
        "if ok then load_ready se regs queue ld' \<and> log (ld_client ld') = log (ld_client j) @ [(tx, Some data)] \<and>
          failed (ld_client ld') = failed (ld_client j) \<and> c (ld_client j) < c (ld_client ld')
         else log (ld_client ld') \<in> {log (ld_client j), log (ld_client j) @ [(tx, Some data)]} \<and>
          failed (ld_client ld') = Suc (failed (ld_client j))"
      using tf_round_echoes_or_fails[OF assms(1-8) ready] unfolding assms(9) by blast
    then show ?thesis
      using ans answered_Suc[OF ans, of tx] answered_mono[OF answered_Suc[OF ans, of tx]] nf
      by (intro exI[of _ ok] exI[of _ ld']) (auto simp: echoed_def split: if_splits)
  qed
  have add: "?R n (fetch_add_ok ops j) \<and> c (ld_client j) \<le> c (ld_client (fetch_add_ok ops j))" if R: "?R n j" for n j
    using echoed_untouched[OF R] load_sideD(6)[OF assms(5), of "ld_client j"]
    by (simp add: assms(9) load_ops_def then_load_def)
  from drive_until_failure[where R = ?R and Q = ?Q and c = "\<lambda>ld. c (ld_client ld)", OF nw rnd add start assms(11) le0]
  show ?thesis by blast
qed

text \<open>
  C21. A connection of the load generator against the echo server, client and server running concurrently over a
  reliable link, for every schedule and with waits that may time out at any moment: once connected, the
  connection ends.  Either no wait timed out and the queue refused nothing; then it ran to the measurement
  deadline without an error and nothing is left on the link, neither a request to read nor a reply to take.
  Or it stopped at the first such failure, with exactly one error.  In both cases every reply that was given to
  a request is exactly the data it sent, and the connection measured no more round trips than were answered.
\<close>

theorem echo_load_connection:
  fixes se :: "('st, 'tc, 's) server_end"
  assumes "duplex (se_conn se) (se_ins se) (se_outs se) (se_pre se) spost"
    and "\<forall>b s. se_ins se (se_deliver se b s) = se_ins se s @ [b] \<and> se_outs se (se_deliver se b s) = se_outs se s"
    and "session_client_side IO K processor rx cpre cpost queue log"
    and "linked L (se_conn se) cpre cpost (se_pre se) spost"
    and "key_laws L" and "user_type_laws L" and "c_router (se_conn se) = echo_router L dyn unit_arc"
    and "load_side TM IO K LD processor rx client queue log c failed"
    and "interruptible (client_job L se IO K socket processor rx) log failed job"
    and "recorder_new HL = Returned rec"
    and "client_connect_new N CIO (load_client K) ''localhost'' addr None cd (CM_Tcp None) 8 ld0 =
       (Returned (Ok client), \<lparr>ld_link = session_start se tx w s turns, ld_table = target_router_new\<rparr>)"
    and "to_bytes_EchoMsg LD \<lparr>em_s_type = Echo, em_data = replicate payload 0\<rparr> = Some data" and "data \<noteq> []"
    and "oneshot_channel (c_handoff (se_conn se)) s0 = ((tx, se_rx se), s)" and "se_ins se s0 = []"
    and "polite se turns" and "queue w = []"
  shows "\<exists>r ld' n txs. tf_conn HL (load_time TM) N CIO (load_client K) (load_ops job LD)
       dyn addr payload warmup_deadline measure_deadline cd ld0 = Some (Returned r, ld') \<and>
     count r = of_nat n \<and> n \<le> length txs \<and>
     log (sn_client (ld_link ld')) = log w @ map (\<lambda>t. (t, Some data)) txs \<and>
     (errors r = 0 \<and> failed (sn_client (ld_link ld')) = failed w \<and> measure_deadline \<le> c (sn_client (ld_link ld')) \<and>
      se_ins se (sn_server (ld_link ld')) = [] \<and> sn_got (ld_link ld') = length (se_outs se (sn_server (ld_link ld'))) \<or>
      errors r = 1 \<and> failed (sn_client (ld_link ld')) = Suc (failed w))"
proof -
  let ?rep = "\<lambda>m p. reply_bytes L (echo_reply L dyn unit_arc TYPE('s) m p)"
  let ?regs = "echo_registrations dyn unit_arc :: ('st, 's) registration list"
  let ?ops = "load_ops job LD"
  let ?ld = "\<lparr>ld_link = session_start se tx w s turns, ld_table = target_router_new\<rparr>"
  have wire: "wire_laws L" and lib: "c_lib (se_conn se) = L" using assms(4) by (simp_all add: linked_def)
  have srv: "session_server se spost UNIV ?rep"
    using assms(1,2) echo_answering[OF assms(5) wire lib assms(7)] by (simp add: session_server_def)
  have router: "session_router L se ?regs UNIV [echo_request dyn data t]" for t
    using assms(7) echo_router_built by (auto simp: session_router_def)
  have own: "owed L ?regs ?rep (echo_request dyn data t) = (t, Some data)" for t
    using echo_reply_own_data[OF wire assms(6), of "echo_request dyn data t" dyn unit_arc "TYPE('s)"]
    by (simp add: owed_def echo_intended reply_bytes_def echo_request_def names_handler_def)
  have "untouched (se_ins se) (se_outs se) s0 s" using assms(1,14) unfolding duplex_def by (metis snd_conv)
  then have "load_ready se ?regs queue ?ld"
    using assms(15-17)
    by (simp add: load_ready_def waiting_def session_start_def untouched_def table_agrees_def lookup_route_def
        target_router_new_def)
  from load_loop_echoes[OF srv assms(3,4) router assms(8) own assms(13,9) refl this reach_new[OF assms(10)],
      of warmup_deadline measure_deadline False, unfolded session_start_def load_state.simps session.simps]
  obtain r ld' n k where d: "drive HL (load_time TM) (tf_round (load_client K) ?ops dyn client data) (fetch_add_ok ?ops)
       warmup_deadline measure_deadline False rec ?ld = Some (r, ld')" "k \<le> n"
      "echoed se ?regs queue log failed data w n ld' \<and> measure_deadline \<le> c (ld_client ld') \<and> recorder_reachable HL r k 0 \<or>
       answered data (log w) n (log (ld_client ld')) \<and> failed (ld_client ld') = Suc (failed w) \<and> recorder_reachable HL r k (Suc 0)"
    unfolding session_start_def by blast
  have "tf_conn HL (load_time TM) N CIO (load_client K) ?ops dyn addr payload warmup_deadline measure_deadline cd ld0 =
      Some (Returned r, ld')"
    using d(1) assms(10-12) by (simp add: tf_conn_def returned_def load_ops_def)
  moreover obtain txs where "n \<le> length txs" "log (ld_client ld') = log w @ map (\<lambda>t. (t, Some data)) txs"
    using d(3) by (auto simp: echoed_def answered_def)
  moreover have "count r = of_nat k" using d(3) recorder_reachable_counts by blast
  moreover have "errors r = 0 \<and> failed (ld_client ld') = failed w \<and> measure_deadline \<le> c (ld_client ld') \<and>
        se_ins se (sn_server (ld_link ld')) = [] \<and> sn_got (ld_link ld') = length (se_outs se (sn_server (ld_link ld'))) \<or>
      errors r = 1 \<and> failed (ld_client ld') = Suc (failed w)"
    using d(3) recorder_reachable_counts[of HL r k 0] recorder_reachable_counts[of HL r k "Suc 0"]
    by (auto simp: echoed_def load_ready_def waiting_def)
  ultimately show ?thesis
    using d(2) by (intro exI[of _ r] exI[of _ ld'] exI[of _ k] exI[of _ txs]) auto
qed

section \<open>Example\<close>

text \<open>
  A clock that advances by a millisecond in every wait for a reply; a channel is named by the length of the log
  when it is made.  From the second millisecond on the waits time out before the client's task has done anything.
\<close>

record lworld = cworld +
  lw_clock :: nat
  lw_failed :: nat

definition lworld_time :: "lworld time_io" where
  "lworld_time = \<lparr>now = \<lambda>w. (lw_clock w, w), sleep = \<lambda>d w. w\<lparr>lw_clock := lw_clock w + d\<rparr>\<rparr>"

definition lworld_ops :: "lworld load_io" where
  "lworld_ops =
     \<lparr>reply_channel = \<lambda>w. ((length (cw_log w), length (cw_log w)), w),
      timeout_recv = \<lambda>t r w.
        (case Option.bind (List.find (\<lambda>(s, b). s = r \<and> b \<noteq> None) (drop r (cw_log w))) snd of
           Some b \<Rightarrow> (Some b, w\<lparr>lw_clock := lw_clock w + millis 1\<rparr>)
         | None \<Rightarrow> (None, w\<lparr>lw_clock := lw_clock w + secs 5, lw_failed := Suc (lw_failed w)\<rparr>)),
      fetch_add_ok = \<lambda>w. w,
      to_bytes_EchoMsg = \<lambda>m. Some (8 # em_data m)\<rparr>"

definition lworld_start :: lworld where
  "lworld_start =
     \<lparr>q_in = [], q_out = [], q_closed = False, cw_queue = [], cw_log = [], lw_clock = 0, lw_failed = 0\<rparr>"

lemma lworld_client_side: "session_client_side queue_io sample_client_io 0 0 (\<lambda>b. b) (\<lambda>b. b) cw_queue cw_log"
  by (auto simp: session_client_side_def untouched_def sample_client_io_def split: list.splits)

lemma find_reply:
  "Option.bind (List.find (\<lambda>(s, b). s = r \<and> (\<exists>y. b = Some y)) xs) snd = Some b \<Longrightarrow> (r, Some b) \<in> set xs"
  by (induction xs) (auto split: if_splits)

lemma lworld_load_side:
  "load_side lworld_time queue_io sample_client_io lworld_ops 0 0 \<lparr>cc_tx = 0\<rparr> cw_queue cw_log lw_clock lw_failed"
  unfolding load_side_def
  by (auto simp: steady_clock_def lworld_time_def lworld_ops_def untouched_def kept_def sample_client_io_def millis_def
      dest!: find_reply split: list.split option.splits)

definition lworld_job ::
  "((lworld, 's) load_state \<Rightarrow> (lworld, 's) load_state) \<Rightarrow> (lworld, 's) load_state \<Rightarrow> (lworld, 's) load_state" where
  "lworld_job work ld = (if millis 2 \<le> lw_clock (ld_client ld) then ld else work ld)"

theorem echo_load_connection_witness:
  "\<exists>r ld' n txs. tf_conn list_hist (load_time lworld_time) ready_net ready_io (load_client sample_client_io)
       (load_ops (lworld_job (client_job sample_lib sample_end queue_io sample_client_io 0 0 0)) lworld_ops)
       (\<lambda>_. 0) ''127.0.0.1:19001'' 2 0 (millis 3) 0
       \<lparr>ld_link = session_start sample_end 1 lworld_start fresh_world busy_schedule, ld_table = target_router_new\<rparr> =
       Some (Returned r, ld') \<and> count r = of_nat n \<and> n \<le> length txs \<and>
     cw_log (sn_client (ld_link ld')) = map (\<lambda>t. (t, Some [8, 0, 0])) txs \<and>
     (errors r = 0 \<and> lw_failed (sn_client (ld_link ld')) = 0 \<or> errors r = 1 \<and> lw_failed (sn_client (ld_link ld')) = 1)"
proof -
  let ?ld = "\<lparr>ld_link = session_start sample_end 1 lworld_start fresh_world busy_schedule, ld_table = target_router_new\<rparr>"
  have lk: "linked sample_lib (se_conn sample_end) (\<lambda>b. b) (\<lambda>b. b) (se_pre sample_end) (\<lambda>b. b)"
    using sample_linked by simp
  have dx: "duplex (se_conn sample_end) (se_ins sample_end) (se_outs sample_end) (se_pre sample_end) (\<lambda>b. b)"
    using sample_duplex by simp
  have rt: "c_router (se_conn sample_end) = echo_router sample_lib (\<lambda>_. 0) 0"
    using sample_echo_router by simp
  have dl: "\<forall>b s. se_ins sample_end (se_deliver sample_end b s) = se_ins sample_end s @ [b] \<and>
      se_outs sample_end (se_deliver sample_end b s) = se_outs sample_end s"
    using sample_session_server by (simp add: session_server_def)
  have ch: "oneshot_channel (c_handoff (se_conn sample_end)) fresh_world = ((1, se_rx sample_end), fresh_world)"
    by simp
  have cut: "interruptible (client_job sample_lib sample_end queue_io sample_client_io 0 0 0) cw_log lw_failed
      (lworld_job (client_job sample_lib sample_end queue_io sample_client_io 0 0 0))"
    by (simp add: interruptible_def lworld_job_def)
  have new: "client_connect_new ready_net ready_io (load_client sample_client_io) ''localhost'' ''127.0.0.1:19001'' None 0
      (CM_Tcp None) 8 ?ld = (Returned (Ok \<lparr>cc_tx = 0\<rparr>), ?ld)"
    by (simp add: client_connect_new_def connect_def ready_net_def ready_io_def load_client_def connection_main_def
        on_load_def on_client_def then_load_def sample_client_io_def)
  have data: "to_bytes_EchoMsg lworld_ops \<lparr>em_s_type = Echo, em_data = replicate 2 0\<rparr> = Some [8, 0, 0]"
    by (simp add: lworld_ops_def numeral_2_eq_2)
  show ?thesis
    using echo_load_connection[where warmup_deadline = 0 and measure_deadline = "millis 3",
        OF dx dl lworld_client_side lk sample_key_laws sample_user_type_laws rt lworld_load_side cut list_hist_new new data _ ch
          _ busy_polite]
    by (simp add: lworld_start_def) blast
qed

end
