(* ===== verification/Example_Handlers.thy ===== *)
theory Example_Handlers
  imports Protocol Server "HOL-Library.Multiset"
begin

text \<open>
  The example programs of \<^verbatim>\<open>tf-examples/src\<close>: the structure types and messages of
  \<^verbatim>\<open>s_type_example\<close>, the handlers of \<^verbatim>\<open>server_example\<close>, the router and the
  server of \<^verbatim>\<open>server_ex.rs\<close> and the requests of \<^verbatim>\<open>client_ex.rs\<close>.
  Serialization of the messages, and the conversion between \<^verbatim>\<open>ExampleSType\<close> and
  \<^verbatim>\<open>dyn StructureType\<close>, are parameters.
\<close>

section \<open>Structure types and messages\<close>

datatype example_s_type =
    TestMessage | TestResponse | ExpensiveMessage | ExpensiveResponse | ManualHandlerRequest

record test_msg =
  tm_s_type :: example_s_type
  tm_id :: u64
  tm_data :: bytes
  tm_message :: string

record test_response =
  tr_s_type :: example_s_type
  tr_id :: u64
  tr_data :: bytes
  tr_another_message :: string

record expensive_msg =
  ex_s_type :: example_s_type
  ex_id :: u64
  ex_data :: bytes

record expensive_response =
  er_s_type :: example_s_type
  er_id :: u64
  er_data :: bytes

record manual_handler_request =
  mh_s_type :: example_s_type

text \<open>\<open>downcast\<close> is \<^verbatim>\<open>as_any().downcast_ref::<ExampleSType>()\<close>.\<close>

record 'st example_lib =
  dyn :: "example_s_type \<Rightarrow> 'st"
  downcast :: "'st \<Rightarrow> example_s_type option"
  from_slice_TestMsg :: "bytes \<Rightarrow> test_msg option"
  to_bytes_TestMsg :: "test_msg \<Rightarrow> bytes option"
  from_slice_TestResponse :: "bytes \<Rightarrow> test_response option"
  to_bytes_TestResponse :: "test_response \<Rightarrow> bytes option"
  from_slice_ExpensiveMsg :: "bytes \<Rightarrow> expensive_msg option"
  to_bytes_ExpensiveMsg :: "expensive_msg \<Rightarrow> bytes option"
  from_slice_ExpensiveResponse :: "bytes \<Rightarrow> expensive_response option"
  to_bytes_ExpensiveResponse :: "expensive_response \<Rightarrow> bytes option"

section \<open>Handlers\<close>

text \<open>\<^verbatim>\<open>unwrap\<close> on \<^verbatim>\<open>None\<close> panics in the handler's future.\<close>

definition unwrap_reply :: "bytes option \<Rightarrow> sender option \<Rightarrow> 'w \<Rightarrow> serve_value run \<times> 'w" where
  "unwrap_reply b route_tx w =
     (case b of None \<Rightarrow> (Panicked, w) | Some x \<Rightarrow> (Returned (Ok x, route_tx), w))"

definition test_serve_route :: "'st example_lib \<Rightarrow> ('st, 'w) serve_fn" where
  "test_serve_route E = boxed (\<lambda>st addr route_tx s_type data w.
     (case downcast E s_type of
        None \<Rightarrow> (Panicked, w)
      | Some TestMessage \<Rightarrow>
          (case from_slice_TestMsg E data of
             None \<Rightarrow> (Panicked, w)
           | Some message \<Rightarrow>
               unwrap_reply (to_bytes_TestMsg E
                 (message\<lparr>tm_message := tm_message message @ ''Hello from server!''\<rparr>)) route_tx w)
      | Some TestResponse \<Rightarrow>
          (case from_slice_TestResponse E data of
             None \<Rightarrow> (Panicked, w)
           | Some message \<Rightarrow>
               unwrap_reply (to_bytes_TestResponse E
                 (message\<lparr>tr_another_message := tr_another_message message @ ''Hello from server! response''\<rparr>))
                 route_tx w)
      | Some _ \<Rightarrow> (Returned (Err (as_bytes ''malformed message type''), route_tx), w)))"

definition test_create_route :: "'st example_lib \<Rightarrow> arc \<Rightarrow> ('st, 'w) route" where
  "test_create_route E unit_arc = \<lparr>state = unit_arc, serve = test_serve_route E\<rparr>"

definition big_serve_route :: "'st example_lib \<Rightarrow> ('st, 'w) serve_fn" where
  "big_serve_route E = boxed (\<lambda>st addr route_tx structure bytes w.
     (case downcast E structure of
        None \<Rightarrow> (Panicked, w)
      | Some ExpensiveMessage \<Rightarrow>
          (case from_slice_ExpensiveMsg E bytes of
             None \<Rightarrow> (Panicked, w)
           | Some message \<Rightarrow>
               unwrap_reply (to_bytes_ExpensiveMsg E (message\<lparr>ex_data := sort (ex_data message)\<rparr>)) route_tx w)
      | Some ExpensiveResponse \<Rightarrow> (Returned (Ok bytes, route_tx), w)
      | Some _ \<Rightarrow> (Returned (Err (as_bytes ''Malformed message type''), route_tx), w)))"

text \<open>The hand-off function: it prints a line, says goodbye and closes; a failed print, send or close panics.\<close>

definition accept_stream :: "'w conn_io \<Rightarrow> (string \<Rightarrow> 'w \<Rightarrow> unit run \<times> 'w) \<Rightarrow> 'w accept_fn" where
  "accept_stream IO print st addr framed_holder w =
     (Returned (\<lambda>w. case print ''accepted stream, now we break the connection'' w of
          (Panicked, w1) \<Rightarrow> (Panicked, w1)
        | (Returned _, w1) \<Rightarrow>
            (case framed_send IO (fst framed_holder) (as_bytes ''This will break'') w1 of
               (Err e, w2) \<Rightarrow> (Panicked, w2)
             | (Ok _, w2) \<Rightarrow>
                 (case framed_close IO (fst framed_holder) w2 of
                    (Err e, w3) \<Rightarrow> (Panicked, w3)
                  | (Ok _, w3) \<Rightarrow> (Returned (), w3)))), w)"

definition big_create_route :: "'st example_lib \<Rightarrow> arc \<Rightarrow> ('st, 'w) route" where
  "big_create_route E unit_arc = \<lparr>state = unit_arc, serve = big_serve_route E\<rparr>"

section \<open>The example server and the requests of the example client\<close>

definition server_password :: "string \<Rightarrow> bytes option" where
  "server_password client_identity = Some (as_bytes ''HelloPasswordForHandshake'')"

definition client_credentials :: "(bytes \<times> bytes) option" where
  "client_credentials = Some (as_bytes ''client'', as_bytes ''HelloPasswordForHandshake'')"

definition example_router ::
  "('st, 'tc) s_type_lib \<Rightarrow> 'st example_lib \<Rightarrow> arc \<Rightarrow> arc \<Rightarrow> ('st, 'tc, 'w) tf_server_router" where
  "example_router L E arc1 arc2 =
     commit_routes L
       (add_route L (big_create_route E arc2) ''BIG_PAYLOAD'' [dyn E ExpensiveMessage, dyn E ExpensiveResponse]
         (add_route L (test_create_route E arc1) ''TEST_HANDLER'' [dyn E TestMessage, dyn E TestResponse]
           (router_new (dyn E TestResponse))))"

text \<open>
  \<^verbatim>\<open>main\<close> of \<^verbatim>\<open>server_ex.rs\<close>: it waits for the acceptor before it calls
  \<^verbatim>\<open>send_stop\<close>.  \<open>logger_init\<close> is \<^verbatim>\<open>env_logger::init\<close>, which panics when
  a logger is set already; \<open>spake2_server\<close> builds the codec from the password source and the
  server's name.
\<close>

definition server_ex_main ::
  "('w \<Rightarrow> unit run \<times> 'w) \<Rightarrow> ('st, 'tc) s_type_lib \<Rightarrow> 'st example_lib \<Rightarrow> arc \<Rightarrow> arc
     \<Rightarrow> ((string \<Rightarrow> bytes option) \<Rightarrow> string \<Rightarrow> codec)
     \<Rightarrow> 'w server_net \<Rightarrow> 'w conn_io \<Rightarrow> 'w \<Rightarrow> (unit run \<times> 'w) option" where
  "server_ex_main logger_init L E arc1 arc2 spake2_server N IO w =
     (case logger_init w of
        (Panicked, w0) \<Rightarrow> Some (Panicked, w0)
      | (Returned _, w0) \<Rightarrow>
          (case tf_server_new N ''127.0.0.1:9973'' (example_router L E arc1 arc2) None
                  (spake2_server server_password ''server'') None SM_WebSocket w0 of
             (Err e, w1) \<Rightarrow> Some (Panicked, w1)
           | (Ok sv, w1) \<Rightarrow>
               (case server_start N IO sv w1 of ((a, sv'), w2) \<Rightarrow>
                  map_option (\<lambda>w3. (Returned (), send_stop N sv' w3)) (acceptor_loop N IO a w2))))"

definition make_test_request :: "'st example_lib \<Rightarrow> 'st data_request option" where
  "make_test_request E =
     map_option (\<lambda>b. \<lparr>dr_handler_info = handler_info_new_named ''TEST_HANDLER'', dr_data = b,
                     dr_s_type = dyn E TestMessage\<rparr>)
       (to_bytes_TestMsg E \<lparr>tm_s_type = TestMessage, tm_id = 12, tm_data = [32, 32, 23, 42],
          tm_message = ''hello from client''\<rparr>)"

text \<open>The random bytes are an argument.\<close>

definition make_big_payload_request :: "'st example_lib \<Rightarrow> (nat \<Rightarrow> u8) \<Rightarrow> 'st data_request option" where
  "make_big_payload_request E rng =
     map_option (\<lambda>b. \<lparr>dr_handler_info = handler_info_new_named ''BIG_PAYLOAD'', dr_data = b,
                     dr_s_type = dyn E ExpensiveResponse\<rparr>)
       (to_bytes_ExpensiveResponse E \<lparr>er_s_type = ExpensiveResponse, er_id = 12, er_data = map rng [0..<8096]\<rparr>)"

definition make_very_big_payload_request :: "'st example_lib \<Rightarrow> (nat \<Rightarrow> u8) \<Rightarrow> 'st data_request option" where
  "make_very_big_payload_request E rng =
     map_option (\<lambda>b. \<lparr>dr_handler_info = handler_info_new_named ''BIG_PAYLOAD'', dr_data = b,
                     dr_s_type = dyn E ExpensiveResponse\<rparr>)
       (to_bytes_ExpensiveResponse E
          \<lparr>er_s_type = ExpensiveResponse, er_id = 12, er_data = map rng [0..<250 * 1024 * 1024]\<rparr>)"

section \<open>Dispatch on the example router\<close>

abbreviation example_registrations ::
  "'st example_lib \<Rightarrow> arc \<Rightarrow> arc \<Rightarrow> ('st, 'w) registration list" where
  "example_registrations E arc1 arc2 \<equiv>
     [(test_create_route E arc1, ''TEST_HANDLER'', [dyn E TestMessage, dyn E TestResponse]),
      (big_create_route E arc2, ''BIG_PAYLOAD'', [dyn E ExpensiveMessage, dyn E ExpensiveResponse])]"

lemma example_router_built:
  "example_router L E arc1 arc2 = build_router L (dyn E TestResponse) (example_registrations E arc1 arc2)"
  by (simp add: example_router_def build_router_def)

text \<open>
  What the example relies on: a boxed structure type can be cast back; a message that carries the tag of its
  structure is serialized; whether any other message is serialized depends on its tag alone; and what was
  serialized is not empty and decodes to the message.
\<close>

definition serializes :: "'t \<Rightarrow> ('m \<Rightarrow> 't) \<Rightarrow> ('m \<Rightarrow> bytes option) \<Rightarrow> (bytes \<Rightarrow> 'm option) \<Rightarrow> bool" where
  "serializes tag tag_of enc dec \<longleftrightarrow>
     (\<forall>m. tag_of m = tag \<longrightarrow> enc m \<noteq> None) \<and>
     (\<forall>m m'. tag_of m' = tag_of m \<longrightarrow> enc m \<noteq> None \<longrightarrow> enc m' \<noteq> None) \<and>
     (\<forall>m b. enc m = Some b \<longrightarrow> dec b = Some m \<and> b \<noteq> [])"

definition example_laws :: "'st example_lib \<Rightarrow> bool" where
  "example_laws E \<longleftrightarrow>
     (\<forall>t. downcast E (dyn E t) = Some t) \<and>
     serializes TestMessage tm_s_type (to_bytes_TestMsg E) (from_slice_TestMsg E) \<and>
     serializes TestResponse tr_s_type (to_bytes_TestResponse E) (from_slice_TestResponse E) \<and>
     serializes ExpensiveMessage ex_s_type (to_bytes_ExpensiveMsg E) (from_slice_ExpensiveMsg E) \<and>
     serializes ExpensiveResponse er_s_type (to_bytes_ExpensiveResponse E) (from_slice_ExpensiveResponse E)"

lemma serializesD:
  assumes "serializes tag tag_of enc dec"
  shows "enc m = Some b \<Longrightarrow> dec b = Some m" and "enc m = Some b \<Longrightarrow> b \<noteq> []"
    and "tag_of m = tag \<Longrightarrow> \<exists>b. enc m = Some b \<and> dec b = Some m"
    and "enc m = Some b \<Longrightarrow> tag_of m' = tag_of m \<Longrightarrow> \<exists>b'. enc m' = Some b' \<and> dec b' = Some m'"
  using assms unfolding serializes_def by (metis option.exhaust option.distinct(1))+

lemma example_lawsD:
  assumes "example_laws E"
  shows "downcast E (dyn E t) = Some t"
    and "serializes TestMessage tm_s_type (to_bytes_TestMsg E) (from_slice_TestMsg E)"
    and "serializes TestResponse tr_s_type (to_bytes_TestResponse E) (from_slice_TestResponse E)"
    and "serializes ExpensiveMessage ex_s_type (to_bytes_ExpensiveMsg E) (from_slice_ExpensiveMsg E)"
    and "serializes ExpensiveResponse er_s_type (to_bytes_ExpensiveResponse E) (from_slice_ExpensiveResponse E)"
  using assms by (simp_all add: example_laws_def)

lemma example_serve:
  assumes "key_laws L"
  shows "serve_packet L (example_router L E arc1 arc2) meta payload cm w =
     serve_spec L (dyn E TestResponse) (example_registrations E arc1 arc2) meta payload cm w"
  unfolding example_router_built by (rule serve_packet_eq_spec[OF assms]) simp

lemma dyn_eq_iff: "example_laws E \<Longrightarrow> dyn E s = dyn E t \<longleftrightarrow> s = t"
  unfolding example_laws_def by (metis option.inject)

text \<open>A packet for handler \<open>i\<close> that says its payload is of structure type \<open>t\<close>.\<close>

definition addressed :: "('st, 'tc) s_type_lib \<Rightarrow> 'st \<Rightarrow> bytes \<Rightarrow> u64 \<Rightarrow> 'st \<Rightarrow> bool" where
  "addressed L u meta i t \<longleftrightarrow>
     (case access_PacketMeta L meta of
        Ok m \<Rightarrow> pm_handler_id m = i \<and> get_deserialize_function L u (s_type_req m) = t
      | Err _ \<Rightarrow> False)"

lemma example_dispatch:
  assumes "user_type_laws L" and "addressed L (dyn E TestResponse) meta i (dyn E t)"
    and "i = 0 \<and> t \<in> {TestMessage, TestResponse} \<and> rt = test_create_route E arc1 \<or>
      i = 1 \<and> t \<in> {ExpensiveMessage, ExpensiveResponse} \<and> rt = big_create_route E arc2"
  shows "dispatch_of L (dyn E TestResponse) (example_registrations E arc1 arc2) meta = Call rt (dyn E t)"
  using assms
  by (auto simp: addressed_def dispatch_of_def spec_route_def user_type_laws_def split: result.splits)

lemma example_call:
  assumes "key_laws L" and "user_type_laws L" and "addressed L (dyn E TestResponse) meta i (dyn E t)"
    and "i = 0 \<and> t \<in> {TestMessage, TestResponse} \<and> rt = test_create_route E arc1 \<or>
      i = 1 \<and> t \<in> {ExpensiveMessage, ExpensiveResponse} \<and> rt = big_create_route E arc2"
  shows "serve_packet L (example_router L E arc1 arc2) meta payload (addr, tx) w =
     run_handler rt addr tx (dyn E t) payload w"
  by (simp add: example_serve[OF assms(1)] serve_spec_def example_dispatch[OF assms(2-4)])

lemmas handler_defs = run_handler_def handler_value_def test_create_route_def big_create_route_def
  test_serve_route_def big_serve_route_def boxed_def unwrap_reply_def

text \<open>
  The test handler of the example server, reached through the server's router, answers a test
  message with the same message and the greeting appended to its text, and keeps the connection.
\<close>

theorem test_handler_greets:
  assumes "key_laws L" and "user_type_laws L" and "example_laws E"
    and "addressed L (dyn E TestResponse) meta 0 (dyn E TestMessage)" and "to_bytes_TestMsg E m = Some payload"
  shows "\<exists>b. serve_packet L (example_router L E arc1 arc2) meta payload (addr, tx) w = (Returned (Ok b, tx), w) \<and>
     from_slice_TestMsg E b = Some (m\<lparr>tm_message := tm_message m @ ''Hello from server!''\<rparr>)"
proof -
  let ?m = "m\<lparr>tm_message := tm_message m @ ''Hello from server!''\<rparr>"
  note laws = example_lawsD(1,2)[OF assms(3)]
  have m: "from_slice_TestMsg E payload = Some m" and d: "downcast E (dyn E TestMessage) = Some TestMessage"
    using serializesD(1)[OF laws(2)] laws(1) assms(5) by simp_all
  obtain b where b: "to_bytes_TestMsg E ?m = Some b" "from_slice_TestMsg E b = Some ?m"
    using serializesD(4)[OF laws(2), OF assms(5), of ?m] by auto
  have "serve_packet L (example_router L E arc1 arc2) meta payload (addr, tx) w =
      run_handler (test_create_route E arc1) addr tx (dyn E TestMessage) payload w"
    by (rule example_call[OF assms(1,2,4)]) simp
  then show ?thesis using b by (simp add: handler_defs d m)
qed

text \<open>
  C37. The handler for big payloads answers an expensive message with the same message and its data
  sorted: the reply decodes to a message with the same id and type whose data is the ordered
  rearrangement of the data sent.
\<close>

theorem big_payload_sorts:
  assumes "key_laws L" and "user_type_laws L" and "example_laws E"
    and "addressed L (dyn E TestResponse) meta 1 (dyn E ExpensiveMessage)"
    and "to_bytes_ExpensiveMsg E m = Some payload"
  shows "\<exists>b m'. serve_packet L (example_router L E arc1 arc2) meta payload (addr, tx) w = (Returned (Ok b, tx), w) \<and>
     from_slice_ExpensiveMsg E b = Some m' \<and> sorted (ex_data m') \<and> mset (ex_data m') = mset (ex_data m) \<and>
     ex_id m' = ex_id m \<and> ex_s_type m' = ex_s_type m"
proof -
  let ?m = "m\<lparr>ex_data := sort (ex_data m)\<rparr>"
  have m: "from_slice_ExpensiveMsg E payload = Some m"
    and d: "downcast E (dyn E ExpensiveMessage) = Some ExpensiveMessage"
    using serializesD(1)[OF example_lawsD(4)[OF assms(3)], OF assms(5)] example_lawsD(1)[OF assms(3)] by simp_all
  obtain b where b: "to_bytes_ExpensiveMsg E ?m = Some b" "from_slice_ExpensiveMsg E b = Some ?m"
    using serializesD(4)[OF example_lawsD(4)[OF assms(3)], OF assms(5), of ?m] by auto
  have "serve_packet L (example_router L E arc1 arc2) meta payload (addr, tx) w =
      run_handler (big_create_route E arc2) addr tx (dyn E ExpensiveMessage) payload w"
    by (rule example_call[OF assms(1,2,4)]) simp
  then have "serve_packet L (example_router L E arc1 arc2) meta payload (addr, tx) w = (Returned (Ok b, tx), w)"
    using b(1) by (simp add: handler_defs d m)
  then show ?thesis using b(2) by (intro exI[of _ b] exI[of _ ?m]) simp
qed

lemma undecodable_payload:
  assumes "key_laws L" and "user_type_laws L" and "example_laws E"
    and "addressed L (dyn E TestResponse) meta 0 (dyn E TestMessage)" and "from_slice_TestMsg E payload = None"
  shows "serve_packet L (example_router L E arc1 arc2) meta payload (addr, tx) w =
     (Returned (Err (ServerError (InternalError (Some handler_died))), None), w)"
proof -
  have d: "downcast E (dyn E TestMessage) = Some TestMessage"
    using assms(3) by (simp add: example_laws_def)
  have "serve_packet L (example_router L E arc1 arc2) meta payload (addr, tx) w =
      run_handler (test_create_route E arc1) addr tx (dyn E TestMessage) payload w"
    by (rule example_call[OF assms(1,2,4)]) simp
  then show ?thesis by (simp add: handler_defs d assms(5))
qed

text \<open>
  A payload that does not decode as the message it is declared to be kills the handler: the
  router reports the dead handler and the hand-off sender is lost, so that the connection is closed
  after the reply.
\<close>

theorem undecodable_payload_kills_handler:
  assumes "key_laws L" and "user_type_laws L" and "example_laws E"
    and "addressed L (dyn E TestResponse) meta 0 (dyn E TestMessage)" and "from_slice_TestMsg E payload = None"
  shows "serve_packet L (example_router L E arc1 arc2) meta payload (addr, tx) w =
     (Returned (Err (ServerError (InternalError (Some handler_died))), None), w)"
  by (rule undecodable_payload[OF assms])

section \<open>The fallback arms of the handlers\<close>

lemma example_Call_types:
  assumes "dispatch_of L (dyn E TestResponse) (example_registrations E arc1 arc2) meta = Call rt t"
    and "user_type_laws L" and "inj (type_container L)"
  shows "rt = test_create_route E arc1 \<and> t \<in> {dyn E TestMessage, dyn E TestResponse} \<or>
     rt = big_create_route E arc2 \<and> t \<in> {dyn E ExpensiveMessage, dyn E ExpensiveResponse}"
  using assms
  by (auto simp: dispatch_of_def spec_route_def user_type_laws_def inj_eq Let_def nth_Cons'
        split: result.splits option.splits if_splits)

text \<open>
  C32. The arms of the example handlers that refuse a structure type are never reached through the
  server: the router lets only the registered types through, so whatever a client sends, the only
  internal error the server reports is that of a dead handler.
\<close>

theorem handlers_never_refuse_types:
  assumes "key_laws L" and "user_type_laws L" and "inj (type_container L)" and "example_laws E"
    and "serve_packet L (example_router L E arc1 arc2) meta payload (addr, tx) w =
      (Returned (Err (ServerError (InternalError reason)), tx'), w')"
  shows "reason = Some handler_died"
proof -
  let ?d = "dispatch_of L (dyn E TestResponse) (example_registrations E arc1 arc2 :: ('a, 'c) registration list) meta"
  have spec: "serve_spec L (dyn E TestResponse) (example_registrations E arc1 arc2) meta payload (addr, tx) w =
      (Returned (Err (ServerError (InternalError reason)), tx'), w')"
    using assms(5) by (simp add: example_serve[OF assms(1)])
  then obtain rt t where call: "?d = Call rt t"
    by (auto simp: serve_spec_def split: dispatch.splits option.splits)
  then have run: "run_handler rt addr tx t payload w = (Returned (Err (ServerError (InternalError reason)), tx'), w')"
    using spec by (simp add: serve_spec_def)
  have "downcast E (dyn E s) = Some s" for s using assms(4) by (simp add: example_laws_def)
  then show ?thesis
    using example_Call_types[OF call assms(2,3)] run
    by (auto simp: handler_defs split: option.splits)
qed

section \<open>The example client and the example server\<close>

definition greeted_test_msg :: test_msg where
  "greeted_test_msg = \<lparr>tm_s_type = TestMessage, tm_id = 12, tm_data = [32, 32, 23, 42],
     tm_message = ''hello from clientHello from server!''\<rparr>"

lemma greeted_test_msg_tag: "tm_s_type greeted_test_msg = TestMessage"
  by (simp add: greeted_test_msg_def)

lemma test_request_reply:
  assumes "key_laws L" and "wire_laws L" and "user_type_laws L" and "example_laws E"
    and "make_test_request E = Some r"
  obtains d where "\<And>addr tx w. serve_packet L (example_router L E arc1 arc2)
      (meta_of L \<lparr>req = r, consumer = k\<rparr> 0) (dr_data r) (addr, tx) w = (Returned (Ok d, tx), w)"
    and "from_slice_TestMsg E d = Some greeted_test_msg"
proof -
  let ?q = "\<lparr>req = r, consumer = k\<rparr>"
  let ?m = "\<lparr>tm_s_type = TestMessage, tm_id = 12, tm_data = [32, 32, 23, 42], tm_message = ''hello from client''\<rparr>"
  have r: "to_bytes_TestMsg E ?m = Some (dr_data r)" "dr_s_type r = dyn E TestMessage"
    using assms(5) by (auto simp: make_test_request_def)
  have g: "?m\<lparr>tm_message := tm_message ?m @ ''Hello from server!''\<rparr> = greeted_test_msg"
    by (simp add: greeted_test_msg_def)
  obtain d where d: "to_bytes_TestMsg E greeted_test_msg = Some d" "from_slice_TestMsg E d = Some greeted_test_msg"
    using serializesD(3)[OF example_lawsD(2)[OF assms(4)], of greeted_test_msg] greeted_test_msg_tag by blast
  have dec: "from_slice_TestMsg E (dr_data r) = Some ?m" and dc: "downcast E (dyn E TestMessage) = Some TestMessage"
    by (rule serializesD(1)[OF example_lawsD(2)[OF assms(4)], OF r(1)], rule example_lawsD(1)[OF assms(4)])
  have a: "addressed L (dyn E TestResponse) (meta_of L ?q 0) 0 (dyn E TestMessage)"
    using assms(3) r(2)
    by (simp add: addressed_def meta_of_access(2)[OF assms(2)]) (simp add: packet_meta_of_def user_type_laws_def)
  have "serve_packet L (example_router L E arc1 arc2) (meta_of L ?q 0) (dr_data r) (addr, tx) w =
      run_handler (test_create_route E arc1) addr tx (dyn E TestMessage) (dr_data r) w" for addr tx and w :: 'd
    by (rule example_call[OF assms(1,3) a]) simp
  then have "serve_packet L (example_router L E arc1 arc2) (meta_of L ?q 0) (dr_data r) (addr, tx) w =
      (Returned (Ok d, tx), w)" for addr tx and w :: 'd
    using d(1) by (simp add: handler_defs dec dc g[simplified])
  then show thesis using that d(2) by blast
qed

lemma example_test_answering:
  fixes c :: "('st, 'tc, 's) connection"
  assumes "wire_laws L" and "c_lib c = L" and "key_laws L" and "user_type_laws L" and "example_laws E"
    and "c_router c = example_router L E arc1 arc2" and "make_test_request E = Some r"
    and "to_bytes_HandlerMetaReq L \<lparr>hmr_s_type = ST_HandlerMetaReq, handler_name = ''TEST_HANDLER''\<rparr> = Some b"
  obtains ans d where "dr_data r \<noteq> []" and "names_handler ''TEST_HANDLER'' \<lparr>req = r, consumer = k\<rparr>"
    and "to_bytes_HandlerMetaAns L \<lparr>hma_s_type = ST_HandlerMetaAns, hma_id = 0\<rparr> = Some ans"
    and "from_slice_TestMsg E d = Some greeted_test_msg"
    and "\<And>ins outs. answering c ins outs {(b, []), (meta_of L \<lparr>req = r, consumer = k\<rparr> 0, dr_data r)}
           (\<lambda>m p. if p = [] then ans else d)"
proof -
  let ?q = "\<lparr>req = r, consumer = k\<rparr>"
  obtain d where d: "\<And>addr tx (w :: 's). serve_packet L (example_router L E arc1 arc2)
      (meta_of L ?q 0) (dr_data r) (addr, tx) w = (Returned (Ok d, tx), w)" "from_slice_TestMsg E d = Some greeted_test_msg"
    by (rule test_request_reply[OF assms(3,1,4,5,7), of arc1 arc2 k]) blast
  obtain ans where ans: "to_bytes_HandlerMetaAns L \<lparr>hma_s_type = ST_HandlerMetaAns, hma_id = 0\<rparr> = Some ans"
    using wire_HandlerMetaAnsE[OF assms(1)] by (metis handler_meta_ans.select_convs(1))
  have name: "serve_packet L (example_router L E arc1 arc2) b [] (addr, tx) w = (Returned (Ok ans, tx), w)"
    for addr tx and w :: 's
    using name_request_bytes(1,2)[OF assms(1,8)] ans
    by (auto simp: serve_packet_def example_router_built names_build_router)
  have data: "dr_data r \<noteq> []" "names_handler ''TEST_HANDLER'' ?q"
    using assms(7) serializesD(2)[OF example_lawsD(2)[OF assms(5)]]
    by (auto simp: make_test_request_def names_handler_def)
  have "answering c ins outs {(b, []), (meta_of L ?q 0, dr_data r)} (\<lambda>m p. if p = [] then ans else d)" for ins outs
    unfolding answering_def assms(2,6) using name d(1) data(1) by (simp add: untouched_def)
  then show thesis using that data ans d(2) by blast
qed

text \<open>
  The example client's test request, sent to the example server over a reliable link, comes back
  as the same message with the server's greeting appended: the client asks for the name
  \<^verbatim>\<open>TEST_HANDLER\<close>, sends the request under the id it learns, and hands the reply to the
  caller.
\<close>

theorem example_client_gets_greeting:
  fixes c :: "('st, 'tc, 's) connection"
  assumes "client_world IO K socket processor rx ins outs cpre cpost queue log"
    and "duplex c sins souts spre spost" and "linked L c cpre cpost spre spost"
    and "key_laws L" and "user_type_laws L" and "example_laws E" and "c_router c = example_router L E arc1 arc2"
    and "make_test_request E = Some r" and "queue w = [\<lparr>req = r, consumer = k\<rparr>]"
    and "lookup_route tr ''TEST_HANDLER'' = None"
    and "to_bytes_HandlerMetaReq L \<lparr>hmr_s_type = ST_HandlerMetaReq, handler_name = ''TEST_HANDLER''\<rparr> = Some b"
    and "sins s = map cpost (b # concat (map (named_frames L 0) (queue w)))" and "souts s = []"
    and "handle_connection c s = Some (e, s')" and "ins w = souts s'"
  shows "\<exists>tr' w' d. client_task L IO K socket processor rx tr w = Some (tr', w') \<and>
     log w' = log w @ [(k, Some d)] \<and> from_slice_TestMsg E d = Some greeted_test_msg"
proof -
  let ?q = "\<lparr>req = r, consumer = k\<rparr>"
  have wire: "wire_laws L" and lib: "c_lib c = L" and undo: "spre \<circ> cpost = id"
    using assms(3) by (auto simp: linked_def)
  obtain ans d where data: "dr_data r \<noteq> []" "names_handler ''TEST_HANDLER'' ?q"
      and d: "from_slice_TestMsg E d = Some greeted_test_msg"
      and answers: "answering c sins souts {(b, []), (meta_of L ?q 0, dr_data r)} (\<lambda>m p. if p = [] then ans else d)"
    by (rule example_test_answering[OF wire lib assms(4-8,11), of k]) blast
  have router: "c_router c = build_router L (dyn E TestResponse) (example_registrations E arc1 arc2)"
    by (simp add: assms(7) example_router_built)
  have "map spre (sins s) = b # concat (map (named_frames L 0) [?q])"
    by (simp only: assms(9,12) map_map undo list.map_id)
  then have "packets L (map spre (sins s)) = [(b, []), (meta_of L ?q 0, dr_data r)]"
    using packets_named[OF wire name_request_bytes(3)[OF wire assms(11)], of "[?q]" 0] data(1) by simp
  then have "answering c sins souts (set (packets L (map spre (sins s)))) (\<lambda>m p. if p = [] then ans else d)"
    using answers by simp
  from named_requests[OF assms(1,2) this assms(3) router _ assms(9) _ _ assms(10-15)] show ?thesis
    using assms(9) data d by auto
qed

section \<open>The example server never stops by itself\<close>

text \<open>
  C39. The program of the example server calls \<^verbatim>\<open>send_stop\<close> on the signal its acceptor
  listens to, but only after it has waited for the acceptor to end: unless something else gives the stop
  signal, the program never gets there and serves for ever.
\<close>

theorem example_server_never_stops_itself:
  assumes "logger_init w = (Returned v, w0)"
    and "tf_server_new N ''127.0.0.1:9973'' (example_router L E arc1 arc2) None
           (spake2_server server_password ''server'') None SM_WebSocket w0 = (Ok sv, w1)"
    and "server_start N IO sv w1 = ((a, sv'), w2)"
    and "event_queue N IO a events" and "ShutdownNotified \<notin> set (events w2)"
  shows "srv_shutdown_sig sv' = a_shutdown_sig a \<and>
     server_ex_main logger_init L E arc1 arc2 spake2_server N IO w = None"
proof
  show "srv_shutdown_sig sv' = a_shutdown_sig a"
    using assms(3) by (auto simp: server_start_def split: prod.splits)
  have "acceptor_loop N IO a w2 = None"
    using acceptor_ends_only_if_stopped[OF assms(4), of w2] assms(5)
    by (cases "acceptor_loop N IO a w2") auto
  then show "server_ex_main logger_init L E arc1 arc2 spake2_server N IO w = None"
    by (simp add: server_ex_main_def assms(1-3))
qed

section \<open>Examples\<close>

text \<open>A serialization of the messages: lists are written with a mark before every byte.\<close>

fun enc_list :: "bytes \<Rightarrow> bytes" where
  "enc_list [] = [0]"
| "enc_list (x # xs) = 1 # x # enc_list xs"

fun dec_list :: "bytes \<Rightarrow> (bytes \<times> bytes) option" where
  "dec_list (t # r) =
     (if t = 0 then Some ([], r)
      else (case r of
              [] \<Rightarrow> None
            | x # r' \<Rightarrow> map_option (\<lambda>(d, rest). (x # d, rest)) (dec_list r')))"
| "dec_list [] = None"

lemma dec_enc_list [simp]: "dec_list (enc_list d @ r) = Some (d, r)"
  by (induction d) auto

fun type_tag :: "example_s_type \<Rightarrow> u64" where
  "type_tag TestMessage = 0"
| "type_tag TestResponse = 1"
| "type_tag ExpensiveMessage = 2"
| "type_tag ExpensiveResponse = 3"
| "type_tag ManualHandlerRequest = 4"

definition tag_type :: "u64 \<Rightarrow> example_s_type option" where
  "tag_type n =
     (if n = 0 then Some TestMessage else if n = 1 then Some TestResponse
      else if n = 2 then Some ExpensiveMessage else if n = 3 then Some ExpensiveResponse
      else if n = 4 then Some ManualHandlerRequest else None)"

lemma tag_type_tag [simp]: "tag_type (type_tag t) = Some t"
  by (cases t) (simp_all add: tag_type_def)

definition enc_message :: "example_s_type \<Rightarrow> u64 \<Rightarrow> bytes \<Rightarrow> string \<Rightarrow> bytes" where
  "enc_message t i d msg = bits64 (type_tag t) @ bits64 i @ enc_list d @ as_bytes msg"

definition dec_message :: "bytes \<Rightarrow> (example_s_type \<times> u64 \<times> bytes \<times> string) option" where
  "dec_message b =
     (case (tag_type (unbits (take 64 b)), dec_list (drop 128 b)) of
        (Some t, Some (d, msg)) \<Rightarrow> Some (t, unbits (take 64 (drop 64 b)), d, from_bytes msg)
      | _ \<Rightarrow> None)"

lemma bits64_not_Nil [simp]: "bits64 x \<noteq> []"
  by (metis length_bits64 list.size(3) zero_neq_numeral)

lemma dec_enc_message [simp]: "dec_message (enc_message t i d msg) = Some (t, i, d, msg)" "enc_message t i d msg \<noteq> []"
  by (simp_all add: dec_message_def enc_message_def)

definition enc_test_msg :: "test_msg \<Rightarrow> bytes" where
  "enc_test_msg m = enc_message (tm_s_type m) (tm_id m) (tm_data m) (tm_message m)"

definition dec_test_msg :: "bytes \<Rightarrow> test_msg option" where
  "dec_test_msg b =
     map_option (\<lambda>(t, i, d, msg). \<lparr>tm_s_type = t, tm_id = i, tm_data = d, tm_message = msg\<rparr>) (dec_message b)"

definition enc_test_response :: "test_response \<Rightarrow> bytes" where
  "enc_test_response m = enc_message (tr_s_type m) (tr_id m) (tr_data m) (tr_another_message m)"

definition dec_test_response :: "bytes \<Rightarrow> test_response option" where
  "dec_test_response b =
     map_option (\<lambda>(t, i, d, msg). \<lparr>tr_s_type = t, tr_id = i, tr_data = d, tr_another_message = msg\<rparr>) (dec_message b)"

definition enc_expensive_msg :: "expensive_msg \<Rightarrow> bytes" where
  "enc_expensive_msg m = enc_message (ex_s_type m) (ex_id m) (ex_data m) []"

definition dec_expensive_msg :: "bytes \<Rightarrow> expensive_msg option" where
  "dec_expensive_msg b =
     map_option (\<lambda>(t, i, d, msg). \<lparr>ex_s_type = t, ex_id = i, ex_data = d\<rparr>) (dec_message b)"

definition enc_expensive_response :: "expensive_response \<Rightarrow> bytes" where
  "enc_expensive_response m = enc_message (er_s_type m) (er_id m) (er_data m) []"

definition dec_expensive_response :: "bytes \<Rightarrow> expensive_response option" where
  "dec_expensive_response b =
     map_option (\<lambda>(t, i, d, msg). \<lparr>er_s_type = t, er_id = i, er_data = d\<rparr>) (dec_message b)"

lemma dec_enc_messages [simp]:
  "dec_test_msg (enc_test_msg m1) = Some m1" "enc_test_msg m1 \<noteq> []"
  "dec_test_response (enc_test_response m2) = Some m2" "enc_test_response m2 \<noteq> []"
  "dec_expensive_msg (enc_expensive_msg m3) = Some m3" "enc_expensive_msg m3 \<noteq> []"
  "dec_expensive_response (enc_expensive_response m4) = Some m4" "enc_expensive_response m4 \<noteq> []"
  by (simp_all add: dec_test_msg_def enc_test_msg_def dec_test_response_def enc_test_response_def
        dec_expensive_msg_def enc_expensive_msg_def dec_expensive_response_def enc_expensive_response_def)

definition sample_example :: "u64 example_lib" where
  "sample_example = \<lparr>dyn = type_tag, downcast = tag_type,
     from_slice_TestMsg = dec_test_msg, to_bytes_TestMsg = \<lambda>m. Some (enc_test_msg m),
     from_slice_TestResponse = dec_test_response, to_bytes_TestResponse = \<lambda>m. Some (enc_test_response m),
     from_slice_ExpensiveMsg = dec_expensive_msg, to_bytes_ExpensiveMsg = \<lambda>m. Some (enc_expensive_msg m),
     from_slice_ExpensiveResponse = dec_expensive_response,
     to_bytes_ExpensiveResponse = \<lambda>m. Some (enc_expensive_response m)\<rparr>"

lemma sample_example_laws: "example_laws sample_example"
  by (auto simp: example_laws_def serializes_def sample_example_def)

definition sample_packet_to :: "u64 \<Rightarrow> example_s_type \<Rightarrow> bytes" where
  "sample_packet_to i t = 1 # of_bool True # bits64 (type_tag t) @ bits64 i"

lemma sample_addressed:
  "addressed sample_lib (dyn sample_example TestResponse) (sample_packet_to i t) i (dyn sample_example t)"
  unfolding addressed_def sample_packet_to_def sample_lib_simps sample_packet_bytes by (simp add: sample_example_def)

definition small_test_msg :: test_msg where
  "small_test_msg = \<lparr>tm_s_type = TestMessage, tm_id = 3, tm_data = [1], tm_message = ''hi''\<rparr>"

theorem test_handler_greets_witness:
  "\<exists>b. serve_packet sample_lib (example_router sample_lib sample_example 0 0) (sample_packet_to 0 TestMessage)
       (enc_test_msg small_test_msg) (''peer'', Some 1) () = (Returned (Ok b, Some 1), ()) \<and>
     from_slice_TestMsg sample_example b =
       Some (small_test_msg\<lparr>tm_message := tm_message small_test_msg @ ''Hello from server!''\<rparr>)"
  by (rule test_handler_greets[OF sample_key_laws sample_user_type_laws sample_example_laws sample_addressed])
     (simp add: sample_example_def)

theorem big_payload_sorts_witness:
  "\<exists>b m'. serve_packet sample_lib (example_router sample_lib sample_example 0 0)
       (sample_packet_to 1 ExpensiveMessage)
       (enc_expensive_msg \<lparr>ex_s_type = ExpensiveMessage, ex_id = 5, ex_data = [3, 1, 2]\<rparr>) (''peer'', Some 1) () =
       (Returned (Ok b, Some 1), ()) \<and>
     from_slice_ExpensiveMsg sample_example b = Some m' \<and> sorted (ex_data m') \<and>
     mset (ex_data m') = mset [3, 1, 2] \<and> ex_id m' = 5"
  using big_payload_sorts[OF sample_key_laws sample_user_type_laws sample_example_laws sample_addressed,
      of "\<lparr>ex_s_type = ExpensiveMessage, ex_id = 5, ex_data = [3, 1, 2]\<rparr>"
         "enc_expensive_msg \<lparr>ex_s_type = ExpensiveMessage, ex_id = 5, ex_data = [3, 1, 2]\<rparr>" 0 0 "''peer''" "Some 1" "()"]
  by (fastforce simp: sample_example_def)

theorem undecodable_payload_kills_handler_witness:
  "serve_packet sample_lib (example_router sample_lib sample_example 0 0) (sample_packet_to 0 TestMessage)
     [] (''peer'', Some 1) () = (Returned (Err (ServerError (InternalError (Some handler_died))), None), ())"
  by (rule undecodable_payload_kills_handler
        [OF sample_key_laws sample_user_type_laws sample_example_laws sample_addressed])
     (simp add: sample_example_def dec_test_msg_def dec_message_def split: option.split)

theorem handlers_never_refuse_types_witness:
  "\<exists>reason. serve_packet sample_lib (example_router sample_lib sample_example 0 0) (sample_packet_to 0 TestMessage)
     [] (''peer'', Some 1) () = (Returned (Err (ServerError (InternalError reason)), None), ()) \<and>
     reason = Some handler_died"
proof -
  have inj: "inj (type_container sample_lib)" by (simp add: inj_def)
  have "from_slice_TestMsg sample_example [] = None"
    by (simp add: sample_example_def dec_test_msg_def dec_message_def split: option.split)
  then have "serve_packet sample_lib (example_router sample_lib sample_example 0 0) (sample_packet_to 0 TestMessage)
      [] (''peer'', Some 1) () = (Returned (Err (ServerError (InternalError (Some handler_died))), None), ())"
    by (rule undecodable_payload[OF sample_key_laws sample_user_type_laws sample_example_laws sample_addressed])
  with handlers_never_refuse_types[OF sample_key_laws sample_user_type_laws inj sample_example_laws this]
  show ?thesis by blast
qed

definition example_conn :: "(u64, u64, qworld) connection" where
  "example_conn = (sample_conn [])\<lparr>c_router := example_router sample_lib sample_example 0 0\<rparr>"

lemma example_conn_simps [simp]:
  "c_lib example_conn = sample_lib" "c_router example_conn = example_router sample_lib sample_example 0 0"
  by (simp_all add: example_conn_def)

lemma example_conn_linked:
  "duplex example_conn q_in q_out (\<lambda>b. b) (\<lambda>b. b)"
  "linked sample_lib example_conn (\<lambda>b. b) (\<lambda>b. b) (\<lambda>b. b) (\<lambda>b. b)"
  by (simp_all add: duplex_def linked_def untouched_def queue_fifo sample_wire_laws example_conn_def)

definition sample_test_request :: "u64 data_request" where
  "sample_test_request = (case make_test_request sample_example of Some r \<Rightarrow> r)"

lemma sample_test_request: "make_test_request sample_example = Some sample_test_request"
  by (simp add: sample_test_request_def make_test_request_def sample_example_def)

theorem example_client_gets_greeting_witness:
  "\<exists>ins tr' w' d. client_task sample_lib queue_io sample_client_io 0 0 0 target_router_new
       (sample_cworld ins [\<lparr>req = sample_test_request, consumer = 6\<rparr>]) = Some (tr', w') \<and>
     cw_log w' = [(6, Some d)] \<and> from_slice_TestMsg sample_example d = Some greeted_test_msg"
proof -
  let ?q = "\<lparr>req = sample_test_request, consumer = 6\<rparr>" and ?b = "2 # as_bytes ''TEST_HANDLER''"
  let ?s = "\<lparr>q_in = ?b # named_frames sample_lib 0 ?q, q_out = [], q_closed = False\<rparr>"
  have b: "to_bytes_HandlerMetaReq sample_lib \<lparr>hmr_s_type = ST_HandlerMetaReq, handler_name = ''TEST_HANDLER''\<rparr> = Some ?b"
    by simp
  obtain ans d where d: "dr_data sample_test_request \<noteq> []"
      "answering example_conn q_in q_out {(?b, []), (meta_of sample_lib ?q 0, dr_data sample_test_request)}
         (\<lambda>m p. if p = [] then ans else d)"
    using example_test_answering[OF sample_wire_laws example_conn_simps(1) sample_key_laws sample_user_type_laws
        sample_example_laws example_conn_simps(2) sample_test_request b, of 6] by metis
  have "packets sample_lib (q_in ?s) = [(?b, []), (meta_of sample_lib ?q 0, dr_data sample_test_request)]"
    using packets_named[OF sample_wire_laws name_request_bytes(3)[OF sample_wire_laws b], of "[?q]" 0] d(1) by simp
  then obtain s' where "handle_connection example_conn ?s = Some (PeerGone, s')"
    using handle_connection_replies[OF example_conn_linked(1), of ?s] d(2) by auto
  from example_client_gets_greeting[OF sample_client_world example_conn_linked sample_key_laws sample_user_type_laws
      sample_example_laws example_conn_simps(2) sample_test_request _ _ b _ _ this,
      of "sample_cworld (q_out s') [?q]" 6 target_router_new]
  show ?thesis
    by (auto simp: sample_cworld_def lookup_route_def target_router_new_def)
qed

theorem example_server_never_stops_itself_witness:
  "server_ex_main (\<lambda>w. (Returned (), w)) sample_lib sample_example 0 0 (\<lambda>pw name. 0) sample_net queue_io
     (sample_sworld [Accepted 7 ''a'', Accepted 8 ''b'']) = None"
proof -
  let ?w = "sample_sworld [Accepted 7 ''a'', Accepted 8 ''b'']"
  let ?sv = "\<lparr>srv_router = example_router sample_lib sample_example 0 0 :: (u64, u64, sworld) tf_server_router,
    srv_socket = 0, srv_shutdown_sig = 0, srv_processor = None, srv_codec = 0, srv_config = None, srv_mode = SM_WebSocket\<rparr>"
  let ?a = "sample_acceptor\<lparr>a_config := None, a_mode := SM_WebSocket\<rparr>"
  have new: "tf_server_new sample_net ''127.0.0.1:9973'' (example_router sample_lib sample_example 0 0) None 0 None
      SM_WebSocket ?w = (Ok ?sv, ?w)"
    by (simp add: tf_server_new_def sample_net_def)
  have start: "server_start sample_net queue_io ?sv ?w = ((?a, ?sv), ?w)"
    by (simp add: server_start_def sample_net_def sample_acceptor_def)
  from example_server_never_stops_itself[OF _ new start sample_event_queue, of "\<lambda>w. (Returned (), w)" ?w "()"]
  show ?thesis by (simp add: sample_sworld_def)
qed

end
