(* ===== verification/Example_Client.thy ===== *)
theory Example_Client
  imports Example_Handlers Session Std_Text
begin

text \<open>
  \<^verbatim>\<open>tf-examples/src/client_ex.rs\<close> and \<^verbatim>\<open>tf-examples/src/s_type_example/usage_example.rs\<close>:
  the program of the example client, a session of the example client with the example server, and the
  serialization example.  Printing and seeding the random numbers, which may panic, the clock and the channels
  are parameters.
\<close>

section \<open>The program of the example client\<close>

text \<open>
  \<^verbatim>\<open>env_logger::init\<close> panics when a logger is set already.  \<open>response_recv\<close> awaits a
  one-shot channel and gives the text of the \<^verbatim>\<open>RecvError\<close> when its sender was dropped.
  \<^verbatim>\<open>rand::rng\<close> panics when it cannot be seeded, and printing panics when the output is closed.
  Instants are in nanoseconds.
\<close>

record 'w client_ex_io =
  env_logger_init :: "'w \<Rightarrow> unit run \<times> 'w"
  response_channel :: "'w \<Rightarrow> (sender \<times> receiver) \<times> 'w"
  response_recv :: "receiver \<Rightarrow> 'w \<Rightarrow> (bytes, string) result \<times> 'w"
  rand_rng :: "'w \<Rightarrow> (nat \<Rightarrow> u8) run \<times> 'w"
  instant_now :: "'w \<Rightarrow> nat \<times> 'w"
  ex_println :: "string \<Rightarrow> 'w \<Rightarrow> unit run \<times> 'w"
  ex_eprintln :: "string \<Rightarrow> 'w \<Rightarrow> unit run \<times> 'w"

text \<open>
  The steps the two requests of a round share: a channel, the request, dispatching it and waiting for the
  response.  The value is the instant before the dispatch and the response.
\<close>

definition client_ex_ask ::
  "('st, 'w) client_io \<Rightarrow> 'w client_ex_io \<Rightarrow> client_connect \<Rightarrow> ('w \<Rightarrow> 'st data_request option \<times> 'w)
     \<Rightarrow> ('w, nat \<times> (bytes, string) result) future" where
  "client_ex_ask K X client mk w =
     (case response_channel X w of ((tx, rx), w1) \<Rightarrow>
        (case mk w1 of
           (None, w2) \<Rightarrow> (Panicked, w2)
         | (Some test_req, w2) \<Rightarrow>
             (case instant_now X w2 of (start, w3) \<Rightarrow>
                (case dispatch_request K client \<lparr>req = test_req, consumer = tx\<rparr> w3 of
                   (Err e, w4) \<Rightarrow> (Panicked, w4)
                 | (Ok _, w4) \<Rightarrow>
                     (case response_recv X rx w4 of (res, w5) \<Rightarrow> (Returned (start, res), w5))))))"

definition print_delay :: "'w client_ex_io \<Rightarrow> string \<Rightarrow> nat \<Rightarrow> 'w \<Rightarrow> unit run \<times> 'w" where
  "print_delay X what start w =
     (case instant_now X w of (t, w1) \<Rightarrow>
        ex_println X (what @ show_nat ((t - start) div 1000) @ '' microseconds'') w1)"

text \<open>The big request: its bytes are drawn first.\<close>

definition random_big_request :: "'st example_lib \<Rightarrow> 'w client_ex_io \<Rightarrow> 'w \<Rightarrow> 'st data_request option \<times> 'w" where
  "random_big_request E X w =
     (case rand_rng X w of
        (Panicked, w1) \<Rightarrow> (None, w1)
      | (Returned rng, w1) \<Rightarrow> (make_big_payload_request E rng, w1))"

definition client_ex_round ::
  "'st example_lib \<Rightarrow> ('st, 'w) client_io \<Rightarrow> 'w client_ex_io \<Rightarrow> client_connect \<Rightarrow> ('w, unit) future" where
  "client_ex_round E K X client w =
     (case client_ex_ask K X client (\<lambda>w. (make_test_request E, w)) w of
        (Panicked, w1) \<Rightarrow> (Panicked, w1)
      | (Returned (start, res), w1) \<Rightarrow>
          (case (case res of Ok resp \<Rightarrow> print_delay X ''Delay '' start w1 | Err e \<Rightarrow> ex_eprintln X e w1) of
             (Panicked, w2) \<Rightarrow> (Panicked, w2)
           | (Returned _, w2) \<Rightarrow>
               (case client_ex_ask K X client (random_big_request E X) w2 of
                  (Panicked, w3) \<Rightarrow> (Panicked, w3)
                | (Returned (start', Err e), w3) \<Rightarrow> (Returned (), w3)
                | (Returned (start', Ok resp), w3) \<Rightarrow>
                    (case print_delay X ''Delay on high payload request: '' start' w3 of
                       (Panicked, w4) \<Rightarrow> (Panicked, w4)
                     | (Returned _, w4) \<Rightarrow>
                         (case from_slice_ExpensiveResponse E resp of
                            None \<Rightarrow> (Panicked, w4)
                          | Some _ \<Rightarrow> (Returned (), w4))))))"

text \<open>The loop has no exit of its own; its value is the panic that ends it.\<close>

partial_function (option) client_ex_loop ::
  "'st example_lib \<Rightarrow> ('st, 'w) client_io \<Rightarrow> 'w client_ex_io \<Rightarrow> client_connect \<Rightarrow> 'w
     \<Rightarrow> (unit run \<times> 'w) option" where
  "client_ex_loop E K X client w =
     (case client_ex_round E K X client w of
        (Panicked, w1) \<Rightarrow> Some (Panicked, w1)
      | (Returned _, w1) \<Rightarrow> client_ex_loop E K X client w1)"

text \<open>\<open>spake2_client\<close> builds the codec from the credentials and the server's name.\<close>

definition client_ex_main ::
  "'st example_lib \<Rightarrow> ((bytes \<times> bytes) option \<Rightarrow> string \<Rightarrow> codec) \<Rightarrow> 'w client_net \<Rightarrow> 'w conn_io
     \<Rightarrow> ('st, 'w) client_io \<Rightarrow> 'w client_ex_io \<Rightarrow> 'w \<Rightarrow> (unit run \<times> 'w) option" where
  "client_ex_main E spake2_client N IO K X w =
     (case env_logger_init X w of
        (Panicked, w1) \<Rightarrow> Some (Panicked, w1)
      | (Returned _, w1) \<Rightarrow>
          (case client_connect_new N IO K ''localhost'' ''127.0.0.1:9973'' None
                  (spake2_client client_credentials ''server'') (CM_WebSocket ''ws://127.0.0.1:9973/ws'') 2500 w1 of
             (Panicked, w2) \<Rightarrow> Some (Panicked, w2)
           | (Returned (Err e), w2) \<Rightarrow> Some (Panicked, w2)
           | (Returned (Ok client), w2) \<Rightarrow> client_ex_loop E K X client w2))"

section \<open>When the example client stops\<close>

text \<open>The world after \<open>n\<close> rounds that did not panic.\<close>

fun after_rounds ::
  "'st example_lib \<Rightarrow> ('st, 'w) client_io \<Rightarrow> 'w client_ex_io \<Rightarrow> client_connect \<Rightarrow> nat \<Rightarrow> 'w \<Rightarrow> 'w option" where
  "after_rounds E K X client 0 w = Some w"
| "after_rounds E K X client (Suc n) w =
     (case client_ex_round E K X client w of
        (Panicked, w1) \<Rightarrow> None
      | (Returned _, w1) \<Rightarrow> after_rounds E K X client n w1)"

lemma client_ex_loop_step:
  "client_ex_round E K X client w = (Returned u, w1) \<Longrightarrow>
   client_ex_loop E K X client w = client_ex_loop E K X client w1"
  by (subst client_ex_loop.simps) simp

lemma client_ex_loop_ends:
  "after_rounds E K X client n w = Some wn \<Longrightarrow> client_ex_round E K X client wn = (Panicked, w') \<Longrightarrow>
   client_ex_loop E K X client w = Some (Panicked, w')"
proof (induction n arbitrary: w)
  case 0
  then show ?case by (subst client_ex_loop.simps) simp
next
  case (Suc n)
  then show ?case by (auto simp: client_ex_loop_step split: prod.splits run.splits)
qed

definition stops_at ::
  "'st example_lib \<Rightarrow> ('st, 'w) client_io \<Rightarrow> 'w client_ex_io \<Rightarrow> client_connect \<Rightarrow> 'w \<Rightarrow> unit run \<times> 'w \<Rightarrow> bool" where
  "stops_at E K X client w rw \<longleftrightarrow>
     fst rw = Panicked \<and>
     (\<exists>n wn. after_rounds E K X client n w = Some wn \<and> client_ex_round E K X client wn = (Panicked, snd rw))"

lemma stops_at_step:
  assumes "client_ex_round E K X client w = (Returned u, w1)" and "stops_at E K X client w1 rw"
  shows "stops_at E K X client w rw"
proof -
  obtain n wn where "after_rounds E K X client n w1 = Some wn" "client_ex_round E K X client wn = (Panicked, snd rw)"
      "fst rw = Panicked"
    using assms(2) by (auto simp: stops_at_def)
  then show ?thesis using assms(1) unfolding stops_at_def by (intro conjI exI[of _ "Suc n"] exI[of _ wn]) simp_all
qed

lemma stops_at_now:
  "client_ex_round E K X client w = (Panicked, w1) \<Longrightarrow> stops_at E K X client w (Panicked, w1)"
  unfolding stops_at_def by (intro conjI exI[of _ 0] exI[of _ w]) simp_all

lemma client_ex_loop_panics:
  assumes "client_ex_loop E K X client w = Some rw"
  shows "stops_at E K X client w rw"
  by (rule client_ex_loop.raw_induct[OF _ assms, where P = stops_at])
     (auto split: prod.splits run.splits intro: stops_at_now stops_at_step)

lemma client_ex_loop_iff:
  "client_ex_loop E K X client w = Some rw \<longleftrightarrow> stops_at E K X client w rw"
  using client_ex_loop_panics client_ex_loop_ends unfolding stops_at_def by (metis prod.collapse)

text \<open>
  What can end a round: the queue is closed, random bytes cannot be had, a line cannot be printed, or a reply to
  the big request does not decode.
\<close>

definition round_broken ::
  "'st example_lib \<Rightarrow> ('st, 'w) client_io \<Rightarrow> 'w client_ex_io \<Rightarrow> client_connect \<Rightarrow> 'w \<Rightarrow> bool" where
  "round_broken E K X client w' \<longleftrightarrow>
     (\<exists>q e w1. mpsc_send K (cc_tx client) q w1 = (Err e, w')) \<or>
     (\<exists>w1. rand_rng X w1 = (Panicked, w')) \<or>
     (\<exists>line w1. ex_println X line w1 = (Panicked, w') \<or> ex_eprintln X line w1 = (Panicked, w')) \<or>
     (\<exists>rx w1 resp w2 start. response_recv X rx w1 = (Ok resp, w2) \<and> from_slice_ExpensiveResponse E resp = None \<and>
        print_delay X ''Delay on high payload request: '' start w2 = (Returned (), w'))"

lemma requests_serialize:
  assumes "example_laws E"
  shows "\<exists>r. make_test_request E = Some r" and "\<exists>r. make_big_payload_request E rng = Some r"
proof -
  have t: "\<exists>b. to_bytes_TestMsg E m = Some b" if "tm_s_type m = TestMessage" for m
    using serializesD(3)[OF example_lawsD(2)[OF assms] that] by blast
  show "\<exists>r. make_test_request E = Some r"
    by (simp add: make_test_request_def) (rule t, rule test_msg.select_convs(1))
  have b: "\<exists>b. to_bytes_ExpensiveResponse E m = Some b" if "er_s_type m = ExpensiveResponse" for m
    using serializesD(3)[OF example_lawsD(5)[OF assms] that] by blast
  show "\<exists>r. make_big_payload_request E rng = Some r"
    by (simp add: make_big_payload_request_def) (rule b, rule expensive_response.select_convs(1))
qed

lemma random_big_request_None:
  assumes "example_laws E" and "random_big_request E X w = (None, w')"
  shows "rand_rng X w = (Panicked, w')"
  using assms(2) requests_serialize(2)[OF assms(1)]
  by (auto simp: random_big_request_def split: prod.splits run.splits) (metis option.distinct(1))

lemma client_ex_ask_panics:
  assumes "client_ex_ask K X client mk w = (Panicked, w')"
  shows "(\<exists>q e w1. mpsc_send K (cc_tx client) q w1 = (Err e, w')) \<or> (\<exists>w1. mk w1 = (None, w'))"
  using assms
  by (auto simp: client_ex_ask_def dispatch_request_def split: prod.splits option.splits result.splits)
     (metis map_err.simps(1) result.distinct(1) result.exhaust)+

lemma client_ex_ask_response:
  "client_ex_ask K X client mk w = (Returned (start, res), w') \<Longrightarrow> \<exists>rx w1. response_recv X rx w1 = (res, w')"
  by (auto simp: client_ex_ask_def split: prod.splits option.splits result.splits)

lemma print_delay_panics: "print_delay X what start w = (Panicked, w') \<Longrightarrow> \<exists>line w1. ex_println X line w1 = (Panicked, w')"
  by (auto simp: print_delay_def split: prod.splits)

lemma big_request_panics:
  assumes "example_laws E" and 3: "client_ex_ask K X client (random_big_request E X) w2 = (u3, w3)"
    and round: "(case (u3, w3) of
        (Panicked, w3) \<Rightarrow> (Panicked, w3)
      | (Returned (start', Err e), w3) \<Rightarrow> (Returned (), w3)
      | (Returned (start', Ok resp), w3) \<Rightarrow>
          (case print_delay X ''Delay on high payload request: '' start' w3 of
             (Panicked, w4) \<Rightarrow> (Panicked, w4)
           | (Returned _, w4) \<Rightarrow>
               (case from_slice_ExpensiveResponse E resp of None \<Rightarrow> (Panicked, w4) | Some _ \<Rightarrow> (Returned (), w4)))) =
        (Panicked, w')"
  shows "round_broken E K X client w'"
proof (cases u3)
  case Panicked
  then show ?thesis
    using round client_ex_ask_panics[OF 3[unfolded Panicked]]
    by (auto simp: round_broken_def dest!: random_big_request_None[OF assms(1)])
next
  case (Returned sr')
  obtain start' resp where ok: "sr' = (start', Ok resp)"
    using round Returned by (cases sr') (auto split: result.splits)
  obtain p w4 where 4: "print_delay X ''Delay on high payload request: '' start' w3 = (p, w4)" by fastforce
  obtain rx v where recv: "response_recv X rx v = (Ok resp, w3)"
    using client_ex_ask_response[of K X client _ w2 start' "Ok resp" w3] 3 Returned ok by blast
  show ?thesis
  proof (cases p)
    case Panicked
    then have "w' = w4" using round Returned ok 4 by simp
    then show ?thesis using print_delay_panics[OF 4[unfolded Panicked]] unfolding round_broken_def by blast
  next
    case (Returned u)
    then have "w' = w4 \<and> from_slice_ExpensiveResponse E resp = None"
      using round \<open>u3 = _\<close> ok 4 by (simp split: option.splits)
    then show ?thesis using recv 4 Returned unfolding round_broken_def by fastforce
  qed
qed

lemma client_ex_round_panics:
  assumes "example_laws E" and "client_ex_round E K X client w = (Panicked, w')"
  shows "round_broken E K X client w'"
proof -
  obtain u1 w1 where 1: "client_ex_ask K X client (\<lambda>w. (make_test_request E, w)) w = (u1, w1)" by fastforce
  show ?thesis
  proof (cases u1)
    case Panicked
    then show ?thesis
      using client_ex_ask_panics[OF 1[unfolded Panicked]] requests_serialize(1)[OF assms(1)] assms(2) 1
      by (auto simp: client_ex_round_def round_broken_def)
  next
    case (Returned sr)
    obtain start res where sr: "sr = (start, res)" by fastforce
    obtain u2 w2 where 2: "(case res of Ok resp \<Rightarrow> print_delay X ''Delay '' start w1 | Err e \<Rightarrow> ex_eprintln X e w1) = (u2, w2)"
      by fastforce
    obtain u3 w3 where 3: "client_ex_ask K X client (random_big_request E X) w2 = (u3, w3)" by fastforce
    note round = assms(2)[unfolded client_ex_round_def 1 Returned sr prod.case run.case 2]
    show ?thesis
    proof (cases u2)
      case Panicked
      then have "w' = w2" using round by simp
      moreover have "\<exists>line v. ex_println X line v = (Panicked, w2) \<or> ex_eprintln X line v = (Panicked, w2)"
        using 2 Panicked print_delay_panics[of X "''Delay ''" start w1 w2] by (cases res) auto
      ultimately show ?thesis unfolding round_broken_def by blast
    next
      case (Returned u)
      show ?thesis by (rule big_request_panics[OF assms(1) 3]) (use round Returned 3 in simp)
    qed
  qed
qed

lemma loop_broken:
  assumes "example_laws E" and "client_ex_loop E K X client w = Some rw"
  shows "fst rw = Panicked \<and> (\<exists>n wn. after_rounds E K X client n w = Some wn \<and>
     client_ex_round E K X client wn = (Panicked, snd rw) \<and> round_broken E K X client (snd rw))"
  using assms(2) client_ex_round_panics[OF assms(1), of K X client] unfolding client_ex_loop_iff stops_at_def by blast

text \<open>
  C27. The example client stops only by a panic: when the logger or the connection cannot be set up, when
  its queue of requests is closed because the connection task is gone, when it cannot print a line or seed its
  random numbers, or when the reply to a big request does not decode.  In particular a test request the server
  cannot serve does not stop it.  (Waiting for a reply that never comes is not stopping: the program hangs.)
\<close>

theorem client_ex_stops_only_on_failure:
  assumes "example_laws E" and "client_ex_main E spake2_client N IO K X w = Some (r, w')"
  shows "r = Panicked \<and>
     (case env_logger_init X w of
        (Panicked, w1) \<Rightarrow> w' = w1
      | (Returned _, w1) \<Rightarrow>
          (case client_connect_new N IO K ''localhost'' ''127.0.0.1:9973'' None
                  (spake2_client client_credentials ''server'') (CM_WebSocket ''ws://127.0.0.1:9973/ws'') 2500 w1 of
             (Returned (Ok client), w2) \<Rightarrow>
               (\<exists>n wn. after_rounds E K X client n w2 = Some wn \<and>
                  client_ex_round E K X client wn = (Panicked, w') \<and> round_broken E K X client w')
           | (_, w2) \<Rightarrow> w' = w2))"
  using assms(2) loop_broken[OF assms(1), of K X]
  by (fastforce simp: client_ex_main_def split: prod.splits run.splits result.splits)

section \<open>The example client against the example server\<close>

text \<open>
  The requests of one round, with the consumers of their replies; \<open>sent_big rng\<close> is the
  message of the big request.
\<close>

definition round_requests :: "'st example_lib \<Rightarrow> (nat \<Rightarrow> u8) \<times> sender \<times> sender \<Rightarrow> 'st client_request list" where
  "round_requests E rd =
     (case rd of (rng, k1, k2) \<Rightarrow>
        (case (make_test_request E, make_big_payload_request E rng) of
           (Some r1, Some r2) \<Rightarrow> [\<lparr>req = r1, consumer = k1\<rparr>, \<lparr>req = r2, consumer = k2\<rparr>]
         | _ \<Rightarrow> []))"

definition sent_big :: "(nat \<Rightarrow> u8) \<Rightarrow> expensive_response" where
  "sent_big rng = \<lparr>er_s_type = ExpensiveResponse, er_id = 12, er_data = map rng [0..<8096]\<rparr>"

lemma big_request_reply:
  assumes "key_laws L" and "wire_laws L" and "user_type_laws L" and "example_laws E"
    and "make_big_payload_request E rng = Some r"
  shows "serve_packet L (example_router L E arc1 arc2)
      (meta_of L \<lparr>req = r, consumer = k\<rparr> 1) (dr_data r) (addr, tx) w = (Returned (Ok (dr_data r), tx), w)"
    and "from_slice_ExpensiveResponse E (dr_data r) = Some (sent_big rng)" and "dr_data r \<noteq> []"
proof -
  let ?q = "\<lparr>req = r, consumer = k\<rparr>"
  have r: "to_bytes_ExpensiveResponse E (sent_big rng) = Some (dr_data r)" "dr_s_type r = dyn E ExpensiveResponse"
    using assms(5) by (auto simp: make_big_payload_request_def sent_big_def)
  show "from_slice_ExpensiveResponse E (dr_data r) = Some (sent_big rng)" "dr_data r \<noteq> []"
    by (rule serializesD(1)[OF example_lawsD(5)[OF assms(4)], OF r(1)],
        rule serializesD(2)[OF example_lawsD(5)[OF assms(4)], OF r(1)])
  have a: "addressed L (dyn E TestResponse) (meta_of L ?q 1) 1 (dyn E ExpensiveResponse)"
    using assms(3) r(2)
    by (simp add: addressed_def meta_of_access(2)[OF assms(2)]) (simp add: packet_meta_of_def user_type_laws_def)
  have "serve_packet L (example_router L E arc1 arc2) (meta_of L ?q 1) (dr_data r) (addr, tx) w =
      run_handler (big_create_route E arc2) addr tx (dyn E ExpensiveResponse) (dr_data r) w"
    by (rule example_call[OF assms(1,3) a]) simp
  moreover have "downcast E (dyn E ExpensiveResponse) = Some ExpensiveResponse"
    using assms(4) by (simp add: example_laws_def)
  ultimately show "serve_packet L (example_router L E arc1 arc2) (meta_of L ?q 1) (dr_data r) (addr, tx) w =
      (Returned (Ok (dr_data r), tx), w)"
    by (simp add: handler_defs)
qed

lemma test_request_data:
  assumes "example_laws E" and "make_test_request E = Some r"
  shows "dr_data r \<noteq> []"
proof -
  have "\<exists>m. to_bytes_TestMsg E m = Some (dr_data r)"
    using assms(2) by (auto simp: make_test_request_def)
  then show ?thesis using serializesD(2)[OF example_lawsD(2)[OF assms(1)]] by blast
qed

text \<open>Answers known packet by packet make one answering function.\<close>

lemma answering_choice:
  assumes "\<And>x. x \<in> P \<Longrightarrow> \<exists>d. answering c ins outs {x} (\<lambda>_ _. d)"
  shows "\<exists>rep. answering c ins outs P rep"
proof -
  obtain f where "\<forall>x \<in> P. answering c ins outs {x} (\<lambda>_ _. f x)" using assms by metis
  then have "answering c ins outs P (\<lambda>m p. f (m, p))" unfolding answering_def by fastforce
  then show ?thesis by blast
qed

lemma answering_determined:
  assumes "answering c ins outs P rep" and "(m, p) \<in> P"
    and "\<And>tx w. serve_packet (c_lib c) (c_router c) m p (c_addr c, tx) w = (Returned (Ok d, tx), w)"
  shows "rep m p = d"
  using answeringD[OF assms(1,2)] assms(3) by (metis option.inject prod.inject result.inject(1) result.simps(5) run.inject)

lemma answering_pure:
  assumes "\<And>tx w. serve_packet (c_lib c) (c_router c) m p (c_addr c, tx) w = (Returned (Ok d, tx), w)"
  shows "answering c ins outs {(m, p)} (\<lambda>_ _. d)"
  unfolding answering_def using assms by (simp add: untouched_def)

lemma name_request_answering:
  assumes "wire_laws L" and "c_lib c = L" and "c_router c = build_router L u regs"
    and "to_bytes_HandlerMetaReq L \<lparr>hmr_s_type = ST_HandlerMetaReq, handler_name = nm\<rparr> = Some b"
  shows "\<exists>d. answering c ins outs {(b, [])} (\<lambda>_ _. d)"
proof -
  obtain e where b: "access_HandlerMetaReq L b = Ok \<lparr>hmr_s_type = ST_HandlerMetaReq, handler_name = nm\<rparr>"
      "access_PacketMeta L b = Err e"
    using name_request_bytes[OF assms(1,4)] by blast
  obtain eb where eb: "to_bytes_ServerError L (ServerError (NoSuchHandler None)) = Some eb"
    by (rule wire_ServerErrorE[OF assms(1)])
  have ans: "\<exists>ab. to_bytes_HandlerMetaAns L \<lparr>hma_s_type = ST_HandlerMetaAns, hma_id = i\<rparr> = Some ab" for i
    using wire_HandlerMetaAnsE[OF assms(1)] by (metis handler_meta_ans.select_convs(1))
  show ?thesis
  proof (cases "spec_name 0 regs nm")
    case None
    then have "answering c ins outs {(b, [])} (\<lambda>_ _. eb)"
      unfolding answering_def by (simp add: serve_packet_def assms(2,3) b names_build_router eb untouched_def)
    then show ?thesis by blast
  next
    case (Some i)
    obtain ab where "to_bytes_HandlerMetaAns L \<lparr>hma_s_type = ST_HandlerMetaAns, hma_id = i\<rparr> = Some ab"
      using ans by blast
    then have "answering c ins outs {(b, [])} (\<lambda>_ _. ab)"
      using Some unfolding answering_def by (simp add: serve_packet_def assms(2,3) b names_build_router untouched_def)
    then show ?thesis by blast
  qed
qed

lemma round_requests_intended:
  assumes "q \<in> set (round_requests E rd)"
  shows "intended (example_registrations E arc1 arc2) q = Some 0 \<and> make_test_request E = Some (req q) \<or>
     intended (example_registrations E arc1 arc2) q = Some 1 \<and> (\<exists>rng. make_big_payload_request E rng = Some (req q))"
  using assms
  by (auto simp: round_requests_def intended_def make_test_request_def make_big_payload_request_def
        handler_info_new_named_def split: prod.splits option.splits)

text \<open>The packets of a session: requests for names, and the requests of the rounds under their ids.\<close>

definition session_packets ::
  "('st, 'tc) s_type_lib \<Rightarrow> ('st, 'w) registration list \<Rightarrow> 'st client_request list \<Rightarrow> (bytes \<times> bytes) set" where
  "session_packets L regs qs =
     {(b, []) | b nm. to_bytes_HandlerMetaReq L \<lparr>hmr_s_type = ST_HandlerMetaReq, handler_name = nm\<rparr> = Some b} \<union>
     {(meta_of L q i, dr_data (req q)) | q i. q \<in> set qs \<and> intended regs q = Some i}"

lemma session_packets_router:
  "c_router (se_conn se) = build_router L u regs \<Longrightarrow> session_router L se regs (session_packets L regs qs) qs"
  by (auto simp: session_router_def session_packets_def)

lemma client_request_eta: "\<lparr>req = req q, consumer = consumer q\<rparr> = (q :: 'st client_request)"
  by simp

lemma example_session_answering:
  fixes c :: "('st, 'tc, 's) connection"
  assumes "key_laws L" and "wire_laws L" and "user_type_laws L" and "example_laws E"
    and "c_lib c = L" and "c_router c = example_router L E arc1 arc2"
    and "\<forall>q \<in> set qs. \<exists>rd. q \<in> set (round_requests E rd)"
  shows "\<exists>rep. answering c ins outs (session_packets L (example_registrations E arc1 arc2 :: ('st, 's) registration list) qs) rep"
proof (rule answering_choice)
  fix x
  let ?regs = "example_registrations E arc1 arc2 :: ('st, 's) registration list"
  assume "x \<in> session_packets L ?regs qs"
  then consider b nm where "x = (b, [])"
      "to_bytes_HandlerMetaReq L \<lparr>hmr_s_type = ST_HandlerMetaReq, handler_name = nm\<rparr> = Some b"
    | q i where "x = (meta_of L q i, dr_data (req q))" "q \<in> set qs" "intended ?regs q = Some i"
    by (auto simp: session_packets_def)
  then show "\<exists>d. answering c ins outs {x} (\<lambda>_ _. d)"
  proof cases
    case (1 b nm)
    then show ?thesis
      using name_request_answering[OF assms(2,5) assms(6)[unfolded example_router_built]] by simp
  next
    case (2 q i)
    then obtain rd where "q \<in> set (round_requests E rd)" using assms(7) by blast
    then have "intended ?regs q = Some 0 \<and> make_test_request E = Some (req q) \<or>
        intended ?regs q = Some 1 \<and> (\<exists>rng. make_big_payload_request E rng = Some (req q))"
      by (rule round_requests_intended)
    then consider "i = 0" "make_test_request E = Some (req q)"
      | rng where "i = 1" "make_big_payload_request E rng = Some (req q)"
      using 2(3) by auto
    then show ?thesis
    proof cases
      case 1
      obtain d where "\<And>addr tx (w :: 's). serve_packet L (example_router L E arc1 arc2)
          (meta_of L q 0) (dr_data (req q)) (addr, tx) w = (Returned (Ok d, tx), w)"
        using test_request_reply[OF assms(1-4) 1(2), of arc1 arc2 "consumer q"] by (metis client_request_eta)
      then have "answering c ins outs {x} (\<lambda>_ _. d)"
        unfolding 2(1) 1(1) by (intro answering_pure) (simp add: assms(5,6))
      then show ?thesis by blast
    next
      case (2 rng)
      have "answering c ins outs {x} (\<lambda>_ _. dr_data (req q))"
        unfolding \<open>x = _\<close> 2(1)
        by (intro answering_pure) (simp add: assms(5,6)
             big_request_reply(1)[OF assms(1-4) 2(2), of _ _ "consumer q", unfolded client_request_eta])
      then show ?thesis by blast
    qed
  qed
qed

lemma example_reply_test:
  fixes c :: "('st, 'tc, 's) connection"
  assumes "answering c ins outs P rep" and "c_lib c = L" and "c_router c = example_router L E arc1 arc2"
    and "key_laws L" and "wire_laws L" and "user_type_laws L" and "example_laws E"
    and "make_test_request E = Some r" and "(meta_of L \<lparr>req = r, consumer = k\<rparr> 0, dr_data r) \<in> P"
  shows "from_slice_TestMsg E (rep (meta_of L \<lparr>req = r, consumer = k\<rparr> 0) (dr_data r)) = Some greeted_test_msg"
proof -
  obtain d where "\<And>addr tx (w :: 's). serve_packet L (example_router L E arc1 arc2)
      (meta_of L \<lparr>req = r, consumer = k\<rparr> 0) (dr_data r) (addr, tx) w = (Returned (Ok d, tx), w)"
      "from_slice_TestMsg E d = Some greeted_test_msg"
    by (rule test_request_reply[OF assms(4-8), of arc1 arc2 k]) blast
  then show ?thesis using answering_determined[OF assms(1,9), of d] assms(2,3) by simp
qed

lemma example_reply_big:
  fixes c :: "('st, 'tc, 's) connection"
  assumes "answering c ins outs P rep" and "c_lib c = L" and "c_router c = example_router L E arc1 arc2"
    and "key_laws L" and "wire_laws L" and "user_type_laws L" and "example_laws E"
    and "make_big_payload_request E rng = Some r" and "(meta_of L \<lparr>req = r, consumer = k\<rparr> 1, dr_data r) \<in> P"
  shows "rep (meta_of L \<lparr>req = r, consumer = k\<rparr> 1) (dr_data r) = dr_data r"
  by (rule answering_determined[OF assms(1,9)])
     (simp add: assms(2,3) big_request_reply(1)[OF assms(4-8)])

text \<open>What the callers of a round are owed: replies that decode to the greeting and to the message sent.\<close>

definition round_served ::
  "'st example_lib \<Rightarrow> (nat \<Rightarrow> u8) \<times> sender \<times> sender \<Rightarrow> (sender \<times> bytes option) list \<Rightarrow> bool" where
  "round_served E rd lg \<longleftrightarrow>
     (case rd of (rng, k1, k2) \<Rightarrow> \<exists>d1 d2. lg = [(k1, Some d1), (k2, Some d2)] \<and>
        from_slice_TestMsg E d1 = Some greeted_test_msg \<and> from_slice_ExpensiveResponse E d2 = Some (sent_big rng))"

lemma round_owed:
  fixes c :: "('st, 'tc, 's) connection"
  assumes "answering c ins outs (session_packets L (example_registrations E arc1 arc2 :: ('st, 's) registration list) qs) rep"
    and "c_lib c = L" and "c_router c = example_router L E arc1 arc2"
    and "key_laws L" and "wire_laws L" and "user_type_laws L" and "example_laws E"
    and "set (round_requests E rd) \<subseteq> set qs"
  shows "round_served E rd
     (map (owed L (example_registrations E arc1 arc2 :: ('st, 's) registration list) rep) (round_requests E rd))"
proof -
  let ?regs = "example_registrations E arc1 arc2 :: ('st, 's) registration list"
  obtain rng k1 k2 where rd: "rd = (rng, k1, k2)" by (cases rd)
  obtain r1 r2 where r: "make_test_request E = Some r1" "make_big_payload_request E rng = Some r2"
    using requests_serialize[OF assms(7)] by metis
  let ?q1 = "\<lparr>req = r1, consumer = k1\<rparr>" and ?q2 = "\<lparr>req = r2, consumer = k2\<rparr>"
  have qs: "round_requests E rd = [?q1, ?q2]" by (simp add: round_requests_def rd r)
  have i: "intended ?regs ?q1 = Some 0" "intended ?regs ?q2 = Some 1"
    using r by (auto simp: intended_def make_test_request_def make_big_payload_request_def handler_info_new_named_def)
  have "(meta_of L ?q1 0, dr_data r1) \<in> session_packets L ?regs qs" "(meta_of L ?q2 1, dr_data r2) \<in> session_packets L ?regs qs"
    using assms(8) i unfolding session_packets_def qs by force+
  then show ?thesis
    using example_reply_test[OF assms(1-7) r(1), of k1] example_reply_big[OF assms(1-7) r(2), of k2]
      big_request_reply(2)[OF assms(4-7) r(2)]
    by (simp add: round_served_def rd qs[unfolded rd] owed_def i)
qed

text \<open>
  C20. The example client and the example server running concurrently over a reliable link, for any
  number of rounds and every schedule: the client's task works all requests, and in every round the test
  request comes back with the greeting appended and the big request comes back as the message that was
  sent, so that the client can decode it.
\<close>

theorem example_rounds_served:
  fixes se :: "('st, 'tc, 's) server_end"
  assumes "duplex (se_conn se) (se_ins se) (se_outs se) (se_pre se) spost"
    and "\<forall>b s. se_ins se (se_deliver se b s) = se_ins se s @ [b] \<and> se_outs se (se_deliver se b s) = se_outs se s"
    and "session_client_side IO K processor rx cpre cpost queue log"
    and "linked L (se_conn se) cpre cpost (se_pre se) spost"
    and "key_laws L" and "user_type_laws L" and "example_laws E"
    and "c_router (se_conn se) = example_router L E arc1 arc2"
    and "queue w = concat (map (round_requests E) rds)"
    and "oneshot_channel (c_handoff (se_conn se)) s0 = ((tx, se_rx se), s)" and "se_ins se s0 = []"
    and "polite se turns"
  shows "\<exists>tr' j' lgs. client_task L (session_io se IO) (session_client se K) socket processor rx target_router_new
       (session_start se tx w s turns) = Some (tr', j') \<and>
     log (sn_client j') = log w @ concat lgs \<and> list_all2 (round_served E) rds lgs"
proof -
  let ?regs = "example_registrations E arc1 arc2 :: ('st, 's) registration list"
  let ?P = "session_packets L ?regs (queue w)"
  have wire: "wire_laws L" and lib: "c_lib (se_conn se) = L" using assms(4) by (simp_all add: linked_def)
  have "\<forall>q \<in> set (queue w). \<exists>rd. q \<in> set (round_requests E rd)" using assms(9) by auto
  then obtain rep where rep: "answering (se_conn se) (se_ins se) (se_outs se) ?P rep"
    using example_session_answering[OF assms(5) wire assms(6,7) lib assms(8)] by blast
  have srv: "session_server se spost ?P rep" using assms(1,2) rep by (simp add: session_server_def)
  have router: "session_router L se ?regs ?P (queue w)"
    using session_packets_router assms(8) by (metis example_router_built)
  have data: "\<forall>q \<in> set (queue w). dr_data (req q) \<noteq> []"
  proof
    fix q assume "q \<in> set (queue w)"
    then obtain rd where "q \<in> set (round_requests E rd)" using assms(9) by auto
    from round_requests_intended[OF this, of arc1 arc2] show "dr_data (req q) \<noteq> []"
      using big_request_reply(3)[OF assms(5) wire assms(6,7)] test_request_data[OF assms(7)] by blast
  qed
  obtain tr' j' where run: "client_task L (session_io se IO) (session_client se K) socket processor rx target_router_new
       (session_start se tx w s turns) = Some (tr', j')" "log (sn_client j') = log w @ map (owed L ?regs rep) (queue w)"
    using session_answers[OF srv assms(3,4) router data assms(10-12)] by blast
  have "round_served E rd (map (owed L ?regs rep) (round_requests E rd))" if "rd \<in> set rds" for rd
  proof (rule round_owed[OF rep lib assms(8,5) wire assms(6,7)])
    show "set (round_requests E rd) \<subseteq> set (queue w)" using that assms(9) by auto
  qed
  then have "list_all2 (round_served E) rds (map (\<lambda>rd. map (owed L ?regs rep) (round_requests E rd)) rds)"
    by (simp add: list_all2_map2 list_all2_same)
  then show ?thesis using run by (auto simp: assms(9) map_concat comp_def)
qed

section \<open>The serialization example\<close>

text \<open>
  \<^verbatim>\<open>s_type::to_vec\<close> and \<^verbatim>\<open>s_type::access\<close> at the four message types.  An archived
  message is the value it is a view of.
\<close>

record archive_lib =
  to_vec_TestMsg :: "test_msg \<Rightarrow> (bytes, string) result"
  to_vec_TestResponse :: "test_response \<Rightarrow> (bytes, string) result"
  to_vec_ExpensiveMsg :: "expensive_msg \<Rightarrow> (bytes, string) result"
  to_vec_ExpensiveResponse :: "expensive_response \<Rightarrow> (bytes, string) result"
  access_TestMsg :: "bytes \<Rightarrow> (test_msg, string) result"
  access_TestResponse :: "bytes \<Rightarrow> (test_response, string) result"
  access_ExpensiveMsg :: "bytes \<Rightarrow> (expensive_msg, string) result"
  access_ExpensiveResponse :: "bytes \<Rightarrow> (expensive_response, string) result"

definition try_serialize_structures ::
  "archive_lib \<Rightarrow> (string \<Rightarrow> 'w \<Rightarrow> unit run \<times> 'w) \<Rightarrow> ('w, bytes \<times> bytes \<times> bytes \<times> bytes) future" where
  "try_serialize_structures A print w =
     (case to_vec_TestMsg A \<lparr>tm_s_type = TestMessage, tm_id = 532, tm_data = [], tm_message = ''hello message''\<rparr> of
        Err e \<Rightarrow> (Panicked, w)
      | Ok test1 \<Rightarrow>
     (case to_vec_TestResponse A \<lparr>tr_s_type = TestResponse, tr_id = 34, tr_data = [32, 32, 12, 32],
             tr_another_message = ''test response''\<rparr> of
        Err e \<Rightarrow> (Panicked, w)
      | Ok test2 \<Rightarrow>
     (case to_vec_ExpensiveMsg A \<lparr>ex_s_type = ExpensiveMessage, ex_id = 23, ex_data = replicate 2048 18\<rparr> of
        Err e \<Rightarrow> (Panicked, w)
      | Ok test3 \<Rightarrow>
     (case to_vec_ExpensiveResponse A \<lparr>er_s_type = ExpensiveResponse, er_id = 23, er_data = replicate 4096 18\<rparr> of
        Err e \<Rightarrow> (Panicked, w)
      | Ok test4 \<Rightarrow>
          (case print (show_nat (length test1) @ '', '' @ show_nat (length test2) @ '', '' @
                       show_nat (length test3) @ '', '' @ show_nat (length test4)) w of
             (Panicked, w1) \<Rightarrow> (Panicked, w1)
           | (Returned _, w1) \<Rightarrow> (Returned (test1, test2, test3, test4), w1))))))"

definition try_deserialize_structures ::
  "archive_lib \<Rightarrow> bytes \<times> bytes \<times> bytes \<times> bytes \<Rightarrow> unit run" where
  "try_deserialize_structures A structures =
     (case structures of (s0, s1, s2, s3) \<Rightarrow>
        (case access_TestMsg A s0 of
           Err e \<Rightarrow> Panicked
         | Ok test1 \<Rightarrow>
        (case access_TestResponse A s1 of
           Err e \<Rightarrow> Panicked
         | Ok test2 \<Rightarrow>
        (case access_ExpensiveMsg A s2 of
           Err e \<Rightarrow> Panicked
         | Ok test3 \<Rightarrow>
        (case access_ExpensiveResponse A s3 of
           Err e \<Rightarrow> Panicked
         | Ok test4 \<Rightarrow> Returned ())))))"

text \<open>\<^verbatim>\<open>main\<close> of \<^verbatim>\<open>s_type_ex.rs\<close>.\<close>

definition s_type_ex_main :: "archive_lib \<Rightarrow> (string \<Rightarrow> 'w \<Rightarrow> unit run \<times> 'w) \<Rightarrow> ('w, unit) future" where
  "s_type_ex_main A print w =
     (case try_serialize_structures A print w of
        (Panicked, w1) \<Rightarrow> (Panicked, w1)
      | (Returned structures, w1) \<Rightarrow> (try_deserialize_structures A structures, w1))"

text \<open>
  What the example relies on: a message that carries the tag of its structure is serialized, and the
  bytes give access to the same structure.
\<close>

definition archive_laws :: "archive_lib \<Rightarrow> bool" where
  "archive_laws A \<longleftrightarrow>
     (\<forall>m. tm_s_type m = TestMessage \<longrightarrow> (\<exists>b. to_vec_TestMsg A m = Ok b \<and> access_TestMsg A b = Ok m)) \<and>
     (\<forall>m. tr_s_type m = TestResponse \<longrightarrow> (\<exists>b. to_vec_TestResponse A m = Ok b \<and> access_TestResponse A b = Ok m)) \<and>
     (\<forall>m. ex_s_type m = ExpensiveMessage \<longrightarrow> (\<exists>b. to_vec_ExpensiveMsg A m = Ok b \<and> access_ExpensiveMsg A b = Ok m)) \<and>
     (\<forall>m. er_s_type m = ExpensiveResponse \<longrightarrow>
        (\<exists>b. to_vec_ExpensiveResponse A m = Ok b \<and> access_ExpensiveResponse A b = Ok m))"

text \<open>
  The serialization example prints exactly one line, and runs to its end unless that print panics: each of
  its four messages carries the tag of its structure, and the four byte strings are read back at the
  structures they were written at.
\<close>

theorem s_type_ex_completes:
  assumes "archive_laws A"
  shows "\<exists>line. s_type_ex_main A print w = print line w"
proof -
  have "\<exists>b. to_vec_TestMsg A m = Ok b \<and> access_TestMsg A b = Ok m" if "tm_s_type m = TestMessage" for m
    using assms that by (simp add: archive_laws_def)
  moreover have "\<exists>b. to_vec_TestResponse A m = Ok b \<and> access_TestResponse A b = Ok m" if "tr_s_type m = TestResponse" for m
    using assms that by (simp add: archive_laws_def)
  moreover have "\<exists>b. to_vec_ExpensiveMsg A m = Ok b \<and> access_ExpensiveMsg A b = Ok m" if "ex_s_type m = ExpensiveMessage" for m
    using assms that by (simp add: archive_laws_def)
  moreover have "\<exists>b. to_vec_ExpensiveResponse A m = Ok b \<and> access_ExpensiveResponse A b = Ok m"
    if "er_s_type m = ExpensiveResponse" for m
    using assms that by (simp add: archive_laws_def)
  ultimately obtain b1 b2 b3 b4 where
      "to_vec_TestMsg A \<lparr>tm_s_type = TestMessage, tm_id = 532, tm_data = [], tm_message = ''hello message''\<rparr> = Ok b1"
      "is_ok (access_TestMsg A b1)"
      "to_vec_TestResponse A \<lparr>tr_s_type = TestResponse, tr_id = 34, tr_data = [32, 32, 12, 32],
         tr_another_message = ''test response''\<rparr> = Ok b2" "is_ok (access_TestResponse A b2)"
      "to_vec_ExpensiveMsg A \<lparr>ex_s_type = ExpensiveMessage, ex_id = 23, ex_data = replicate 2048 18\<rparr> = Ok b3"
      "is_ok (access_ExpensiveMsg A b3)"
      "to_vec_ExpensiveResponse A \<lparr>er_s_type = ExpensiveResponse, er_id = 23, er_data = replicate 4096 18\<rparr> = Ok b4"
      "is_ok (access_ExpensiveResponse A b4)"
    by (metis test_msg.select_convs(1) test_response.select_convs(1) expensive_msg.select_convs(1)
        expensive_response.select_convs(1) result.disc(1))
  then show ?thesis
    by (intro exI[of _ "show_nat (length b1) @ '', '' @ show_nat (length b2) @ '', '' @ show_nat (length b3) @ '', '' @
          show_nat (length b4)"])
       (auto simp: s_type_ex_main_def try_serialize_structures_def try_deserialize_structures_def is_ok_def
        split: result.split prod.split run.split)
qed

section \<open>Examples\<close>

text \<open>A world that counts how many requests the queue still takes; every reply is the same message.\<close>

definition countdown_client :: "(u64, nat) client_io" where
  "countdown_client =
     \<lparr>fmt_router_error = \<lambda>e. [], consumer_send = \<lambda>s b w. (Ok (), w), consumer_drop = \<lambda>s w. w,
      mpsc_channel = \<lambda>n w. (Returned (0, 0), w),
      mpsc_send = \<lambda>s q w. (if w = 0 then (Err q, 0) else (Ok (), w - 1)),
      mpsc_recv = \<lambda>rx w. (None, w), spawn_client = \<lambda>t w. w\<rparr>"

definition countdown_ex :: "nat client_ex_io" where
  "countdown_ex =
     \<lparr>env_logger_init = \<lambda>w. (Returned (), w), response_channel = \<lambda>w. ((0, 0), w),
      response_recv = \<lambda>rx w. (Ok (enc_expensive_response \<lparr>er_s_type = ExpensiveResponse, er_id = 1, er_data = []\<rparr>), w),
      rand_rng = \<lambda>w. (Returned (\<lambda>_. 0), w), instant_now = \<lambda>w. (0, w), ex_println = \<lambda>s w. (Returned (), w),
      ex_eprintln = \<lambda>s w. (Returned (), w)\<rparr>"

lemma countdown_round:
  "client_ex_round sample_example countdown_client countdown_ex client 0 = (Panicked, 0)"
  "client_ex_round sample_example countdown_client countdown_ex client 2 = (Returned (), 0)"
proof -
  obtain r1 r2 where "make_test_request sample_example = Some r1"
      "make_big_payload_request sample_example (\<lambda>_. 0) = Some r2"
    using requests_serialize[OF sample_example_laws] by metis
  then show "client_ex_round sample_example countdown_client countdown_ex client 0 = (Panicked, 0)"
    and "client_ex_round sample_example countdown_client countdown_ex client 2 = (Returned (), 0)"
    by (simp_all add: client_ex_round_def client_ex_ask_def dispatch_request_def countdown_client_def
          countdown_ex_def print_delay_def random_big_request_def, simp add: sample_example_def)
qed

theorem client_ex_stops_only_on_failure_witness:
  "client_ex_main sample_example (\<lambda>_ _. 0) ready_net ready_io countdown_client countdown_ex 2 = Some (Panicked, 0) \<and>
   round_broken sample_example countdown_client countdown_ex \<lparr>cc_tx = 0\<rparr> 0"
proof -
  let ?new = "client_connect_new ready_net ready_io countdown_client ''localhost'' ''127.0.0.1:9973'' None
    0 (CM_WebSocket ''ws://127.0.0.1:9973/ws'') 2500 2"
  have new: "?new = (Returned (Ok \<lparr>cc_tx = 0\<rparr>), 2)"
    by (simp add: client_connect_new_def connect_def ready_net_def ready_io_def countdown_client_def connection_main_def)
  have "client_ex_loop sample_example countdown_client countdown_ex \<lparr>cc_tx = 0\<rparr> 2 = Some (Panicked, 0)"
    by (rule client_ex_loop_ends[of _ _ _ _ 1 _ 0]) (simp_all add: countdown_round)
  then have main: "client_ex_main sample_example (\<lambda>_ _. 0) ready_net ready_io countdown_client countdown_ex 2 =
      Some (Panicked, 0)"
    using new by (simp add: client_ex_main_def) (simp add: countdown_ex_def)
  have "env_logger_init countdown_ex 2 = (Returned (), 2)" by (simp add: countdown_ex_def)
  then show ?thesis
    using client_ex_stops_only_on_failure[OF sample_example_laws main] main new by auto
qed

definition example_end :: "(u64, u64, qworld) server_end" where
  "example_end = sample_end\<lparr>se_conn := example_conn\<rparr>"

lemma example_end_simps [simp]:
  "se_conn example_end = example_conn" "se_rx example_end = 1" "se_ins example_end = q_in"
  "se_outs example_end = q_out" "se_pre example_end = (\<lambda>b. b)" "se_deliver example_end = (\<lambda>b s. s\<lparr>q_in := q_in s @ [b]\<rparr>)"
  by (simp_all add: example_end_def sample_end_def)

theorem example_rounds_served_witness:
  "\<exists>(w :: cworld) tr' j' d1 d2. cw_queue w = round_requests sample_example (\<lambda>_. 7, 4, 5) \<and>
     client_task sample_lib (session_io example_end queue_io) (session_client example_end sample_client_io) 0 0 0
       target_router_new (session_start example_end 1 w fresh_world busy_schedule) = Some (tr', j') \<and>
     cw_log (sn_client j') = [(4, Some d1), (5, Some d2)] \<and>
     from_slice_TestMsg sample_example d1 = Some greeted_test_msg \<and>
     from_slice_ExpensiveResponse sample_example d2 = Some (sent_big (\<lambda>_. 7))"
proof -
  let ?w = "sample_cworld [] (concat (map (round_requests sample_example) [(\<lambda>_. 7, 4, 5)]))"
  have q: "cw_queue ?w = concat (map (round_requests sample_example) [(\<lambda>_. 7, 4, 5)])"
    by (simp add: sample_cworld_def)
  have dx: "duplex (se_conn example_end) (se_ins example_end) (se_outs example_end) (se_pre example_end) (\<lambda>b. b)"
    and lk: "linked sample_lib (se_conn example_end) (\<lambda>b. b) (\<lambda>b. b) (se_pre example_end) (\<lambda>b. b)"
    using example_conn_linked by simp_all
  have ch: "oneshot_channel (c_handoff (se_conn example_end)) fresh_world = ((1, se_rx example_end), fresh_world)"
    by (simp add: example_conn_def)
  have busy: "polite example_end busy_schedule" using busy_polite by (simp add: polite_def)
  obtain tr' j' lgs where run: "client_task sample_lib (session_io example_end queue_io)
        (session_client example_end sample_client_io) 0 0 0
       target_router_new (session_start example_end 1 ?w fresh_world busy_schedule) = Some (tr', j')"
      "cw_log (sn_client j') = cw_log ?w @ concat lgs"
      "list_all2 (round_served sample_example) [(\<lambda>_. 7, 4, 5)] lgs"
    using example_rounds_served[OF dx _ sample_session_client lk sample_key_laws sample_user_type_laws
        sample_example_laws _ q ch _ busy, of 0 0 0] by auto
  then obtain d1 d2 where "cw_log (sn_client j') = [(4, Some d1), (5, Some d2)]"
      "from_slice_TestMsg sample_example d1 = Some greeted_test_msg"
      "from_slice_ExpensiveResponse sample_example d2 = Some (sent_big (\<lambda>_. 7))"
    by (auto simp: list_all2_Cons1 round_served_def sample_cworld_def)
  then show ?thesis using run(1) q by auto
qed

definition sample_archive :: archive_lib where
  "sample_archive =
     \<lparr>to_vec_TestMsg = \<lambda>m. Ok (enc_test_msg m), to_vec_TestResponse = \<lambda>m. Ok (enc_test_response m),
      to_vec_ExpensiveMsg = \<lambda>m. Ok (enc_expensive_msg m), to_vec_ExpensiveResponse = \<lambda>m. Ok (enc_expensive_response m),
      access_TestMsg = \<lambda>b. ok_or [] (dec_test_msg b), access_TestResponse = \<lambda>b. ok_or [] (dec_test_response b),
      access_ExpensiveMsg = \<lambda>b. ok_or [] (dec_expensive_msg b),
      access_ExpensiveResponse = \<lambda>b. ok_or [] (dec_expensive_response b)\<rparr>"

theorem s_type_ex_completes_witness:
  "\<exists>line. s_type_ex_main sample_archive (\<lambda>s w. (Returned (), w @ [s])) [] = (Returned (), [line])"
proof -
  have "archive_laws sample_archive" by (simp add: archive_laws_def sample_archive_def)
  from s_type_ex_completes[OF this, of "\<lambda>s w. (Returned (), w @ [s])" "[]"] show ?thesis by simp
qed

end
