(* ===== verification/Awaits.thy ===== *)
theory Awaits
  imports Client Connection
begin

text \<open>
  Awaits that never complete.  The tasks of the crate wait without a time-out: for the next frame of a silent
  peer, for a send that is blocked, for a handler.  Here the world says whether the task is still running: an
  await that never completes leaves the task waiting in the world in which the await began, and nothing the
  task does from then on has an effect.  The client's task and the server's connection are the definitions of
  \<open>Client\<close> and \<open>Connection\<close>, at this world; when the final world is \<open>Waiting\<close> the
  task has not ended, and its value means nothing.
\<close>

section \<open>Running and waiting\<close>

datatype 'w await = Running (world_of: 'w) | Waiting (world_of: 'w)

text \<open>\<open>await f d\<close>: an await that may never complete, \<open>None\<close>; \<open>d\<close> is the meaningless value.\<close>

definition await :: "('w \<Rightarrow> ('a \<times> 'w) option) \<Rightarrow> 'a \<Rightarrow> 'w await \<Rightarrow> 'a \<times> 'w await" where
  "await f d x =
     (case x of
        Waiting w \<Rightarrow> (d, x)
      | Running w \<Rightarrow> (case f w of None \<Rightarrow> (d, Waiting w) | Some (y, w') \<Rightarrow> (y, Running w')))"

definition at_once :: "('w \<Rightarrow> 'a \<times> 'w) \<Rightarrow> 'a \<Rightarrow> 'w await \<Rightarrow> 'a \<times> 'w await" where
  "at_once f d = await (\<lambda>w. Some (f w)) d"

definition when_running :: "('w \<Rightarrow> 'w) \<Rightarrow> 'w await \<Rightarrow> 'w await" where
  "when_running f x = (case x of Running w \<Rightarrow> Running (f w) | Waiting w \<Rightarrow> x)"

lemma await_simps [simp]:
  "await f d (Waiting w) = (d, Waiting w)"
  "await f d (Running w) = (case f w of None \<Rightarrow> (d, Waiting w) | Some (y, w') \<Rightarrow> (y, Running w'))"
  "at_once g d (Waiting w) = (d, Waiting w)"
  "at_once g d (Running w) = (fst (g w), Running (snd (g w)))"
  "when_running h (Running w) = Running (h w)" "when_running h (Waiting w) = Waiting w"
  by (simp_all add: await_def at_once_def when_running_def split: prod.split)

text \<open>
  What a step may do to a task: a waiting task stays as it is, and a running one can only come to wait where
  \<open>stuck\<close> holds.
\<close>

definition progress :: "('w \<Rightarrow> bool) \<Rightarrow> 'w await \<Rightarrow> 'w await \<Rightarrow> bool" where
  "progress stuck x x' \<longleftrightarrow>
     (case x of Waiting w \<Rightarrow> x' = x | Running w \<Rightarrow> (\<forall>w'. x' = Waiting w' \<longrightarrow> stuck w'))"

lemma progress_refl [simp]: "progress stuck x x"
  by (simp add: progress_def split: await.split)

lemma progress_trans: "progress stuck x y \<Longrightarrow> progress stuck y z \<Longrightarrow> progress stuck x z"
  by (auto simp: progress_def split: await.splits)

lemma progress_Waiting [simp]: "progress stuck (Waiting w) x \<longleftrightarrow> x = Waiting w"
  by (simp add: progress_def)

lemma progress_from_Running: "progress stuck (Running w) (Waiting w') \<Longrightarrow> stuck w'"
  by (simp add: progress_def)

lemma progress_await: "(\<And>w. f w = None \<Longrightarrow> stuck w) \<Longrightarrow> progress stuck x (snd (await f d x))"
  by (cases x) (auto simp: progress_def split: option.split)

lemma progress_at_once [simp]: "progress stuck x (snd (at_once f d x))"
  by (cases x) (simp_all add: progress_def)

section \<open>The stream and the processor\<close>

text \<open>The operations of \<open>conn_io\<close> that the sources await are partial.\<close>

record 'w await_io =
  next_await :: "framed \<Rightarrow> 'w \<Rightarrow> ((bytes, io_error) result option \<times> 'w) option"
  send_await :: "framed \<Rightarrow> bytes \<Rightarrow> 'w \<Rightarrow> ((unit, io_error) result \<times> 'w) option"
  close_await :: "framed \<Rightarrow> 'w \<Rightarrow> ((unit, io_error) result \<times> 'w) option"
  pre_await :: "processor \<Rightarrow> bytes \<Rightarrow> 'w \<Rightarrow> (bytes \<times> 'w) option"
  post_await :: "processor \<Rightarrow> bytes \<Rightarrow> 'w \<Rightarrow> (bytes \<times> 'w) option"
  new_framed :: "transport \<Rightarrow> codec \<Rightarrow> 'w \<Rightarrow> framed \<times> 'w"
  new_processor :: "'w \<Rightarrow> processor \<times> 'w"
  clone_processor :: "processor \<Rightarrow> 'w \<Rightarrow> processor \<times> 'w"

definition awaiting :: "'w await_io \<Rightarrow> 'w await conn_io" where
  "awaiting P =
     \<lparr>framed_next = \<lambda>f. await (next_await P f) None,
      framed_send = \<lambda>f b. await (send_await P f b) (Ok ()),
      framed_close = \<lambda>f. await (close_await P f) (Ok ()),
      framed_new = \<lambda>t cd. at_once (new_framed P t cd) 0,
      pre_process_traffic = \<lambda>p b. await (pre_await P p b) [],
      post_process_traffic = \<lambda>p b. await (post_await P p b) [],
      processor_new = at_once (new_processor P) 0,
      processor_clone = \<lambda>p. at_once (clone_processor P p) 0\<rparr>"

text \<open>An await of the stream or of its processor that was begun in \<open>w\<close> never completes.\<close>

definition awaits_forever :: "'w await_io \<Rightarrow> framed \<Rightarrow> processor \<Rightarrow> 'w \<Rightarrow> bool" where
  "awaits_forever P stream processor w \<longleftrightarrow>
     next_await P stream w = None \<or> (\<exists>b. send_await P stream b w = None) \<or> close_await P stream w = None \<or>
     (\<exists>b. pre_await P processor b w = None) \<or> (\<exists>b. post_await P processor b w = None)"

text \<open>Predicates that the operations on a stream keep.\<close>

definition stable :: "('w \<Rightarrow> bool) \<Rightarrow> ('w \<Rightarrow> 'a \<times> 'w) \<Rightarrow> bool" where
  "stable Q f \<longleftrightarrow> (\<forall>w. Q w \<longrightarrow> Q (snd (f w)))"

lemma stableD: "stable Q f \<Longrightarrow> f w = (r, w') \<Longrightarrow> Q w \<Longrightarrow> Q w'"
  unfolding stable_def by (metis snd_conv)

definition io_stable :: "('w \<Rightarrow> bool) \<Rightarrow> 'w conn_io \<Rightarrow> framed \<Rightarrow> processor \<Rightarrow> bool" where
  "io_stable Q IO stream processor \<longleftrightarrow>
     stable Q (framed_next IO stream) \<and> (\<forall>b. stable Q (framed_send IO stream b)) \<and> stable Q (framed_close IO stream) \<and>
     (\<forall>b. stable Q (pre_process_traffic IO processor b)) \<and> (\<forall>b. stable Q (post_process_traffic IO processor b))"

lemma io_stableD:
  assumes "io_stable Q IO stream processor"
  shows "framed_next IO stream w = (x, w') \<Longrightarrow> Q w \<Longrightarrow> Q w'"
    and "framed_send IO stream b w = (r, w') \<Longrightarrow> Q w \<Longrightarrow> Q w'"
    and "framed_close IO stream w = (r, w') \<Longrightarrow> Q w \<Longrightarrow> Q w'"
    and "pre_process_traffic IO processor b w = (b', w') \<Longrightarrow> Q w \<Longrightarrow> Q w'"
    and "post_process_traffic IO processor b w = (b', w') \<Longrightarrow> Q w \<Longrightarrow> Q w'"
  using assms stableD unfolding io_stable_def by metis+

lemma awaiting_progress:
  "io_stable (progress (\<lambda>w. awaits_forever P stream processor w \<or> held w) x) (awaiting P) stream processor"
  unfolding io_stable_def stable_def awaiting_def conn_io.simps
  by (intro conjI allI impI; (erule progress_trans)?; rule progress_await) (auto simp: awaits_forever_def)

section \<open>The client's task\<close>

definition awaiting_client ::
  "('st, 'w) client_io \<Rightarrow> (receiver \<Rightarrow> 'w \<Rightarrow> ('st client_request option \<times> 'w) option) \<Rightarrow> ('st, 'w await) client_io" where
  "awaiting_client K recv =
     \<lparr>fmt_router_error = fmt_router_error K,
      consumer_send = \<lambda>s b. at_once (consumer_send K s b) (Ok ()),
      consumer_drop = \<lambda>s. when_running (consumer_drop K s),
      mpsc_channel = \<lambda>n. at_once (mpsc_channel K n) Panicked,
      mpsc_send = \<lambda>s q. at_once (mpsc_send K s q) (Ok ()),
      mpsc_recv = \<lambda>rx. await (recv rx) None,
      spawn_client = \<lambda>t. when_running (spawn_client K t)\<rparr>"

text \<open>
  \<open>settled\<close>: the consumers that were sent a response or dropped, in order; \<open>queue\<close>: the requests still to be
  received.  An await that completes leaves both alone.  When the queue is empty it is either closed or receiving
  from it waits.
\<close>

definition settling ::
  "'w await_io \<Rightarrow> ('st, 'w) client_io \<Rightarrow> (receiver \<Rightarrow> 'w \<Rightarrow> ('st client_request option \<times> 'w) option) \<Rightarrow> framed
     \<Rightarrow> processor \<Rightarrow> receiver \<Rightarrow> ('w \<Rightarrow> 'st client_request list) \<Rightarrow> ('w \<Rightarrow> sender list) \<Rightarrow> bool" where
  "settling P K recv socket processor rx queue settled \<longleftrightarrow>
     kept_if_done (\<lambda>w. (queue w, settled w)) (next_await P socket) \<and>
     (\<forall>b. kept_if_done (\<lambda>w. (queue w, settled w)) (send_await P socket b)) \<and>
     (\<forall>b. kept_if_done (\<lambda>w. (queue w, settled w)) (pre_await P processor b)) \<and>
     (\<forall>b. kept_if_done (\<lambda>w. (queue w, settled w)) (post_await P processor b)) \<and>
     (\<forall>s b w. queue (snd (consumer_send K s b w)) = queue w \<and>
              settled (snd (consumer_send K s b w)) = settled w @ [s]) \<and>
     (\<forall>s w. queue (consumer_drop K s w) = queue w \<and> settled (consumer_drop K s w) = settled w @ [s]) \<and>
     (\<forall>w. queue w = [] \<longrightarrow> recv rx w = None \<or>
        (\<exists>w'. recv rx w = Some (None, w') \<and> queue w' = [] \<and> settled w' = settled w)) \<and>
     (\<forall>w q qs. queue w = q # qs \<longrightarrow>
        (\<exists>w'. recv rx w = Some (Some q, w') \<and> queue w' = qs \<and> settled w' = settled w))"

lemma settlingD:
  assumes "settling P K recv socket processor rx queue settled"
  shows "queue w = [] \<Longrightarrow> recv rx w = None \<or>
      (\<exists>w'. recv rx w = Some (None, w') \<and> queue w' = [] \<and> settled w' = settled w)"
    and "queue w = q # qs \<Longrightarrow> \<exists>w'. recv rx w = Some (Some q, w') \<and> queue w' = qs \<and> settled w' = settled w"
    and "queue (snd (consumer_send K s b w)) = queue w" and "settled (snd (consumer_send K s b w)) = settled w @ [s]"
    and "queue (consumer_drop K s w) = queue w" and "settled (consumer_drop K s w) = settled w @ [s]"
  using assms unfolding settling_def by blast+

lemma await_kept: "kept_if_done v f \<Longrightarrow> v (world_of (snd (await f d x))) = v (world_of x)"
  by (cases x) (auto simp: kept_if_done_def split: option.split)

lemma settling_preserves:
  assumes "settling P K recv socket processor rx queue settled"
  shows "io_preserves (awaiting P) socket processor (\<lambda>x. (queue (world_of x), settled (world_of x)))"
  using assms unfolding io_preserves_def settling_def awaiting_def conn_io.simps
  by (intro conjI allI; intro await_kept[where v = "\<lambda>w. (queue w, settled w)"]) blast+

lemma wait_for_data_stable:
  assumes "io_stable Q IO stream processor" and "wait_for_data IO stream w = (r, w')" and "Q w"
  shows "Q w'"
  using assms(2,3) by (auto simp: wait_for_data_def split: outcome_splits dest: io_stableD[OF assms(1)])

lemma exchange_stable:
  assumes "io_stable Q IO stream processor" and "exchange IO stream processor m d w = (r, w')" and "Q w"
  shows "Q w'"
  using assms(2,3)
  by (auto simp: exchange_def split: outcome_splits dest!: io_stableD[OF assms(1)] wait_for_data_stable[OF assms(1)])

lemma resolve_handler_stable:
  assumes "io_stable Q IO stream processor" and "resolve_handler L IO K stream processor info tr w = (r, tr', w')" and "Q w"
  shows "Q w'"
  using assms(2,3)
  by (auto simp: resolve_handler_def request_route_def request_route_from_server_def split: outcome_splits
      dest!: io_stableD[OF assms(1)] wait_for_data_stable[OF assms(1)])

text \<open>Settling a consumer at the end of a request.\<close>

lemma settle_end:
  assumes "settling P K recv socket processor rx queue settled"
    and "progress stuck (Running w) x" and "(queue (world_of x), settled (world_of x)) = (queue w, settled w)"
  shows "(case when_running (consumer_drop K s) x of
       Running w' \<Rightarrow> queue w' = queue w \<and> settled w' = settled w @ [s]
     | Waiting w' \<Rightarrow> stuck w' \<and> queue w' = queue w \<and> settled w' = settled w)"
    and "(case snd (at_once (consumer_send K s b) d x) of
       Running w' \<Rightarrow> queue w' = queue w \<and> settled w' = settled w @ [s]
     | Waiting w' \<Rightarrow> stuck w' \<and> queue w' = queue w \<and> settled w' = settled w)"
  using assms(2,3) settlingD(3-6)[OF assms(1)] by (cases x; simp add: progress_def)+

lemma process_request_settles_or_waits:
  assumes "settling P K recv socket processor rx queue settled"
    and "process_request L (awaiting P) (awaiting_client K recv) socket processor request tr (Running w) = (r, tr', x')"
  shows "case x' of
       Running w' \<Rightarrow> queue w' = queue w \<and> settled w' = settled w @ [consumer request]
     | Waiting w' \<Rightarrow> awaits_forever P socket processor w' \<and> queue w' = queue w \<and> settled w' = settled w"
proof -
  let ?IO = "awaiting P" and ?K = "awaiting_client K recv"
  let ?Q = "progress (awaits_forever P socket processor) (Running w)"
  have stable: "io_stable ?Q ?IO socket processor"
    using awaiting_progress[where held = "\<lambda>_. False"] by simp
  note pres = settling_preserves[OF assms(1)]
  note ends = settle_end[OF assms(1), where stuck = "awaits_forever P socket processor" and w = w]
  obtain res tr1 x1 where 1: "resolve_handler L ?IO ?K socket processor (dr_handler_info (req request)) tr (Running w) =
      (res, tr1, x1)"
    by (metis prod.collapse)
  have x1: "?Q x1" "(queue (world_of x1), settled (world_of x1)) = (queue w, settled w)"
    using resolve_handler_stable[OF stable 1] resolve_handler_preserves[OF pres 1] by simp_all
  consider e where "res = Err e" | hid where "res = Ok hid" "to_bytes_PacketMeta L (packet_meta_of L (req request) hid) = None"
    | hid m where "res = Ok hid" "to_bytes_PacketMeta L (packet_meta_of L (req request) hid) = Some m"
    by (cases res) (metis not_None_eq)+
  then show ?thesis
  proof cases
    case 3
    obtain res2 x2 where 2: "exchange ?IO socket processor m (dr_data (req request)) x1 = (res2, x2)" by fastforce
    have x2: "?Q x2" "(queue (world_of x2), settled (world_of x2)) = (queue w, settled w)"
      using exchange_stable[OF stable 2 x1(1)] exchange_preserves[OF pres 2] x1(2) by simp_all
    show ?thesis
    proof (cases res2)
      case (Ok response)
      then have "x' = snd (at_once (consumer_send K (consumer request) response) (Ok ()) x2)"
        using assms(2) 1 2 3 by (auto simp: process_request_def awaiting_client_def split: prod.splits)
      then show ?thesis using ends(2)[OF x2] by simp
    next
      case (Err e)
      then show ?thesis
        using assms(2) 1 2 3 ends(1)[OF x2] by (auto simp: process_request_def awaiting_client_def)
    qed
  qed (use assms(2) 1 ends[OF x1] in \<open>auto simp: process_request_def awaiting_client_def\<close>)
qed

lemma client_task_step:
  assumes "settling P K recv socket processor rx queue settled" and "queue w = q # qs"
  obtains r tr' x w1 where "queue w1 = qs" and "settled w1 = settled w"
    and "process_request L (awaiting P) (awaiting_client K recv) socket processor q tr (Running w1) = (r, tr', x)"
    and "client_task L (awaiting P) (awaiting_client K recv) socket processor rx tr (Running w) =
      client_task L (awaiting P) (awaiting_client K recv) socket processor rx tr' x"
proof -
  obtain w1 where 1: "recv rx w = Some (Some q, w1)" "queue w1 = qs" "settled w1 = settled w"
    using settlingD(2)[OF assms] by blast
  obtain r tr' x where 2: "process_request L (awaiting P) (awaiting_client K recv) socket processor q tr (Running w1) = (r, tr', x)"
    by (metis prod.collapse)
  show thesis
    by (rule that[OF 1(2,3) 2], subst client_task.simps) (use 2 in \<open>simp add: awaiting_client_def 1(1)\<close>)
qed

text \<open>A task that waits does nothing more.\<close>

lemma client_task_Waiting:
  "client_task L (awaiting P) (awaiting_client K recv) socket processor rx tr (Waiting w) = Some (tr, Waiting w)"
  by (subst client_task.simps) (simp add: awaiting_client_def)

lemma client_task_runs:
  assumes "settling P K recv socket processor rx queue settled"
  shows "queue w = qs \<Longrightarrow> \<exists>tr' x n. client_task L (awaiting P) (awaiting_client K recv) socket processor rx tr (Running w) =
       Some (tr', x) \<and> settled (world_of x) = settled w @ map consumer (take n qs) \<and>
     (n = length qs \<and> queue (world_of x) = [] \<and> (x = Running (world_of x) \<or> recv rx (world_of x) = None) \<or>
      n < length qs \<and> queue (world_of x) = drop (Suc n) qs \<and> x = Waiting (world_of x) \<and>
      awaits_forever P socket processor (world_of x))"
proof (induction qs arbitrary: tr w)
  case Nil
  from settlingD(1)[OF assms Nil] show ?case
  proof (elim disjE exE)
    fix w' assume w': "recv rx w = Some (None, w') \<and> queue w' = [] \<and> settled w' = settled w"
    then have "client_task L (awaiting P) (awaiting_client K recv) socket processor rx tr (Running w) = Some (tr, Running w')"
      by (subst client_task.simps) (simp add: awaiting_client_def)
    then show ?thesis using w' by auto
  next
    assume none: "recv rx w = None"
    then have "client_task L (awaiting P) (awaiting_client K recv) socket processor rx tr (Running w) = Some (tr, Waiting w)"
      by (subst client_task.simps) (simp add: awaiting_client_def)
    then show ?thesis using none Nil by auto
  qed
next
  case (Cons q qs)
  obtain r tr' x w1 where 1: "queue w1 = qs" "settled w1 = settled w"
      "process_request L (awaiting P) (awaiting_client K recv) socket processor q tr (Running w1) = (r, tr', x)"
      "client_task L (awaiting P) (awaiting_client K recv) socket processor rx tr (Running w) =
      client_task L (awaiting P) (awaiting_client K recv) socket processor rx tr' x"
    by (rule client_task_step[OF assms Cons.prems])
  note q = process_request_settles_or_waits[OF assms 1(3)]
  show ?case
  proof (cases x)
    case (Waiting w')
    then show ?thesis
      using q 1 client_task_Waiting[of L P K recv socket processor rx tr' w']
      by (intro exI[of _ tr'] exI[of _ "Waiting w'"] exI[of _ 0]) simp
  next
    case (Running w')
    then have w': "queue w' = qs" "settled w' = settled w @ [consumer q]" using q 1(1,2) by simp_all
    obtain tr2 x2 n where "client_task L (awaiting P) (awaiting_client K recv) socket processor rx tr' (Running w') = Some (tr2, x2)"
       "settled (world_of x2) = settled w' @ map consumer (take n qs)"
       "n = length qs \<and> queue (world_of x2) = [] \<and> (x2 = Running (world_of x2) \<or> recv rx (world_of x2) = None) \<or>
        n < length qs \<and> queue (world_of x2) = drop (Suc n) qs \<and> x2 = Waiting (world_of x2) \<and>
        awaits_forever P socket processor (world_of x2)"
      using Cons.IH[OF w'(1)] by blast
    then show ?thesis
      using 1(4) Running w'(2) by (intro exI[of _ tr2] exI[of _ x2] exI[of _ "Suc n"]) auto
  qed
qed

text \<open>
  C5. The client's task settles the queued requests in the order of the queue, each exactly once, by sending its
  consumer the response or by dropping the consumer so that the caller's receiver fails; a failing request does
  not stop the ones behind it.  It goes on to the end of the queue, where it ends or waits for another
  request, unless one of its awaits on the stream or the processor never completes.  These awaits have no
  time-out: then the task waits for ever in the middle of a request, with exactly the requests before it settled
  and the ones behind it still in the queue.
\<close>

theorem client_task_settles_or_waits:
  assumes "settling P K recv socket processor rx queue settled"
  shows "\<exists>tr' x n. client_task L (awaiting P) (awaiting_client K recv) socket processor rx tr (Running w) = Some (tr', x) \<and>
     settled (world_of x) = settled w @ map consumer (take n (queue w)) \<and>
     (n = length (queue w) \<and> queue (world_of x) = [] \<and> (x = Running (world_of x) \<or> recv rx (world_of x) = None) \<or>
      n < length (queue w) \<and> queue (world_of x) = drop (Suc n) (queue w) \<and> x = Waiting (world_of x) \<and>
      awaits_forever P socket processor (world_of x))"
  by (rule client_task_runs[OF assms refl])

section \<open>A connection of the server\<close>

text \<open>
  The peer sends finitely many frames, by a measure that every item that arrives decreases and that no other await
  increases.
\<close>

definition finite_frames :: "'w await_io \<Rightarrow> framed \<Rightarrow> processor \<Rightarrow> ('w \<Rightarrow> nat) \<Rightarrow> bool" where
  "finite_frames P stream processor \<mu> \<longleftrightarrow>
     (\<forall>w y w'. next_await P stream w = Some (Some y, w') \<longrightarrow> \<mu> w' < \<mu> w) \<and>
     (\<forall>b w r w'. send_await P stream b w = Some (r, w') \<longrightarrow> \<mu> w' \<le> \<mu> w) \<and>
     (\<forall>b w r w'. pre_await P processor b w = Some (r, w') \<longrightarrow> \<mu> w' \<le> \<mu> w) \<and>
     (\<forall>b w r w'. post_await P processor b w = Some (r, w') \<longrightarrow> \<mu> w' \<le> \<mu> w)"

text \<open>
  The router's handlers and the functions that take the stream over may wait for ever, where \<open>held\<close> holds;
  the handlers and the hand-off channel do not add to what the peer sends.
\<close>

definition may_hold :: "('st, 'tc, 'w await) connection \<Rightarrow> ('w \<Rightarrow> bool) \<Rightarrow> ('w \<Rightarrow> nat) \<Rightarrow> bool" where
  "may_hold c held \<mu> \<longleftrightarrow>
     (\<forall>x. progress held x (snd (oneshot_channel (c_handoff c) x))) \<and>
     (\<forall>rx x. progress held x (snd (oneshot_try_recv (c_handoff c) rx x)) \<and>
        \<mu> (world_of (snd (oneshot_try_recv (c_handoff c) rx x))) \<le> \<mu> (world_of x)) \<and>
     (\<forall>m p tx x. let x' = snd (serve_packet (c_lib c) (c_router c) m p (c_addr c, tx) x)
        in progress held x x' \<and> \<mu> (world_of x') \<le> \<mu> (world_of x)) \<and>
     (\<forall>f st s x. progress held x (snd (accept_call (c_handoff c) f st (c_addr c) s x))) \<and>
     (\<forall>f st s x fut x' y. accept_call (c_handoff c) f st (c_addr c) s x = (Returned fut, x') \<longrightarrow>
        progress held y (snd (fut y)))"

lemma await_le:
  assumes "\<forall>w r w'. f w = Some (r, w') \<longrightarrow> \<mu> w' \<le> (\<mu> w :: nat)"
  shows "\<mu> (world_of (snd (await f d x))) \<le> \<mu> (world_of x)"
  using assms by (cases x) (auto split: option.split)

lemma finite_frames_input:
  assumes "c_io c = awaiting P" and "finite_frames P (c_stream c) (c_processor c) \<mu>" and "may_hold c held \<mu>"
  shows "finite_input c (\<lambda>x. \<mu> (world_of x))"
proof -
  have frame: "\<mu> (world_of x') < \<mu> (world_of x)" if "await (next_await P (c_stream c)) None x = (Some y, x')" for x y x'
    using that assms(2) by (cases x) (auto simp: finite_frames_def split: option.splits)
  have others: "\<mu> (world_of (snd (await (pre_await P (c_processor c) b) [] x))) \<le> \<mu> (world_of x)"
      "\<mu> (world_of (snd (await (post_await P (c_processor c) b) [] x))) \<le> \<mu> (world_of x)"
      "\<mu> (world_of (snd (await (send_await P (c_stream c) b) (Ok ()) x))) \<le> \<mu> (world_of x)" for b x
    by (intro await_le; use assms(2) in \<open>simp add: finite_frames_def\<close>)+
  show ?thesis
    unfolding finite_input_def assms(1) awaiting_def conn_io.simps
    using assms(3) frame others unfolding may_hold_def Let_def by blast
qed

text \<open>Predicates that everything a connection calls keeps.\<close>

definition conn_stable :: "('w \<Rightarrow> bool) \<Rightarrow> ('st, 'tc, 'w) connection \<Rightarrow> bool" where
  "conn_stable Q c \<longleftrightarrow>
     io_stable Q (c_io c) (c_stream c) (c_processor c) \<and> stable Q (processor_clone (c_io c) (c_processor c)) \<and>
     (\<forall>rx. stable Q (oneshot_try_recv (c_handoff c) rx)) \<and>
     (\<forall>m p tx. stable Q (serve_packet (c_lib c) (c_router c) m p (c_addr c, tx))) \<and>
     (\<forall>f st s. stable Q (accept_call (c_handoff c) f st (c_addr c) s)) \<and>
     (\<forall>f st s w fut w'. accept_call (c_handoff c) f st (c_addr c) s w = (Returned fut, w') \<longrightarrow> stable Q fut)"

lemma conn_stableD:
  assumes "conn_stable Q c"
  shows "processor_clone (c_io c) (c_processor c) w = (prc, w') \<Longrightarrow> Q w \<Longrightarrow> Q w'"
    and "oneshot_try_recv (c_handoff c) rx w = (a, w') \<Longrightarrow> Q w \<Longrightarrow> Q w'"
    and "serve_packet (c_lib c) (c_router c) m p (c_addr c, tx) w = (v, w') \<Longrightarrow> Q w \<Longrightarrow> Q w'"
    and "accept_call (c_handoff c) f st (c_addr c) s w = (u, w') \<Longrightarrow> Q w \<Longrightarrow> Q w'"
    and "io_stable Q (c_io c) (c_stream c) (c_processor c)"
  using assms stableD unfolding conn_stable_def by metis+

lemma hand_off_stable:
  assumes "conn_stable Q c" and "hand_off c accept w = (ctl, w')" and "Q w"
  shows "Q w'"
proof -
  obtain prc w1 where 1: "processor_clone (c_io c) (c_processor c) w = (prc, w1)" by fastforce
  obtain u w2 where 2: "accept_call (c_handoff c) (fst accept) (snd accept) (c_addr c) (c_stream c, prc) w1 = (u, w2)"
    by fastforce
  have "Q w2" using conn_stableD(1,4)[OF assms(1)] 1 2 assms(3) by blast
  moreover have "stable Q fut" if "u = Returned fut" for fut
    using assms(1) 2 that unfolding conn_stable_def by blast
  ultimately show ?thesis
    using assms(2) 1 2 by (auto simp: hand_off_def split: run.splits prod.splits dest: stableD)
qed

lemma conn_iter_stable:
  assumes "conn_stable Q c" and "conn_iter c rx tx w = (ctl, w')" and "Q w"
  shows "Q w'"
proof -
  note io = io_stableD[OF conn_stableD(5)[OF assms(1)]]
  have receive: "Q v'" if "receive_message (c_io c) (c_stream c) (c_processor c) v = (r, v')" "Q v" for r v v'
    using that by (auto simp: receive_message_def split: outcome_splits dest: io)
  have send: "Q v'" if "send_message (c_io c) (c_stream c) b (c_processor c) v = (r, v')" "Q v" for b r v v'
    using that by (auto simp: send_message_def split: prod.splits dest: io)
  have close: "Q v'" if "close_and_exit c e v = (ct, v')" "Q v" for e ct v v'
    using that by (auto simp: close_and_exit_def split: prod.splits dest: io)
  have serve: "Q v'" if "serve_and_reply c rx m p tx v = (ct, v')" "Q v" for m p ct v v'
    using that
    by (auto simp: serve_and_reply_def split: outcome_splits
        dest!: conn_stableD(2,3)[OF assms(1)] send close hand_off_stable[OF assms(1)])
  show ?thesis
    using assms(2,3) by (auto simp: conn_iter_def split: outcome_splits dest!: receive close serve)
qed

lemma conn_loop_stable:
  assumes "conn_stable Q c" and "conn_loop c rx tx w = Some (e, w')"
  shows "Q w \<longrightarrow> Q w'"
  using assms(2) by (induction rule: conn_loop_induct) (use conn_iter_stable[OF assms(1)] in blast)+

lemma progress_stable:
  assumes "\<And>y. progress held y (snd (f y))"
  shows "stable (progress (\<lambda>w. forever w \<or> held w) x) f"
proof -
  have "progress (\<lambda>w. forever w \<or> held w) y (snd (f y))" for y
    using assms[of y] by (auto simp: progress_def split: await.splits)
  then show ?thesis unfolding stable_def by (blast intro: progress_trans)
qed

lemma waiting_stable:
  assumes "c_io c = awaiting P" and "may_hold c held \<mu>"
  shows "conn_stable (progress (\<lambda>w. awaits_forever P (c_stream c) (c_processor c) w \<or> held w) x) c"
proof -
  let ?Q = "progress (\<lambda>w. awaits_forever P (c_stream c) (c_processor c) w \<or> held w) x"
  have "stable ?Q (processor_clone (c_io c) (c_processor c))"
    by (rule progress_stable) (simp add: assms(1) awaiting_def)
  moreover have "stable ?Q (oneshot_try_recv (c_handoff c) rx)" for rx
    by (rule progress_stable) (use assms(2) in \<open>simp add: may_hold_def\<close>)
  moreover have "stable ?Q (serve_packet (c_lib c) (c_router c) m p (c_addr c, tx))" for m p tx
    by (rule progress_stable) (use assms(2) in \<open>simp add: may_hold_def Let_def\<close>)
  moreover have "stable ?Q (accept_call (c_handoff c) f st (c_addr c) s)" for f st s
    by (rule progress_stable) (use assms(2) in \<open>unfold may_hold_def, blast\<close>)
  moreover have "stable ?Q fut" if "accept_call (c_handoff c) f st (c_addr c) s w = (Returned fut, w')" for f st s w fut w'
    by (rule progress_stable) (use assms(2) that in \<open>unfold may_hold_def, blast\<close>)
  moreover have "io_stable ?Q (c_io c) (c_stream c) (c_processor c)"
    unfolding assms(1) by (rule awaiting_progress)
  ultimately show ?thesis unfolding conn_stable_def by blast
qed

text \<open>
  C14. A connection whose peer sends finitely many frames does not run for ever: whatever the frames are, whatever
  the handlers do and whatever the transport answers, it ends, or it waits for ever in an await that never
  completes, of the stream, of the traffic processor, or in a handler or in the function that took the stream
  over.  The server has no time-out of its own for any of these.
\<close>

theorem connection_ends_or_waits:
  assumes "c_io c = awaiting P" and "finite_frames P (c_stream c) (c_processor c) \<mu>" and "may_hold c held \<mu>"
  shows "\<exists>e x. handle_connection c (Running w) = Some (e, x) \<and>
     (x = Running (world_of x) \<or>
      x = Waiting (world_of x) \<and> (awaits_forever P (c_stream c) (c_processor c) (world_of x) \<or> held (world_of x)))"
proof -
  let ?Q = "progress (\<lambda>w. awaits_forever P (c_stream c) (c_processor c) w \<or> held w) (Running w)"
  note stable = waiting_stable[OF assms(1,3)]
  obtain tx rx y where ch: "oneshot_channel (c_handoff c) (Running w) = ((tx, rx), y)" by (metis prod.collapse)
  have "progress held (Running w) (snd (oneshot_channel (c_handoff c) (Running w)))"
    using assms(3) by (simp add: may_hold_def)
  then have y: "?Q y" by (auto simp: ch progress_def)
  obtain e x where run: "conn_loop c rx (Some tx) y = Some (e, x)"
    using conn_loop_returns[OF finite_frames_input[OF assms]] by blast
  then have "?Q x" using conn_loop_stable[OF stable run] y by blast
  then show ?thesis
    using run ch by (cases x) (auto simp: handle_connection_def progress_def)
qed

section \<open>Examples\<close>

text \<open>A peer that stays connected and silent after its frames.\<close>

definition silent_io :: "'a qworld_scheme await_io" where
  "silent_io =
     \<lparr>next_await = \<lambda>f w. (case q_in w of [] \<Rightarrow> None | b # bs \<Rightarrow> Some (Some (Ok b), w\<lparr>q_in := bs\<rparr>)),
      send_await = \<lambda>f b w. Some (Ok (), w\<lparr>q_out := q_out w @ [b]\<rparr>),
      close_await = \<lambda>f w. Some (Ok (), w\<lparr>q_closed := True\<rparr>),
      pre_await = \<lambda>p b w. Some (b, w), post_await = \<lambda>p b w. Some (b, w),
      new_framed = \<lambda>t cd w. (t, w), new_processor = \<lambda>w. (0, w), clone_processor = \<lambda>p w. (p, w)\<rparr>"

definition silent_recv :: "receiver \<Rightarrow> cworld \<Rightarrow> (u64 client_request option \<times> cworld) option" where
  "silent_recv rx w = (case cw_queue w of [] \<Rightarrow> None | q # qs \<Rightarrow> Some (Some q, w\<lparr>cw_queue := qs\<rparr>))"

lemma silent_settling:
  "settling silent_io sample_client_io silent_recv 0 0 0 cw_queue (\<lambda>w. map fst (cw_log w))"
  by (auto simp: settling_def kept_if_done_def silent_io_def silent_recv_def sample_client_io_def split: list.splits)

text \<open>The server answers the first of three requests and then falls silent.\<close>

definition three_requests :: "u64 client_request list" where
  "three_requests = [sample_request 4 [1], sample_request 5 [2], sample_request 6 [3]]"

lemma three_requests_simps [simp]:
  "length three_requests = 3" "map consumer (take n three_requests) = take n [4, 5, 6]"
  "cw_queue (sample_cworld ins three_requests) = three_requests" "cw_log (sample_cworld ins three_requests) = []"
  by (simp_all add: three_requests_def sample_request_def sample_cworld_def take_map[symmetric])

theorem client_task_settles_or_waits_witness:
  "\<exists>tr' x n. client_task sample_lib (awaiting silent_io) (awaiting_client sample_client_io silent_recv) 0 0 0 target_router_new
       (Running (sample_cworld [[7]] three_requests)) = Some (tr', x) \<and> map fst (cw_log (world_of x)) = take n [4, 5, 6] \<and>
     (n = 3 \<and> cw_queue (world_of x) = [] \<and> (x = Running (world_of x) \<or> silent_recv 0 (world_of x) = None) \<or>
      n < 3 \<and> cw_queue (world_of x) = drop (Suc n) three_requests \<and> x = Waiting (world_of x) \<and>
      awaits_forever silent_io 0 0 (world_of x))"
  using client_task_settles_or_waits[OF silent_settling, of sample_lib target_router_new "sample_cworld [[7]] three_requests"]
  unfolding three_requests_simps list.map append_Nil .

definition silent_conn :: "(u64, u64, qworld await) connection" where
  "silent_conn = \<lparr>c_lib = sample_lib, c_io = awaiting silent_io, c_handoff = quiet_handoff, c_router = router_new 0,
     c_addr = ''peer'', c_stream = 0, c_processor = 0\<rparr>"

theorem connection_ends_or_waits_witness:
  "\<exists>e x. handle_connection silent_conn (Running \<lparr>q_in = [[9]], q_out = [], q_closed = False\<rparr>) = Some (e, x) \<and>
     (x = Running (world_of x) \<or> x = Waiting (world_of x) \<and> awaits_forever silent_io 0 0 (world_of x))"
proof -
  have "may_hold silent_conn (\<lambda>_. False) (\<lambda>w. length (q_in w))"
    by (auto simp: may_hold_def silent_conn_def quiet_handoff_def routeless_serve)
  moreover have "finite_frames silent_io 0 0 (\<lambda>w. length (q_in w))"
    by (auto simp: finite_frames_def silent_io_def split: list.splits)
  ultimately show ?thesis
    using connection_ends_or_waits[of silent_conn silent_io "\<lambda>w. length (q_in w)" "\<lambda>_. False"]
    by (simp add: silent_conn_def)
qed

end
