(* ===== verification/Spec2Isabelle.thy ===== *)
theory Spec2Isabelle
  imports Router_Invariant Connection_Run Connection_Machine Connection_Close Server_Run Server_Stop Session Bench_Peers
    Bench_Load Example_Client Awaits
begin

text \<open>
  \<^bold>\<open>the-fourth-server: a verification library.\<close>

  The repository is a Rust crate (\<^verbatim>\<open>src/src\<close>) for request/response servers and clients
  over framed binary streams, and a crate of examples and benchmarks built on it
  (\<^verbatim>\<open>src/tf-examples/src\<close>).

  \<^bold>\<open>The program.\<close>  A server owns a router.  Routes are registered on the router with a name and the
  structure types they accept, then committed.  The acceptor task admits streams (TLS, WebSocket
  upgrade, codec set-up, traffic processors) and starts one task per connection.  A connection task
  reads a meta data frame, reads a payload frame if the meta data announces one, lets the router
  dispatch the packet to a handler, and writes one reply frame.  A handler may ask, through a
  one-shot channel, to take the stream over.  A client owns a queue of requests and one task that works
  it: it resolves the name of a handler to an id (asking the server once per name), writes the two
  frames of the request, waits for the reply and gives it to the caller's channel.

  \<^bold>\<open>Foundations.\<close>
  \<^item> \<open>Prelude\<close>: machine integers, byte strings, object references, the types \<open>result\<close>
    (Rust's \<^verbatim>\<open>Result\<close>) and \<open>run\<close> (a value or a panic), shared lemma collections.
  \<^item> \<open>Std_HashMap\<close>: Rust's \<^verbatim>\<open>HashMap\<close> for a key equality that need not be equality of
    values (\<^verbatim>\<open>TypeTuple\<close> compares by overlap); the locale \<open>dict\<close> is the contract of maps
    under ordinary equality, interpreted on the same operations.
  \<^item> \<open>Std_Text\<close>: the text functions of the standard library that the benchmarks use, with
    printing and parsing of numbers as inverses.
  \<^item> \<open>Externals\<close>: everything the crate takes from \<^verbatim>\<open>the_fourth_utils\<close>, tokio and
    tokio-util as records of functions, and the documented behaviour the theorems rely on as named
    predicates: \<open>wire_laws\<close> (system messages survive serialization and are told apart),
    \<open>key_laws\<close> (lookups by one structure type), \<open>user_type_laws\<close>, \<open>fifo_stream\<close>
    (frames arrive complete and in order).  None of these is an axiom: each is a hypothesis of the
    theorems that need it.
  \<^item> \<open>Sample_Lib\<close>: one concrete instance that satisfies all of these laws; the examples
    (witnesses) of the theorems are evaluated on it.

  \<^bold>\<open>The crate.\<close>
  \<^item> \<open>Handler\<close> (\<^verbatim>\<open>server/handler.rs\<close>): handler and hand-off function types.  A call
    and the future it returns are separate: both can panic, with different effects.
  \<^item> \<open>Server_Router\<close> (\<^verbatim>\<open>server/server_router.rs\<close>): \<open>router_new\<close>,
    \<open>add_route\<close>, \<open>commit_routes\<close>, \<open>get_routes\<close>, \<open>serve_packet\<close>, and the
    abstract view of a router as a list of registrations.
  \<^item> \<open>Router_Dispatch\<close>: \<open>serve_packet\<close> refines a dispatch function of that list; what
    sequences of registration calls can produce; names lead to the handlers that carry them; the
    locale \<open>packet_service\<close> is what the connection loop needs of the router.
  \<^item> \<open>Router_Invariant\<close>: the invariant of the router's fields, kept by every operation, and
    the range of handler ids (registration numbers modulo \<open>2 ^ 64\<close>).
  \<^item> \<open>Connection\<close> (\<^verbatim>\<open>server/server.rs\<close>, \<^verbatim>\<open>handle_connection\<close>,
    \<^verbatim>\<open>receive_message\<close>, \<^verbatim>\<open>send_message\<close>): the loop with every early return.  It
    replies to every complete packet once and in order, each reply before the next packet is read, keeps the
    connection through refused packets, and hands the stream over.
  \<^item> \<open>Connection_Run\<close>: properties of whole runs: never more frames written than read, with
    no assumption on handlers beyond not touching the stream; what the owner of a handed over stream
    finds on it; and how the death of a handler is reported.
  \<^item> \<open>Connection_Close\<close>: which ends of the loop close the stream, and how often.
  \<^item> \<open>Connection_Machine\<close>: the specification of a connection as a pure function
    \<open>run_items\<close> from the state of handlers and processors and the frames and errors the stream
    delivers to the exit, the frames written and the final state; the locale \<open>machine_connection\<close> is
    what the loop relies on, and in it the loop is proved to implement the machine.  A broken frame is as
    good as a hang-up, and replies are causal.
  \<^item> \<open>Connections\<close>: many connection tasks in one world as a step relation and under a given
    schedule; a connection whose
    handlers answer is served as if it were alone, whatever becomes of the others, and a fair schedule
    serves it to its end; a task polled alone is \<^verbatim>\<open>handle_connection\<close>.
  \<^item> \<open>Target_Router\<close> (\<^verbatim>\<open>client/target_router.rs\<close>): the client's table of names; the
    locale \<open>route_source\<close> is its contract.
  \<^item> \<open>Client\<close> (\<^verbatim>\<open>client/mod.rs\<close>): connecting, the request queue, the task, and the
    traffic of one request.
  \<^item> \<open>Awaits\<close>: the client's task and the server's connection with awaits that may never complete.
    The task settles the queued requests in order, each once, up to one in which it waits for ever; a
    connection whose peer sends finitely many frames ends or waits for ever.
  \<^item> \<open>Server\<close> (\<^verbatim>\<open>server/server.rs\<close>, the rest): binding, \<open>initial_accept\<close>,
    the acceptor, whose waits for a peer may never end; a connection is started exactly when all gates
    passed; the acceptor returns exactly when it is stopped before a peer stalls it; from binding to the
    stop signal, the connections started are those of the admitted streams, in order.
  \<^item> \<open>Server_Run\<close>: the acceptor and the connection tasks it spawned as one process under any
    schedule: which tasks exist, and that each connection polled often enough is served to its end; each
    of these tasks, polled alone, is the function of the code.
  \<^item> \<open>Server_Stop\<close>: the stop signal among the polls of the acceptor: a stop that finds the acceptor
    in its select ends it, one that comes while a stream is set up is lost.
  \<^item> \<open>Protocol\<close>: client and server joined by the frames they exchange.  Every caller gets the
    reply to its own request, by id or by name; a request without data puts the two sides out of step for
    good; when the link ends early, the remaining callers are told.
  \<^item> \<open>Session\<close>: client and server running at the same time.  The client's task runs on stream
    operations that let the server's loop and other tasks of the server take turns under an arbitrary
    schedule; for every schedule
    every caller of a mixed queue gets its reply and nothing is left on the link.

  \<^bold>\<open>Benchmarks and examples.\<close>
  \<^item> \<open>Bench_Util\<close> (\<^verbatim>\<open>bench/util.rs\<close>, \<^verbatim>\<open>bench/mod.rs\<close>): command line and
    waiting for a port.
  \<^item> \<open>Bench_Stats\<close> (\<^verbatim>\<open>bench/stats.rs\<close>): the latency recorder and the result line.
  \<^item> \<open>Bench_Proc\<close> (\<^verbatim>\<open>bench/proc.rs\<close>): CPU time and memory from \<^verbatim>\<open>/proc\<close>.
  \<^item> \<open>Bench_Tf\<close> (\<^verbatim>\<open>bench/tf.rs\<close>, \<^verbatim>\<open>bench/stype.rs\<close>): the echo servers; the
    echo benchmark gives every caller its own data back.
  \<^item> \<open>Bench_Runner\<close> (\<^verbatim>\<open>benches/runner.rs\<close> and the mains of the two echo servers): the
    load generator; connections stop once connected, the totals are the sums over the spawned tasks, the server
    child is killed at the end unless the program panics first, and what it takes for the program to end.
  \<^item> \<open>Bench_Load\<close>: a connection of the load generator, the client's task and the echo server's
    connection running concurrently, for every schedule: every reply is the data sent, and a connection that
    stops early does so at the first time-out or refused request.
  \<^item> \<open>Bench_Peers\<close> (\<^verbatim>\<open>benches/axum_server.rs\<close>, \<^verbatim>\<open>actix_server.rs\<close>,
    \<^verbatim>\<open>lynn_server.rs\<close>): the servers compared with, their frameworks being parameters; all five
    servers listen where the runner that started them connects.
  \<^item> \<open>Example_Handlers\<close> (\<^verbatim>\<open>s_type_example/mod.rs\<close>, \<^verbatim>\<open>server_example\<close>,
    \<^verbatim>\<open>server_ex.rs\<close>, the requests of \<^verbatim>\<open>client_ex.rs\<close>): what the example handlers
    answer through the router.
  \<^item> \<open>Example_Client\<close> (\<^verbatim>\<open>client_ex.rs\<close>, \<^verbatim>\<open>usage_example.rs\<close>,
    \<^verbatim>\<open>s_type_ex.rs\<close>): the program of the example client and what can stop it, its rounds against
    the example server running concurrently, and the serialization example.

  \<^bold>\<open>How code becomes definitions.\<close>  State is passed explicitly: an operation that awaits takes the
  world and returns its value and the world at the time it completes, so effects of other tasks in
  between are part of that change.  The world is a type variable; a theorem states through views of the
  world what it assumes of it.  Structs are records, enums are datatypes, \<^verbatim>\<open>u64\<close> is
  \<^typ>\<open>64 word\<close> with wrapping arithmetic (release builds).  Loops that may run for ever (the
  connection, the client task, the acceptor, waiting for a port, the load loop) are partial functions
  into \<open>option\<close>: \<open>None\<close> means that the loop does not return, and that a loop returns is
  proved as such, from an assumption that makes progress finite (finitely many frames, a finite queue, a
  stop signal, a clock that advances).  No fuel is used.  Loops over data are structural or have a
  measure.

  \<^bold>\<open>Concurrency.\<close>  An iteration of a connection is one step of \<open>Connections\<close> and
  \<open>Server_Run\<close>, and the handling of one event by the acceptor is one step of \<open>Server_Run\<close>,
  with any steps of other tasks between them.  In \<open>Session\<close> the moves of the server's side (iterations
  of the connection, and steps of other tasks that leave the link alone) are interleaved with the stream
  operations of the client, before each of them as many as an arbitrary schedule says.  Inside an iteration,
  effects of other tasks are part of the change of the world at each await.

  \<^bold>\<open>Waiting for ever and panicking.\<close>  No await of the crate has a time-out.  The acceptor, which
  waits for a peer's handshake before it takes the next event, has operations that may never complete
  (\<open>None\<close>), and so have the joins of the load generator's tasks.  The operations on frames and
  traffic processors are functions into any world; \<open>Awaits\<close> chooses a world that also says whether
  the task is running or waits for ever, and states there when the client's task and a connection end.  The
  theorems on sessions and schedules state what the link and the handlers do (they deliver, answer, or fail),
  which includes that they complete; a task that waits takes no further steps in a schedule and blocks nobody
  else.  Calls that may panic (handlers and their futures, printing on a closed output, random numbers,
  instants and durations out of range, the queue constructor) have the value \<open>Panicked\<close>.  A panic
  ends its task, or is caught where the router catches the panics of handlers; this is Rust's default.  A build
  with \<^verbatim>\<open>panic = "abort"\<close>, as the release profile of the example crate, ends the program at the
  first panic; the load generator is modelled for both.

  \<^bold>\<open>What is not modelled.\<close>  Logging (\<^verbatim>\<open>log_macros.rs\<close>); the bytes of the serialization,
  codecs, encryption, TLS and WebSocket (code outside the repository, parameters here); allocation (and its
  failure) and frame size limits;
  \<^verbatim>\<open>manual_handler.rs\<close>, which is commented out; module declarations and re-exports.

  \<^bold>\<open>Extent.\<close>  Every function of the two crates that changes state is modelled.  What the
  definitions do not translate is \<^verbatim>\<open>use\<close> and \<^verbatim>\<open>impl\<close> lines, logging, derive attributes, the
  invocations of macros whose definitions are outside the repository, and the commented-out file.
\<close>

end
